theory Spec2Isabelle
  imports Main
begin

section \<open>Errors\<close>

text \<open>
  The exceptions of \<open>run_train_punc.py\<close>: the \<open>ValueError\<close>s that \<open>main\<close>
  raises itself, the \<open>KeyError\<close> of a dictionary subscript, the \<open>IndexError\<close> of a
  sequence subscript, the \<open>ZeroDivisionError\<close> of a division, the \<open>ImportError\<close> of
  line 263, the two failures of reading and writing files that the model of the output
  directory needs, and the two refusals of the libraries that the command line alone
  decides: a \<open>DataLoader\<close> with a batch size that is not positive, and a call of
  \<open>torch.distributed\<close> when line 159 has not initialised the process group.
\<close>

datatype value_error =
    InvalidAccumulationSteps int  \<comment> \<open>line 164: "Invalid gradient_accumulation_steps parameter"\<close>
  | TrainOrEvalRequired           \<comment> \<open>line 174: "At least one of do_train or do_eval must be True."\<close>
  | OutputDirNotEmpty             \<comment> \<open>line 177: "Output directory already exists and is not empty."\<close>
  | TaskNotFound string           \<comment> \<open>line 184: "Task not found"\<close>
  | EvalSplitUnknown              \<comment> \<open>lines 358, 444: "eval on dev or test set only"\<close>
  | BatchSizeNotPositive int      \<comment> \<open>line 310: \<open>DataLoader\<close> refuses a batch size \<open>\<le> 0\<close>\<close>

datatype error =
    ValueError value_error
  | KeyError
  | IndexError
  | ZeroDivisionError
  | UnpicklingError
  | OSError
  | ImportError        \<comment> \<open>line 263: "Please install apex ... to use fp16 training."\<close>
  | ProcessGroupError  \<comment> \<open>\<open>torch.distributed\<close> without an initialised process group\<close>

section \<open>The label map\<close>

text \<open>
  \<open>label_map = {i: label for i, label in enumerate(label_list, 1)}\<close> (lines 278, 378,
  425, 465). The dictionary is kept as the list of its items in insertion order; the keys
  are pairwise different (lemma \<open>label_map_keys_distinct\<close>), so \<open>len\<close> is the length
  of the item list and a lookup is \<open>map_of\<close>.
\<close>

type_synonym label_dict = "(int \<times> string) list"

definition mk_label_map :: "string list \<Rightarrow> label_dict" where
  "mk_label_map label_list = map (\<lambda>(i, label). (int i, label)) (enumerate 1 label_list)"

definition dict_len :: "label_dict \<Rightarrow> int" where
  "dict_len d = int (length d)"

text \<open>\<open>d[k]\<close>: raises \<open>KeyError\<close> for a missing key.\<close>

definition dict_index :: "label_dict \<Rightarrow> int \<Rightarrow> error + string" where
  "dict_index d k = (case map_of d k of None \<Rightarrow> Inl KeyError | Some v \<Rightarrow> Inr v)"

text \<open>\<open>d.get(k, default)\<close>.\<close>

definition dict_get :: "label_dict \<Rightarrow> int \<Rightarrow> string \<Rightarrow> string" where
  "dict_get d k dflt = (case map_of d k of None \<Rightarrow> dflt | Some v \<Rightarrow> v)"

text \<open>\<open>num_labels = len(label_list) + 1\<close> (line 188).\<close>

definition num_labels :: "string list \<Rightarrow> int" where
  "num_labels label_list = int (length label_list) + 1"

section \<open>The evaluation decoding loop\<close>

text \<open>
  Lines 398-410 and, token for token the same, lines 486-498:
  \<^verbatim>\<open>
  for i, label in enumerate(label_ids):
      temp_1 = []
      temp_2 = []
      for j, m in enumerate(label):
          if j == 0:
              continue
          elif label_ids[i][j] == len(label_map):
              y_true.extend(temp_1)
              y_pred.extend(temp_2)
              break
          else:
              temp_1.append(label_map[label_ids[i][j]])
              temp_2.append(label_map.get(logits[i][j], 'PAD'))
  \<close>
  \<open>label_ids\<close> is a two-dimensional integer array, so \<open>label_ids[i][j]\<close> is the
  element \<open>m\<close> of the enumeration. \<open>logits\<close> holds one predicted id per position (the
  arg-max of the scores, or the sequence a CRF head returns); it is a list of rows, and
  a subscript outside it raises \<open>IndexError\<close>.
\<close>

text \<open>\<open>logits[i][j]\<close> for \<open>i, j \<ge> 0\<close>.\<close>

definition logits_at :: "int list list \<Rightarrow> nat \<Rightarrow> nat \<Rightarrow> error + int" where
  "logits_at logits i j =
     (if i < length logits \<and> j < length (logits ! i) then Inr (logits ! i ! j)
      else Inl IndexError)"

text \<open>
  The inner loop from position \<open>j\<close> on, over the rest of the row. \<open>Inr (Some (t1, t2))\<close>:
  the \<open>break\<close> was reached with these \<open>temp_1\<close>, \<open>temp_2\<close>, which are flushed.
  \<open>Inr None\<close>: the row ended without a \<open>break\<close>, and nothing is flushed.
\<close>

fun decode_row ::
  "label_dict \<Rightarrow> int list list \<Rightarrow> nat \<Rightarrow> nat \<Rightarrow> int list \<Rightarrow> string list \<Rightarrow> string list
     \<Rightarrow> error + (string list \<times> string list) option" where
  "decode_row label_map logits i j [] temp_1 temp_2 = Inr None"
| "decode_row label_map logits i j (m # ms) temp_1 temp_2 =
     (if j = 0 then decode_row label_map logits i (Suc j) ms temp_1 temp_2
      else if m = dict_len label_map then Inr (Some (temp_1, temp_2))
      else (case dict_index label_map m of
              Inl e \<Rightarrow> Inl e
            | Inr name \<Rightarrow>
               (case logits_at logits i j of
                  Inl e \<Rightarrow> Inl e
                | Inr p \<Rightarrow>
                    decode_row label_map logits i (Suc j) ms
                      (temp_1 @ [name]) (temp_2 @ [dict_get label_map p ''PAD'']))))"

text \<open>The outer loop over the examples of one batch, threading \<open>y_true\<close>, \<open>y_pred\<close>.\<close>

fun decode_batch ::
  "label_dict \<Rightarrow> int list list \<Rightarrow> nat \<Rightarrow> int list list \<Rightarrow> string list \<times> string list
     \<Rightarrow> error + (string list \<times> string list)" where
  "decode_batch label_map logits i [] (y_true, y_pred) = Inr (y_true, y_pred)"
| "decode_batch label_map logits i (label # rest) (y_true, y_pred) =
     (case decode_row label_map logits i 0 label [] [] of
        Inl e \<Rightarrow> Inl e
      | Inr None \<Rightarrow> decode_batch label_map logits (Suc i) rest (y_true, y_pred)
      | Inr (Some (temp_1, temp_2)) \<Rightarrow>
          decode_batch label_map logits (Suc i) rest (y_true @ temp_1, y_pred @ temp_2))"

subsection \<open>What the claims speak about\<close>

text \<open>
  The first position \<open>\<ge> j\<close> of a row (given from position \<open>j\<close> on) that holds the
  id \<open>v\<close>.
\<close>

fun first_pos_from :: "nat \<Rightarrow> int \<Rightarrow> int list \<Rightarrow> nat option" where
  "first_pos_from j v [] = None"
| "first_pos_from j v (m # ms) = (if m = v then Some j else first_pos_from (Suc j) v ms)"

text \<open>The first position from 1 onward of a whole row that holds \<open>v\<close>.\<close>

definition first_pos :: "int \<Rightarrow> int list \<Rightarrow> nat option" where
  "first_pos v row = first_pos_from 1 v (tl row)"

text \<open>
  "The loop stops at the first position from 1 onward that holds \<open>v\<close>": when there is
  such a position \<open>p\<close>, exactly the names of the positions \<open>1 .. p - 1\<close> are flushed, and
  when there is none, nothing is flushed.
\<close>

definition stops_at_first ::
  "int \<Rightarrow> label_dict \<Rightarrow> int list list \<Rightarrow> nat \<Rightarrow> int list \<Rightarrow> bool" where
  "stops_at_first v label_map logits i row =
     (decode_row label_map logits i 0 row [] [] =
        (case first_pos v row of
           None \<Rightarrow> Inr None
         | Some p \<Rightarrow>
             Inr (Some (map (\<lambda>j. the (map_of label_map (row ! j))) [1..<p],
                        map (\<lambda>j. dict_get label_map (logits ! i ! j) ''PAD'') [1..<p]))))"

text \<open>
  The ids of the positions from 1 up to, and without, the first one that holds \<open>v\<close>
  (all positions from 1 on when none holds \<open>v\<close>).
\<close>

definition pre_stop :: "int \<Rightarrow> int list \<Rightarrow> int list" where
  "pre_stop v row = takeWhile (\<lambda>m. m \<noteq> v) (tl row)"


section \<open>The state of \<open>main\<close>\<close>

text \<open>
  The parsed command line, with the fields that decide the control flow of \<open>main\<close>.
  \<open>num_train_epochs\<close> is parsed as a float and used by the loop only as
  \<open>int(args.num_train_epochs)\<close>; the field holds that integer.
\<close>

record namespace =
  task_name :: string
  model_type :: string
  do_train :: bool
  do_eval :: bool
  eval_on :: string
  eval_every_epoch :: bool
  train_batch_size :: int
  gradient_accumulation_steps :: int
  num_train_epochs :: int
  local_rank :: int
  no_cuda :: bool
  fp16 :: bool

text \<open>
  The dictionary given to \<open>torch.save\<close> (lines 344-350), with the keys \<open>'epoch'\<close>,
  \<open>'model_state_dict'\<close>, \<open>'optimizer_state_dict'\<close>, \<open>'loss'\<close> and \<open>'scheduler'\<close>.
  The states of the model, the optimizer and the scheduler and the value of the loss are
  opaque: they are type parameters, and an object of the libraries is identified with its
  state dictionary.
\<close>

record ('m, 'o, 's, 'l) checkpoint =
  ckpt_epoch :: int
  ckpt_model_state_dict :: 'm
  ckpt_optimizer_state_dict :: 'o
  ckpt_loss :: 'l
  ckpt_scheduler :: 's

text \<open>
  The output directory: \<open>None\<close> when it does not exist, else its entries by name.
  A report file holds what \<open>classification_report\<close> was computed from.
\<close>

datatype ('m, 'o, 's, 'l) file_content =
    CheckpointFile "('m, 'o, 's, 'l) checkpoint"
  | ReportFile "string list" "string list"
  | ModelFile 'm
  | OtherFile

type_synonym ('m, 'o, 's, 'l) directory = "(string \<times> ('m, 'o, 's, 'l) file_content) list"

text \<open>The calls of \<open>main\<close> into the libraries and the file system, in the order of the source.\<close>

datatype ('m, 'o, 's, 'l) event =
    SelectDevice                                 \<comment> \<open>lines 152-153\<close>
  | SetCudaDevice int                            \<comment> \<open>lines 155-156\<close>
  | InitProcessGroup                             \<comment> \<open>line 159\<close>
  | SeedRNG                                      \<comment> \<open>lines 169-171\<close>
  | MakeDirs                                     \<comment> \<open>line 179\<close>
  | LoadTokenizer                                \<comment> \<open>lines 192-193\<close>
  | LoadConfig                                   \<comment> \<open>line 194\<close>
  | LoadModel                                    \<comment> \<open>lines 227-231\<close>
  | GetTrainExamples                             \<comment> \<open>line 236\<close>
  | Barrier                                      \<comment> \<open>lines 243, 246\<close>
  | AmpInitialize                                \<comment> \<open>line 264\<close>
  | TorchLoad                                    \<comment> \<open>line 284\<close>
  | ConvertTrainFeatures                         \<comment> \<open>lines 292-305\<close>
  | MakeTrainLoader int                          \<comment> \<open>line 310, with its batch size\<close>
  | ForwardBackward int nat                      \<comment> \<open>lines 318-332, with epoch and step\<close>
  | OptimizerStep                                \<comment> \<open>line 338\<close>
  | SchedulerStep                                \<comment> \<open>line 339\<close>
  | ZeroGrad                                     \<comment> \<open>line 340\<close>
  | TorchSave "('m, 'o, 's, 'l) checkpoint"      \<comment> \<open>lines 344-350\<close>
  | GetEvalExamples string                       \<comment> \<open>lines 354, 356, 440, 442\<close>
  | ConvertEvalFeatures                          \<comment> \<open>lines 359-372, 445-459\<close>
  | WriteReport string "string list" "string list"  \<comment> \<open>lines 416-419, 504-507\<close>
  | SavePretrained                               \<comment> \<open>lines 422-429\<close>
  | LoadFineTuned                                \<comment> \<open>lines 433-434\<close>

text \<open>
  What \<open>main\<close> takes from outside the file: the libraries, \<open>punc_dataset\<close> and the data.
  A training batch and the input tensors of an evaluation batch are opaque (\<open>'x\<close>); an
  evaluation batch comes with its \<open>label_ids\<close> rows. \<open>forward_backward\<close> stands for lines
  318-332 and gives the model after \<open>backward\<close> and the value of \<open>loss.item()\<close>;
  \<open>predict\<close> stands for lines 387-393 and gives one predicted id per position.
\<close>

record ('m, 'o, 's, 'l, 'x) externals =
  get_labels :: "string list"
  from_pretrained :: 'm
  new_optimizer :: 'o
  new_scheduler :: 's
  train_batches :: "int \<Rightarrow> 'x list"
  forward_backward :: "'m \<Rightarrow> 'x \<Rightarrow> 'm \<times> 'l"
  optimizer_step :: "'m \<Rightarrow> 'o \<Rightarrow> 'm \<times> 'o"
  scheduler_step :: "'o \<Rightarrow> 's \<Rightarrow> 'o \<times> 's"
  zero_grad :: "'m \<Rightarrow> 'm"
  loss_zero :: 'l
  loss_add :: "'l \<Rightarrow> 'l \<Rightarrow> 'l"
  eval_batches :: "string \<Rightarrow> ('x \<times> int list list) list"
  predict :: "'m \<Rightarrow> 'x \<Rightarrow> int list list"
  dist_rank :: int
  apex_installed :: bool

text \<open>
  The local variables of \<open>main\<close> that live across its statements, the output directory,
  the calls made so far and the exception raised, if any.
\<close>

record ('m, 'o, 's, 'l) state =
  trace :: "('m, 'o, 's, 'l) event list"
  files :: "('m, 'o, 's, 'l) directory option"
  raised :: "error option"
  args :: namespace
  model :: 'm
  optimizer :: 'o
  scheduler :: 's
  tr_loss :: 'l
  global_step :: int
  nb_tr_steps :: int
  start_epoch :: int

definition emit :: "('m, 'o, 's, 'l) event \<Rightarrow> ('m, 'o, 's, 'l) state \<Rightarrow> ('m, 'o, 's, 'l) state" where
  "emit ev s = s\<lparr>trace := trace s @ [ev]\<rparr>"

definition raise_error :: "error \<Rightarrow> ('m, 'o, 's, 'l) state \<Rightarrow> ('m, 'o, 's, 'l) state" where
  "raise_error e s = s\<lparr>raised := Some e\<rparr>"

text \<open>The next statement runs only when no exception is on its way.\<close>

definition andthen ::
  "('m, 'o, 's, 'l) state \<Rightarrow> (('m, 'o, 's, 'l) state \<Rightarrow> ('m, 'o, 's, 'l) state)
     \<Rightarrow> ('m, 'o, 's, 'l) state" where
  "andthen s f = (if raised s = None then f s else s)"

definition seq ::
  "(('m, 'o, 's, 'l) state \<Rightarrow> ('m, 'o, 's, 'l) state) list \<Rightarrow> ('m, 'o, 's, 'l) state
     \<Rightarrow> ('m, 'o, 's, 'l) state" where
  "seq fs s = foldl andthen s fs"

text \<open>Writing a file of the output directory replaces the entry of that name.\<close>

definition write_file ::
  "string \<Rightarrow> ('m, 'o, 's, 'l) file_content \<Rightarrow> ('m, 'o, 's, 'l) state \<Rightarrow> ('m, 'o, 's, 'l) state" where
  "write_file name content s =
     (case files s of
        None \<Rightarrow> raise_error OSError s
      | Some d \<Rightarrow> s\<lparr>files := Some ((name, content) # filter (\<lambda>e. fst e \<noteq> name) d)\<rparr>)"

text \<open>\<open>PATH = os.path.join(args.output_dir, 'checkpoint.ckt')\<close> (line 281).\<close>

definition PATH :: string where
  "PATH = ''checkpoint.ckt''"


section \<open>The statements of \<open>main\<close> before the training loop\<close>

text \<open>Lines 151-159: the compute device and, in distributed mode, the process group.\<close>

definition setup_device :: "('m, 'o, 's, 'l) state \<Rightarrow> ('m, 'o, 's, 'l) state" where
  "setup_device s =
     (if local_rank (args s) = -1 \<or> no_cuda (args s) then emit SelectDevice s
      else emit InitProcessGroup (emit (SetCudaDevice (local_rank (args s))) s))"

text \<open>Lines 163-165.\<close>

definition check_accumulation :: "('m, 'o, 's, 'l) state \<Rightarrow> ('m, 'o, 's, 'l) state" where
  "check_accumulation s =
     (if gradient_accumulation_steps (args s) < 1
      then raise_error (ValueError (InvalidAccumulationSteps (gradient_accumulation_steps (args s)))) s
      else s)"

text \<open>
  Line 167: \<open>args.train_batch_size = args.train_batch_size // args.gradient_accumulation_steps\<close>.
  Python's \<open>//\<close> on integers rounds to minus infinity, as \<open>div\<close> on \<open>int\<close> does.
\<close>

definition scale_batch_size :: "('m, 'o, 's, 'l) state \<Rightarrow> ('m, 'o, 's, 'l) state" where
  "scale_batch_size s =
     s\<lparr>args := (args s)\<lparr>train_batch_size :=
          train_batch_size (args s) div gradient_accumulation_steps (args s)\<rparr>\<rparr>"

text \<open>Lines 169-171.\<close>

definition seed_rngs :: "('m, 'o, 's, 'l) state \<Rightarrow> ('m, 'o, 's, 'l) state" where
  "seed_rngs s = emit SeedRNG s"

text \<open>Lines 173-174.\<close>

definition check_train_or_eval :: "('m, 'o, 's, 'l) state \<Rightarrow> ('m, 'o, 's, 'l) state" where
  "check_train_or_eval s =
     (if \<not> do_train (args s) \<and> \<not> do_eval (args s)
      then raise_error (ValueError TrainOrEvalRequired) s else s)"

text \<open>
  Lines 176-177:
  \<open>if os.path.exists(args.output_dir) and os.listdir(args.output_dir) and args.do_train\<close>.
\<close>

definition check_output_dir :: "('m, 'o, 's, 'l) state \<Rightarrow> ('m, 'o, 's, 'l) state" where
  "check_output_dir s =
     (case files s of
        None \<Rightarrow> s
      | Some d \<Rightarrow>
          if d \<noteq> [] \<and> do_train (args s) then raise_error (ValueError OutputDirNotEmpty) s
          else s)"

text \<open>Lines 178-179.\<close>

definition make_output_dir :: "('m, 'o, 's, 'l) state \<Rightarrow> ('m, 'o, 's, 'l) state" where
  "make_output_dir s =
     (case files s of
        None \<Rightarrow> emit MakeDirs (s\<lparr>files := Some []\<rparr>)
      | Some d \<Rightarrow> s)"

text \<open>
  \<open>str.lower\<close>, on the letters of ASCII (a \<open>char\<close> is a byte; the one key of
  \<open>processors\<close> is ASCII).
\<close>

definition lower_char :: "char \<Rightarrow> char" where
  "lower_char c =
     (case map_of (zip ''ABCDEFGHIJKLMNOPQRSTUVWXYZ'' ''abcdefghijklmnopqrstuvwxyz'') c of
        None \<Rightarrow> c
      | Some d \<Rightarrow> d)"

definition lower :: "string \<Rightarrow> string" where
  "lower str = map lower_char str"

text \<open>Line 149: the keys of \<open>processors = {"punctuation_prediction": PuncProcessor}\<close>.\<close>

definition processors :: "string list" where
  "processors = [''punctuation_prediction'']"

text \<open>Lines 181-184.\<close>

definition check_task :: "('m, 'o, 's, 'l) state \<Rightarrow> ('m, 'o, 's, 'l) state" where
  "check_task s =
     (if lower (task_name (args s)) \<notin> set processors
      then raise_error (ValueError (TaskNotFound (lower (task_name (args s))))) s
      else s)"

text \<open>Lines 29-33: the keys of \<open>MODEL_CLASSES\<close>.\<close>

definition MODEL_CLASSES :: "string list" where
  "MODEL_CLASSES = [''bert'', ''electra'', ''xlmr'']"

text \<open>
  Lines 191-231: \<open>MODEL_CLASSES[args.model_type]\<close>, then the tokenizer, the configuration
  and the model are loaded from \<open>model_name_or_path\<close>.
\<close>

definition load_pretrained ::
  "('m, 'o, 's, 'l, 'x) externals \<Rightarrow> ('m, 'o, 's, 'l) state \<Rightarrow> ('m, 'o, 's, 'l) state" where
  "load_pretrained ext s =
     (if model_type (args s) \<notin> set MODEL_CLASSES then raise_error KeyError s
      else (emit LoadModel (emit LoadConfig (emit LoadTokenizer s)))\<lparr>model := from_pretrained ext\<rparr>)"

text \<open>
  Line 159 initialises the process group in the else-branch of line 151 only. A call of
  \<open>torch.distributed\<close> that needs the group (\<open>get_world_size\<close>, \<open>barrier\<close>) raises
  without it.
\<close>

definition process_group_initialised :: "namespace \<Rightarrow> bool" where
  "process_group_initialised a = (\<not> (local_rank a = -1 \<or> no_cuda a))"

definition needs_process_group :: "('m, 'o, 's, 'l) state \<Rightarrow> ('m, 'o, 's, 'l) state" where
  "needs_process_group s =
     (if process_group_initialised (args s) then s else raise_error ProcessGroupError s)"

text \<open>
  Lines 233-240: the training examples are read,
  \<open>len(train_examples) / args.train_batch_size\<close> divides by the batch size of line 167,
  and in distributed mode \<open>torch.distributed.get_world_size()\<close> is called.
\<close>

definition prepare_training :: "('m, 'o, 's, 'l) state \<Rightarrow> ('m, 'o, 's, 'l) state" where
  "prepare_training s =
     (if do_train (args s)
      then (if train_batch_size (args s) = 0
            then raise_error ZeroDivisionError (emit GetTrainExamples s)
            else if local_rank (args s) \<noteq> -1
              then needs_process_group (emit GetTrainExamples s)
            else emit GetTrainExamples s)
      else s)"

text \<open>Lines 242-246.\<close>

definition barrier :: "('m, 'o, 's, 'l) state \<Rightarrow> ('m, 'o, 's, 'l) state" where
  "barrier s = andthen (needs_process_group s) (emit Barrier)"

definition barriers :: "('m, 'o, 's, 'l) state \<Rightarrow> ('m, 'o, 's, 'l) state" where
  "barriers s =
     andthen (if local_rank (args s) \<notin> {-1, 0} then barrier s else s)
       (\<lambda>s1. if local_rank (args s1) = 0 then barrier s1 else s1)"

text \<open>Lines 248-258.\<close>

definition make_optimizer ::
  "('m, 'o, 's, 'l, 'x) externals \<Rightarrow> ('m, 'o, 's, 'l) state \<Rightarrow> ('m, 'o, 's, 'l) state" where
  "make_optimizer ext s = s\<lparr>optimizer := new_optimizer ext, scheduler := new_scheduler ext\<rparr>"

text \<open>
  Lines 259-264:
  \<^verbatim>\<open>
  if args.fp16:
      try:
          from apex import amp
      except ImportError:
          raise ImportError("Please install apex ...")
      model, optimizer = amp.initialize(model, optimizer, opt_level=args.fp16_opt_level)
  \<close>
\<close>

definition init_fp16 ::
  "('m, 'o, 's, 'l, 'x) externals \<Rightarrow> ('m, 'o, 's, 'l) state \<Rightarrow> ('m, 'o, 's, 'l) state" where
  "init_fp16 ext s =
     (if fp16 (args s)
      then (if apex_installed ext then emit AmpInitialize s else raise_error ImportError s)
      else s)"

text \<open>
  Lines 275-289: the counters, then
  \<^verbatim>\<open>
  start_epoch = 0
  PATH = os.path.join(args.output_dir, 'checkpoint.ckt')
  if os.path.exists(PATH):
      checkpoint = torch.load(PATH)
      model.load_state_dict(checkpoint['model_state_dict'])
      optimizer.load_state_dict(checkpoint['optimizer_state_dict'])
      start_epoch = int(checkpoint['epoch']) + 1
      tr_loss = checkpoint['loss']
      scheduler.load_state_dict(checkpoint['scheduler'])
  \<close>
  A file of that name that \<open>torch.save\<close> did not write cannot be unpickled.
\<close>

definition load_checkpoint ::
  "('m, 'o, 's, 'l, 'x) externals \<Rightarrow> ('m, 'o, 's, 'l) state \<Rightarrow> ('m, 'o, 's, 'l) state" where
  "load_checkpoint ext s =
     (let s0 = s\<lparr>global_step := 0, nb_tr_steps := 0, tr_loss := loss_zero ext, start_epoch := 0\<rparr>
      in case files s0 of
           None \<Rightarrow> s0
         | Some d \<Rightarrow>
            (case map_of d PATH of
               None \<Rightarrow> s0
             | Some (CheckpointFile checkpoint) \<Rightarrow>
                 (emit TorchLoad s0)\<lparr>
                    model := ckpt_model_state_dict checkpoint,
                    optimizer := ckpt_optimizer_state_dict checkpoint,
                    start_epoch := ckpt_epoch checkpoint + 1,
                    tr_loss := ckpt_loss checkpoint,
                    scheduler := ckpt_scheduler checkpoint\<rparr>
             | Some _ \<Rightarrow> raise_error UnpicklingError (emit TorchLoad s0)))"

section \<open>Evaluation\<close>

text \<open>The loop over \<open>eval_dataloader\<close> (lines 379-410, 466-498).\<close>

fun eval_loop ::
  "label_dict \<Rightarrow> ('x \<Rightarrow> int list list) \<Rightarrow> ('x \<times> int list list) list
     \<Rightarrow> string list \<times> string list \<Rightarrow> error + (string list \<times> string list)" where
  "eval_loop label_map pred [] acc = Inr acc"
| "eval_loop label_map pred ((inputs, label_ids) # rest) acc =
     (case decode_batch label_map (pred inputs) 0 label_ids acc of
        Inl e \<Rightarrow> Inl e
      | Inr acc' \<Rightarrow> eval_loop label_map pred rest acc')"

text \<open>
  Lines 359-419 and 445-507, the same but for the name of the report file: features,
  prediction and decoding, then the report is written.
\<close>

definition run_eval ::
  "('m, 'o, 's, 'l, 'x) externals \<Rightarrow> string \<Rightarrow> ('m, 'o, 's, 'l) state \<Rightarrow> ('m, 'o, 's, 'l) state" where
  "run_eval ext report_name s =
     (let s1 = emit ConvertEvalFeatures s
      in case eval_loop (mk_label_map (get_labels ext)) (predict ext (model s1))
                (eval_batches ext (eval_on (args s1))) ([], []) of
           Inl e \<Rightarrow> raise_error e s1
         | Inr (y_true, y_pred) \<Rightarrow>
             write_file report_name (ReportFile y_true y_pred)
               (emit (WriteReport report_name y_true y_pred) s1))"

text \<open>Lines 353-358 and 439-444, followed by the evaluation.\<close>

definition evaluate ::
  "('m, 'o, 's, 'l, 'x) externals \<Rightarrow> string \<Rightarrow> ('m, 'o, 's, 'l) state \<Rightarrow> ('m, 'o, 's, 'l) state" where
  "evaluate ext report_name s =
     (if eval_on (args s) = ''dev'' then run_eval ext report_name (emit (GetEvalExamples ''dev'') s)
      else if eval_on (args s) = ''test''
        then run_eval ext report_name (emit (GetEvalExamples ''test'') s)
      else raise_error (ValueError EvalSplitUnknown) s)"

text \<open>
  The guard of lines 352 and 438:
  \<open>args.local_rank == -1 or torch.distributed.get_rank() == 0\<close>.
\<close>

definition is_first_worker :: "('m, 'o, 's, 'l, 'x) externals \<Rightarrow> ('m, 'o, 's, 'l) state \<Rightarrow> bool" where
  "is_first_worker ext s = (local_rank (args s) = -1 \<or> dist_rank ext = 0)"

section \<open>The training loop\<close>

text \<open>Lines 337-341.\<close>

definition apply_update ::
  "('m, 'o, 's, 'l, 'x) externals \<Rightarrow> ('m, 'o, 's, 'l) state \<Rightarrow> ('m, 'o, 's, 'l) state" where
  "apply_update ext s =
     (let (m1, o1) = optimizer_step ext (model s) (optimizer s);
          (o2, sc) = scheduler_step ext o1 (scheduler s);
          m2 = zero_grad ext m1
      in (emit ZeroGrad (emit SchedulerStep (emit OptimizerStep s)))\<lparr>
           model := m2, optimizer := o2, scheduler := sc, global_step := global_step s + 1\<rparr>)"

text \<open>Lines 343-350.\<close>

definition current_checkpoint :: "int \<Rightarrow> ('m, 'o, 's, 'l) state \<Rightarrow> ('m, 'o, 's, 'l) checkpoint" where
  "current_checkpoint ep s =
     \<lparr>ckpt_epoch = ep,
      ckpt_model_state_dict = model s,
      ckpt_optimizer_state_dict = optimizer s,
      ckpt_loss = tr_loss s,
      ckpt_scheduler = scheduler s\<rparr>"

definition torch_save :: "int \<Rightarrow> ('m, 'o, 's, 'l) state \<Rightarrow> ('m, 'o, 's, 'l) state" where
  "torch_save ep s =
     write_file PATH (CheckpointFile (current_checkpoint ep s))
       (emit (TorchSave (current_checkpoint ep s)) s)"

text \<open>The body of the loop over the batches, lines 318-419, for batch \<open>step\<close> of epoch \<open>ep\<close>.\<close>

definition train_batch ::
  "('m, 'o, 's, 'l, 'x) externals \<Rightarrow> int \<Rightarrow> nat \<Rightarrow> 'x \<Rightarrow> ('m, 'o, 's, 'l) state
     \<Rightarrow> ('m, 'o, 's, 'l) state" where
  "train_batch ext ep step batch s =
     (let (m, l) = forward_backward ext (model s) batch;
          s1 = (emit (ForwardBackward ep step) s)\<lparr>
                 model := m, tr_loss := loss_add ext (tr_loss s) l,
                 nb_tr_steps := nb_tr_steps s + 1\<rparr>;
          s2 = (if (int step + 1) mod gradient_accumulation_steps (args s1) = 0
                then apply_update ext s1 else s1)
      in andthen (torch_save ep s2)
           (\<lambda>s3. if do_eval (args s3) \<and> eval_every_epoch (args s3) \<and> is_first_worker ext s3
                  then evaluate ext ''eval_results.txt'' s3 else s3))"

text \<open>\<open>for step, batch in enumerate(train_dataloader)\<close> (line 317).\<close>

fun batch_loop ::
  "('m, 'o, 's, 'l, 'x) externals \<Rightarrow> int \<Rightarrow> (nat \<times> 'x) list \<Rightarrow> ('m, 'o, 's, 'l) state
     \<Rightarrow> ('m, 'o, 's, 'l) state" where
  "batch_loop ext ep [] s = s"
| "batch_loop ext ep ((step, batch) # rest) s =
     andthen (train_batch ext ep step batch s) (batch_loop ext ep rest)"

text \<open>One epoch, lines 313-419.\<close>

definition train_epoch ::
  "('m, 'o, 's, 'l, 'x) externals \<Rightarrow> int \<Rightarrow> ('m, 'o, 's, 'l) state \<Rightarrow> ('m, 'o, 's, 'l) state" where
  "train_epoch ext ep s =
     batch_loop ext ep (enumerate 0 (train_batches ext ep))
       (s\<lparr>tr_loss := loss_zero ext, nb_tr_steps := 0\<rparr>)"

text \<open>\<open>for epoch in range(int(start_epoch), int(args.num_train_epochs))\<close> (line 312).\<close>

fun epoch_loop ::
  "('m, 'o, 's, 'l, 'x) externals \<Rightarrow> int list \<Rightarrow> ('m, 'o, 's, 'l) state \<Rightarrow> ('m, 'o, 's, 'l) state" where
  "epoch_loop ext [] s = s"
| "epoch_loop ext (ep # eps) s = andthen (train_epoch ext ep s) (epoch_loop ext eps)"

text \<open>
  Lines 422-429: the model, the tokenizer and \<open>model_config.json\<close> are written to the
  output directory.
\<close>

definition save_pretrained :: "('m, 'o, 's, 'l) state \<Rightarrow> ('m, 'o, 's, 'l) state" where
  "save_pretrained s =
     seq [write_file ''pytorch_model.bin'' (ModelFile (model s)),
          write_file ''config.json'' OtherFile,
          write_file ''tokenizer_config.json'' OtherFile,
          write_file ''model_config.json'' OtherFile]
       (emit SavePretrained s)"

text \<open>
  Lines 433-434: without training, the model is read from the output directory, which
  fails when no model was saved there.
\<close>

definition load_fine_tuned :: "('m, 'o, 's, 'l) state \<Rightarrow> ('m, 'o, 's, 'l) state" where
  "load_fine_tuned s =
     (case files s of
        None \<Rightarrow> raise_error OSError (emit LoadFineTuned s)
      | Some d \<Rightarrow>
         (case map_of d ''pytorch_model.bin'' of
            Some (ModelFile m) \<Rightarrow> (emit LoadFineTuned s)\<lparr>model := m\<rparr>
          | _ \<Rightarrow> raise_error OSError (emit LoadFineTuned s)))"

text \<open>
  Lines 306-310: the sampler and \<open>DataLoader(train_data, sampler=train_sampler,
  batch_size=args.train_batch_size)\<close>, which raises \<open>ValueError\<close> for a batch size that
  is not positive.
\<close>

definition make_train_loader :: "('m, 'o, 's, 'l) state \<Rightarrow> ('m, 'o, 's, 'l) state" where
  "make_train_loader s =
     (if train_batch_size (args s) \<le> 0
      then raise_error (ValueError (BatchSizeNotPositive (train_batch_size (args s)))) s
      else emit (MakeTrainLoader (train_batch_size (args s))) s)"

text \<open>Lines 291-434.\<close>

definition train_or_load ::
  "('m, 'o, 's, 'l, 'x) externals \<Rightarrow> ('m, 'o, 's, 'l) state \<Rightarrow> ('m, 'o, 's, 'l) state" where
  "train_or_load ext s =
     (if do_train (args s)
      then seq [emit ConvertTrainFeatures,
                make_train_loader,
                (\<lambda>s. epoch_loop ext [start_epoch s..num_train_epochs (args s) - 1] s),
                save_pretrained] s
      else load_fine_tuned s)"

text \<open>Lines 438-507.\<close>

definition final_eval ::
  "('m, 'o, 's, 'l, 'x) externals \<Rightarrow> ('m, 'o, 's, 'l) state \<Rightarrow> ('m, 'o, 's, 'l) state" where
  "final_eval ext s =
     (if do_eval (args s) \<and> is_first_worker ext s then evaluate ext ''test_results.txt'' s
      else s)"

section \<open>\<open>main\<close>\<close>

text \<open>
  The state at the entry of \<open>main\<close>. A variable that is not bound yet holds the value of
  its first assignment.
\<close>

definition initial_state ::
  "namespace \<Rightarrow> ('m, 'o, 's, 'l, 'x) externals \<Rightarrow> ('m, 'o, 's, 'l) directory option
     \<Rightarrow> ('m, 'o, 's, 'l) state" where
  "initial_state parsed ext output_dir =
     \<lparr>trace = [], files = output_dir, raised = None, args = parsed,
      model = from_pretrained ext, optimizer = new_optimizer ext,
      scheduler = new_scheduler ext, tr_loss = loss_zero ext,
      global_step = 0, nb_tr_steps = 0, start_epoch = 0\<rparr>"

text \<open>
  \<open>main\<close>, for a parsed command line, the libraries and data, and an output directory.
  The calls into the libraries are taken to return, but for the reading of a checkpoint or
  model file that is missing or of another kind, a \<open>DataLoader\<close> with a batch size that is
  not positive, and a call of \<open>torch.distributed\<close> without a process group. Logging and
  the wrapping of the model for several devices (lines 266-273) do not take part in the
  control flow and are left out; in distributed mode the barriers before have made sure
  that the process group is there for the wrapping and for \<open>get_rank\<close>.
\<close>

definition main ::
  "namespace \<Rightarrow> ('m, 'o, 's, 'l, 'x) externals \<Rightarrow> ('m, 'o, 's, 'l) directory option
     \<Rightarrow> ('m, 'o, 's, 'l) state" where
  "main parsed ext output_dir =
     seq [setup_device,
          check_accumulation,
          scale_batch_size,
          seed_rngs,
          check_train_or_eval,
          check_output_dir,
          make_output_dir,
          check_task,
          load_pretrained ext,
          prepare_training,
          barriers,
          make_optimizer ext,
          init_fp16 ext,
          load_checkpoint ext,
          train_or_load ext,
          final_eval ext]
       (initial_state parsed ext output_dir)"


section \<open>Reading a trace\<close>

text \<open>The calls of the loop over the batches, but for the evaluation (lines 318-350).\<close>

fun is_loop_event :: "('m, 'o, 's, 'l) event \<Rightarrow> bool" where
  "is_loop_event (ForwardBackward ep step) = True"
| "is_loop_event OptimizerStep = True"
| "is_loop_event SchedulerStep = True"
| "is_loop_event ZeroGrad = True"
| "is_loop_event (TorchSave c) = True"
| "is_loop_event ev = False"

text \<open>The calls of an evaluation (lines 353-419, 439-507).\<close>

fun is_eval_event :: "('m, 'o, 's, 'l) event \<Rightarrow> bool" where
  "is_eval_event (GetEvalExamples split) = True"
| "is_eval_event ConvertEvalFeatures = True"
| "is_eval_event (WriteReport name y_true y_pred) = True"
| "is_eval_event ev = False"

fun is_forward_backward :: "('m, 'o, 's, 'l) event \<Rightarrow> bool" where
  "is_forward_backward (ForwardBackward ep step) = True"
| "is_forward_backward ev = False"

fun is_torch_save :: "('m, 'o, 's, 'l) event \<Rightarrow> bool" where
  "is_torch_save (TorchSave c) = True"
| "is_torch_save ev = False"

fun is_write_report :: "('m, 'o, 's, 'l) event \<Rightarrow> bool" where
  "is_write_report (WriteReport name y_true y_pred) = True"
| "is_write_report ev = False"

text \<open>The calls that choose and initialise the compute device (lines 151-159).\<close>

fun is_device_event :: "('m, 'o, 's, 'l) event \<Rightarrow> bool" where
  "is_device_event SelectDevice = True"
| "is_device_event (SetCudaDevice r) = True"
| "is_device_event InitProcessGroup = True"
| "is_device_event ev = False"

text \<open>
  The calls between the choice of the device and the reading of the checkpoint: seeding,
  the output directory, and the loading of tokenizer, configuration, model and training
  examples (lines 169-264).
\<close>

fun is_setup_event :: "('m, 'o, 's, 'l) event \<Rightarrow> bool" where
  "is_setup_event SeedRNG = True"
| "is_setup_event MakeDirs = True"
| "is_setup_event LoadTokenizer = True"
| "is_setup_event LoadConfig = True"
| "is_setup_event LoadModel = True"
| "is_setup_event GetTrainExamples = True"
| "is_setup_event Barrier = True"
| "is_setup_event AmpInitialize = True"
| "is_setup_event ev = False"

text \<open>The state after lines 151-167, where the batch size has been divided.\<close>

definition startup ::
  "namespace \<Rightarrow> ('m, 'o, 's, 'l, 'x) externals \<Rightarrow> ('m, 'o, 's, 'l) directory option
     \<Rightarrow> ('m, 'o, 's, 'l) state" where
  "startup parsed ext output_dir =
     seq [setup_device, check_accumulation, scale_batch_size]
       (initial_state parsed ext output_dir)"

text \<open>
  \<open>continues P s s'\<close>: from \<open>s\<close> to \<open>s'\<close> the command line is the same and the calls
  made are all of kind \<open>P\<close>.
\<close>

definition continues ::
  "(('m, 'o, 's, 'l) event \<Rightarrow> bool) \<Rightarrow> ('m, 'o, 's, 'l) state \<Rightarrow> ('m, 'o, 's, 'l) state \<Rightarrow> bool" where
  "continues P s s' = (args s' = args s \<and> (\<exists>evs. trace s' = trace s @ evs \<and> list_all P evs))"

text \<open>The calls made from state \<open>s\<close> to a later state \<open>s'\<close>.\<close>

definition new_events :: "('m, 'o, 's, 'l) state \<Rightarrow> ('m, 'o, 's, 'l) state \<Rightarrow> ('m, 'o, 's, 'l) event list" where
  "new_events s s' = drop (length (trace s)) (trace s')"

section \<open>A concrete run\<close>

text \<open>
  Two labels, three training batches per epoch, one evaluation batch of one example, and
  libraries whose states are counters: the optimizer step adds one to the model and to the
  optimizer, the scheduler step adds one to the scheduler, and every batch has loss 1.
\<close>

definition example_externals :: "(nat, nat, nat, nat, unit) externals" where
  "example_externals =
     \<lparr>get_labels = [''O'', ''PERIOD''],
      from_pretrained = 0, new_optimizer = 0, new_scheduler = 0,
      train_batches = (\<lambda>ep. [(), (), ()]),
      forward_backward = (\<lambda>m x. (m, 1)),
      optimizer_step = (\<lambda>m opt. (Suc m, Suc opt)),
      scheduler_step = (\<lambda>opt sch. (opt, Suc sch)),
      zero_grad = (\<lambda>m. m),
      loss_zero = 0, loss_add = (+),
      eval_batches = (\<lambda>split. [((), [[0, 1, 1, 2, 0]])]),
      predict = (\<lambda>m x. [[0, 1, 2, 0, 0]]),
      dist_rank = 0, apex_installed = False\<rparr>"

text \<open>
  \<open>--do_train --do_eval --train_batch_size 32 --gradient_accumulation_steps 2
  --num_train_epochs 1\<close>, on one process.
\<close>

definition example_args :: namespace where
  "example_args =
     \<lparr>task_name = ''punctuation_prediction'', model_type = ''bert'',
      do_train = True, do_eval = True, eval_on = ''test'', eval_every_epoch = False,
      train_batch_size = 32, gradient_accumulation_steps = 2, num_train_epochs = 1,
      local_rank = -1, no_cuda = False, fp16 = False\<rparr>"

text \<open>A checkpoint that a run of epoch 0 has left behind.\<close>

definition example_checkpoint :: "(nat, nat, nat, nat) checkpoint" where
  "example_checkpoint =
     \<lparr>ckpt_epoch = 0, ckpt_model_state_dict = 1, ckpt_optimizer_state_dict = 1,
      ckpt_loss = 3, ckpt_scheduler = 1\<rparr>"

section \<open>The label map and the decoding loop: lemmas\<close>

lemma mk_label_map_fst: "map fst (mk_label_map ls) = map int [1..<Suc (length ls)]"
proof -
  have "map fst (mk_label_map ls) = map (int \<circ> fst) (enumerate 1 ls)"
    by (simp add: mk_label_map_def split_def comp_def)
  also have "\<dots> = map int (map fst (enumerate 1 ls))"
    by (simp only: map_map)
  also have "map fst (enumerate 1 ls) = [1..<Suc (length ls)]"
    by (simp only: map_fst_enumerate) simp
  finally show ?thesis .
qed

lemma label_map_keys_distinct: "distinct (map fst (mk_label_map ls))"
  unfolding mk_label_map_fst by (simp add: distinct_map inj_on_def del: upt_Suc)

lemma dict_len_mk_label_map: "dict_len (mk_label_map ls) = int (length ls)"
  by (simp add: dict_len_def mk_label_map_def)

lemma map_of_enumerate:
  "map_of (map (\<lambda>(i, l). (int i, l)) (enumerate n ls)) k =
     (if int n \<le> k \<and> k < int n + int (length ls) then Some (ls ! (nat k - n)) else None)"
proof (induction ls arbitrary: n)
  case Nil
  then show ?case by simp
next
  case (Cons a ls)
  show ?case
    by (auto simp add: Cons.IH nth_Cons' nat_diff_distrib' split: if_splits)
qed

lemma map_of_mk_label_map:
  "map_of (mk_label_map ls) k =
     (if 1 \<le> k \<and> k \<le> int (length ls) then Some (ls ! (nat k - 1)) else None)"
  unfolding mk_label_map_def map_of_enumerate by auto

lemma decode_row_from:
  assumes "0 < j"
  shows "decode_row lm lg i j ms t1 t2 = Inr (Some (u1, u2)) \<Longrightarrow>
     (\<exists>p. first_pos_from j (dict_len lm) ms = Some p \<and>
          u1 = t1 @ map (\<lambda>m. the (map_of lm m)) (take (p - j) ms) \<and>
          u2 = t2 @ map (\<lambda>k. dict_get lm (lg ! i ! k) ''PAD'') [j..<p] \<and>
          (\<forall>m \<in> set (take (p - j) ms). map_of lm m \<noteq> None) \<and> j \<le> p)"
  using assms
proof (induction ms arbitrary: j t1 t2)
  case Nil
  then show ?case by simp
next
  case (Cons m ms)
  show ?case
  proof (cases "m = dict_len lm")
    case True
    with Cons.prems show ?thesis by simp
  next
    case False
    from Cons.prems False obtain name p where
      nm: "map_of lm m = Some name" and lg: "logits_at lg i j = Inr p" and
      rec: "decode_row lm lg i (Suc j) ms (t1 @ [name]) (t2 @ [dict_get lm p ''PAD'']) = Inr (Some (u1, u2))"
      by (auto simp: dict_index_def split: option.splits sum.splits)
    from lg have p: "p = lg ! i ! j" by (auto simp: logits_at_def split: if_splits)
    from Cons.IH[OF rec] obtain q where
      q: "first_pos_from (Suc j) (dict_len lm) ms = Some q"
         "u1 = (t1 @ [name]) @ map (\<lambda>m. the (map_of lm m)) (take (q - Suc j) ms)"
         "u2 = (t2 @ [dict_get lm p ''PAD'']) @ map (\<lambda>k. dict_get lm (lg ! i ! k) ''PAD'') [Suc j..<q]"
         "\<forall>m \<in> set (take (q - Suc j) ms). map_of lm m \<noteq> None" "Suc j \<le> q"
      by auto
    have tk: "take (q - j) (m # ms) = m # take (q - Suc j) ms"
    proof -
      have "q - j = Suc (q - Suc j)" using q(5) by simp
      then show ?thesis by simp
    qed
    have up: "[j..<q] = j # [Suc j..<q]" using q(5) by (simp add: upt_conv_Cons)
    show ?thesis
      using False q nm p tk up by auto
  qed
qed

lemma first_pos_from_bounds:
  "first_pos_from j v ms = Some p \<Longrightarrow> j \<le> p \<and> p < j + length ms \<and> ms ! (p - j) = v \<and>
     takeWhile (\<lambda>m. m \<noteq> v) ms = take (p - j) ms"
proof (induction ms arbitrary: j)
  case Nil
  then show ?case by simp
next
  case (Cons m ms)
  show ?case
  proof (cases "m = v")
    case True
    with Cons.prems show ?thesis by simp
  next
    case False
    with Cons.prems have r: "first_pos_from (Suc j) v ms = Some p" by simp
    from Cons.IH[OF r] have ih: "Suc j \<le> p" "p < Suc j + length ms" "ms ! (p - Suc j) = v"
      "takeWhile (\<lambda>m. m \<noteq> v) ms = take (p - Suc j) ms" by auto
    have d: "p - j = Suc (p - Suc j)" using ih(1) by simp
    show ?thesis using False ih d by simp
  qed
qed

lemma first_pos_from_None:
  "first_pos_from j v ms = None \<longleftrightarrow> v \<notin> set ms"
  by (induction ms arbitrary: j) auto

lemma decode_row_succeeds:
  assumes "0 < j" "i < length lg" "j + length ms \<le> length (lg ! i)"
    and "\<forall>m \<in> set (takeWhile (\<lambda>m. m \<noteq> dict_len lm) ms). map_of lm m \<noteq> None"
  shows "decode_row lm lg i j ms t1 t2 =
     (case first_pos_from j (dict_len lm) ms of
        None \<Rightarrow> Inr None
      | Some p \<Rightarrow> Inr (Some (t1 @ map (\<lambda>m. the (map_of lm m)) (take (p - j) ms),
                            t2 @ map (\<lambda>k. dict_get lm (lg ! i ! k) ''PAD'') [j..<p])))"
  using assms
proof (induction ms arbitrary: j t1 t2)
  case Nil
  then show ?case by simp
next
  case (Cons m ms)
  show ?case
  proof (cases "m = dict_len lm")
    case True
    then show ?thesis using Cons.prems by simp
  next
    case False
    with Cons.prems obtain name where nm: "map_of lm m = Some name" by auto
    have lg: "logits_at lg i j = Inr (lg ! i ! j)"
      using Cons.prems by (simp add: logits_at_def)
    have ih: "decode_row lm lg i (Suc j) ms (t1 @ [name]) (t2 @ [dict_get lm (lg ! i ! j) ''PAD'']) =
      (case first_pos_from (Suc j) (dict_len lm) ms of
        None \<Rightarrow> Inr None
      | Some p \<Rightarrow> Inr (Some ((t1 @ [name]) @ map (\<lambda>m. the (map_of lm m)) (take (p - Suc j) ms),
                            (t2 @ [dict_get lm (lg ! i ! j) ''PAD'']) @ map (\<lambda>k. dict_get lm (lg ! i ! k) ''PAD'') [Suc j..<p])))"
      using Cons.prems False by (intro Cons.IH) auto
    show ?thesis
    proof (cases "first_pos_from (Suc j) (dict_len lm) ms")
      case None
      then show ?thesis using False nm lg ih Cons.prems(1) by (simp add: dict_index_def)
    next
      case (Some p)
      from first_pos_from_bounds[OF Some] have b: "Suc j \<le> p" by simp
      have d: "p - j = Suc (p - Suc j)" using b by simp
      have up: "[j..<p] = j # [Suc j..<p]" using b by (simp add: upt_conv_Cons)
      show ?thesis using False nm lg ih Some d up Cons.prems(1) by (simp add: dict_index_def)
    qed
  qed
qed

lemma map_take_tl_nth:
  assumes "p \<le> length row" "0 < p"
  shows "map f (take (p - 1) (tl row)) = map (\<lambda>j. f (row ! j)) [1..<p]"
proof (rule nth_equalityI)
  show "length (map f (take (p - 1) (tl row))) = length (map (\<lambda>j. f (row ! j)) [1..<p])"
    using assms by simp
next
  fix k assume "k < length (map f (take (p - 1) (tl row)))"
  then have k: "k < p - 1" "k < length (tl row)" by simp_all
  then show "map f (take (p - 1) (tl row)) ! k = map (\<lambda>j. f (row ! j)) [1..<p] ! k"
    by (simp add: nth_tl)
qed

lemma decode_row_0:
  "decode_row lm lg i 0 row t1 t2 = (if row = [] then Inr None else decode_row lm lg i 1 (tl row) t1 t2)"
  by (cases row) simp_all

lemma decode_row_fails:
  assumes "0 < j" "k < length ms" "\<forall>k' \<le> k. ms ! k' \<noteq> dict_len lm" "map_of lm (ms ! k) = None"
  shows "isl (decode_row lm lg i j ms t1 t2)"
  using assms
proof (induction ms arbitrary: j k t1 t2)
  case Nil
  then show ?case by simp
next
  case (Cons m ms)
  have ne: "m \<noteq> dict_len lm" using Cons.prems(3) by (metis le0 nth_Cons_0)
  show ?case
  proof (cases k)
    case 0
    then show ?thesis using Cons.prems ne by (simp add: dict_index_def)
  next
    case (Suc k')
    have "isl (decode_row lm lg i (Suc j) ms u1 u2)" for u1 u2
    proof (rule Cons.IH[of "Suc j" k'])
      show "0 < Suc j" by simp
      show "k' < length ms" using Cons.prems(2) Suc by simp
      show "\<forall>k''\<le>k'. ms ! k'' \<noteq> dict_len lm"
        using Cons.prems(3) Suc by (metis Suc_le_mono nth_Cons_Suc)
      show "map_of lm (ms ! k') = None" using Cons.prems(4) Suc by simp
    qed
    then show ?thesis using Cons.prems(1) ne
      by (simp split: sum.splits)
  qed
qed

lemma decode_row_KeyError:
  assumes "0 < j" "k < length ms" "\<forall>k' \<le> k. ms ! k' \<noteq> dict_len lm" "map_of lm (ms ! k) = None"
    and "i < length lg" "j + k \<le> length (lg ! i)"
  shows "decode_row lm lg i j ms t1 t2 = Inl KeyError"
  using assms
proof (induction ms arbitrary: j k t1 t2)
  case Nil
  then show ?case by simp
next
  case (Cons m ms)
  have ne: "m \<noteq> dict_len lm" using Cons.prems(3) by (metis le0 nth_Cons_0)
  show ?case
  proof (cases "map_of lm m")
    case None
    then show ?thesis using Cons.prems(1) ne by (simp add: dict_index_def)
  next
    case (Some name)
    then obtain k' where Suc: "k = Suc k'" using Cons.prems(4) by (cases k) auto
    have lg: "logits_at lg i j = Inr (lg ! i ! j)"
      using Cons.prems Suc by (simp add: logits_at_def)
    have "decode_row lm lg i (Suc j) ms u1 u2 = Inl KeyError" for u1 u2
    proof (rule Cons.IH[of "Suc j" k'])
      show "0 < Suc j" by simp
      show "k' < length ms" using Cons.prems(2) Suc by simp
      show "\<forall>k''\<le>k'. ms ! k'' \<noteq> dict_len lm"
        using Cons.prems(3) Suc by (metis Suc_le_mono nth_Cons_Suc)
      show "map_of lm (ms ! k') = None" using Cons.prems(4) Suc by simp
      show "i < length lg" by fact
      show "Suc j + k' \<le> length (lg ! i)" using Cons.prems(6) Suc by simp
    qed
    then show ?thesis using Cons.prems(1) ne Some lg
      by (simp add: dict_index_def)
  qed
qed

lemma logits_at_shape:
  assumes "map length lg' = map length lg"
  shows "isl (logits_at lg' i j) = isl (logits_at lg i j)"
proof -
  have l: "length lg' = length lg" using assms by (metis length_map)
  have "length (lg' ! i) = length (lg ! i)" if "i < length lg"
    using assms that l by (metis nth_map)
  then show ?thesis using l by (auto simp: logits_at_def)
qed

lemma decode_row_pred_irrelevant:
  assumes "map length lg' = map length lg"
  shows "map_sum id (map_option fst) (decode_row lm lg' i j ms t1 t2') =
         map_sum id (map_option fst) (decode_row lm lg i j ms t1 t2)"
proof (induction ms arbitrary: j t1 t2 t2')
  case Nil
  then show ?case by simp
next
  case (Cons m ms)
  have sh: "isl (logits_at lg' i j) = isl (logits_at lg i j)"
    by (rule logits_at_shape[OF assms])
  have e: "logits_at lg' i j = Inl e \<Longrightarrow> e = IndexError" for e lg'
    by (auto simp: logits_at_def split: if_splits)
  show ?case
    using sh Cons.IH
    by (auto split: sum.splits dest: e)
qed

lemma first_pos_len_row: "first_pos v row = Some p \<Longrightarrow> 0 < p \<and> p < length row \<and> row ! p = v \<and> pre_stop v row = take (p - 1) (tl row)"
  unfolding first_pos_def pre_stop_def
  using first_pos_from_bounds[of 1 v "tl row" p]
  by (cases row) (auto simp: nth_Cons')

text \<open>
  Claim C1, as the code has it. For every example of an evaluation batch, the decoding loop
  walks the \<open>label_id\<close> row from position 1 onward and stops, flushing the true and
  predicted names gathered so far, exactly at the first position whose label id equals
  \<open>len(label_map) = len(label_list)\<close>, that is \<open>num_labels - 1\<close>, not \<open>num_labels\<close>.
  Whenever the loop flushes, it does so at that position; and when every id before that
  position is a key of the label map and the predictions cover the row, the loop flushes
  the names of the positions before it, or nothing when no position holds that id.
\<close>

theorem decode_stops_at_len_label_map:
  "(decode_row (mk_label_map label_list) logits i 0 row [] [] = Inr (Some (t1, t2)) \<longrightarrow>
      first_pos (num_labels label_list - 1) row = Some (Suc (length t1)) \<and> length t2 = length t1)
   \<and> ((\<forall>m \<in> set (pre_stop (num_labels label_list - 1) row). 1 \<le> m \<and> m \<le> int (length label_list))
        \<and> i < length logits \<and> length row \<le> length (logits ! i) \<longrightarrow>
      stops_at_first (num_labels label_list - 1) (mk_label_map label_list) logits i row)"
proof (intro conjI impI)
  let ?lm = "mk_label_map label_list"
  have v: "num_labels label_list - 1 = dict_len ?lm"
    by (simp add: num_labels_def dict_len_mk_label_map)
  {
    assume a: "decode_row ?lm logits i 0 row [] [] = Inr (Some (t1, t2))"
    then have ne: "row \<noteq> []" by (auto simp: decode_row_0 split: if_splits)
    with a have "decode_row ?lm logits i 1 (tl row) [] [] = Inr (Some (t1, t2))"
      by (simp add: decode_row_0)
    from decode_row_from[OF _ this] obtain p where
      p: "first_pos_from 1 (dict_len ?lm) (tl row) = Some p" "1 \<le> p"
         "t1 = map (\<lambda>m. the (map_of ?lm m)) (take (p - 1) (tl row))"
         "t2 = map (\<lambda>k. dict_get ?lm (logits ! i ! k) ''PAD'') [1..<p]"
      by auto
    from first_pos_from_bounds[OF p(1)] have "p < 1 + length (tl row)" by simp
    then have "length t1 = p - 1" "length t2 = p - 1" using p by auto
    then show "first_pos (num_labels label_list - 1) row = Some (Suc (length t1))"
      and "length t2 = length t1"
      using p(1,2) v by (simp_all add: first_pos_def)
  }
  assume h: "(\<forall>m \<in> set (pre_stop (num_labels label_list - 1) row). 1 \<le> m \<and> m \<le> int (length label_list))
        \<and> i < length logits \<and> length row \<le> length (logits ! i)"
  show "stops_at_first (num_labels label_list - 1) ?lm logits i row"
  proof (cases "row = []")
    case True
    then show ?thesis by (simp add: stops_at_first_def first_pos_def)
  next
    case False
    have keys: "\<forall>m \<in> set (takeWhile (\<lambda>m. m \<noteq> dict_len ?lm) (tl row)). map_of ?lm m \<noteq> None"
      using h v by (simp add: pre_stop_def map_of_mk_label_map)
    have len: "1 + length (tl row) \<le> length (logits ! i)" using h False by simp
    have r: "decode_row ?lm logits i 1 (tl row) [] [] =
       (case first_pos_from 1 (dict_len ?lm) (tl row) of
          None \<Rightarrow> Inr None
        | Some p \<Rightarrow> Inr (Some ([] @ map (\<lambda>m. the (map_of ?lm m)) (take (p - 1) (tl row)),
                              [] @ map (\<lambda>k. dict_get ?lm (logits ! i ! k) ''PAD'') [1..<p])))"
      using h by (intro decode_row_succeeds keys len) simp_all
    show ?thesis
    proof (cases "first_pos (dict_len ?lm) row")
      case None
      then show ?thesis using r False v by (simp add: stops_at_first_def first_pos_def decode_row_0)
    next
      case (Some p)
      from first_pos_len_row[OF Some] have b: "0 < p" "p \<le> length row" by simp_all
      have "map (\<lambda>m. the (map_of ?lm m)) (take (p - 1) (tl row)) = map (\<lambda>j. the (map_of ?lm (row ! j))) [1..<p]"
        by (rule map_take_tl_nth[OF b(2) b(1)])
      then show ?thesis using r False v Some
        by (simp add: stops_at_first_def first_pos_def decode_row_0)
    qed
  qed
qed

text \<open>
  Two labels, the row \<open>[0, 1, 2, 3, 0]\<close>: the loop stops at position 2, which holds
  \<open>len(label_list) = 2\<close>.
\<close>

theorem decode_stops_at_len_label_map_witness:
  "decode_row (mk_label_map [''O'', ''PERIOD'']) [[0, 1, 2, 3, 0]] 0 0 [0, 1, 2, 3, 0] [] [] = Inr (Some ([''O''], [''O'']))
   \<and> first_pos (num_labels [''O'', ''PERIOD''] - 1) [0, 1, 2, 3, 0] = Some 2
   \<and> (0::nat) < length [[0::int, 1, 2, 3, 0]] \<and> length [0::int, 1, 2, 3, 0] \<le> length ([[0::int, 1, 2, 3, 0]] ! 0)
   \<and> stops_at_first (num_labels [''O'', ''PERIOD''] - 1) (mk_label_map [''O'', ''PERIOD'']) [[0, 1, 2, 3, 0]] 0 [0, 1, 2, 3, 0]"
proof -
  have d: "decode_row (mk_label_map [''O'', ''PERIOD'']) [[0, 1, 2, 3, 0]] 0 0 [0, 1, 2, 3, 0] [] [] = Inr (Some ([''O''], [''O'']))"
    by (simp add: mk_label_map_def dict_len_def dict_index_def dict_get_def logits_at_def)
  have h: "\<forall>m \<in> set (pre_stop (num_labels [''O'', ''PERIOD''] - 1) [0, 1, 2, 3, 0]). 1 \<le> m \<and> m \<le> int (length [''O'', ''PERIOD''])"
    by (simp add: pre_stop_def num_labels_def)
  show ?thesis
    using decode_stops_at_len_label_map[of "[''O'', ''PERIOD'']" "[[0, 1, 2, 3, 0]]" 0 "[0, 1, 2, 3, 0]" "[''O'']" "[''O'']"] d h
    by simp
qed

text \<open>
  Claim C1 as stated, with the stop at the first id equal to \<open>num_labels\<close>, fails on the
  same row: the first position that holds \<open>num_labels = 3\<close> is position 3, and the loop
  has flushed one name, not two.
\<close>

theorem decode_stops_at_num_labels_counterexample:
  "\<not> stops_at_first (num_labels [''O'', ''PERIOD'']) (mk_label_map [''O'', ''PERIOD''])
        [[0, 1, 2, 3, 0]] 0 [0, 1, 2, 3, 0]"
  by (simp add: stops_at_first_def first_pos_def num_labels_def mk_label_map_def dict_len_def
      dict_index_def dict_get_def logits_at_def)

text \<open>
  Claim C8. At every decoded position a predicted id with no entry in the label map is
  decoded to the name \<open>PAD\<close>, and decoding the predicted ids raises nothing: whether
  the loop raises, and which true names it flushes, is the same for any two predictions of
  the same shape.
\<close>

theorem predicted_id_decoding_total:
  "(decode_row label_map logits i 0 row [] [] = Inr (Some (t1, t2)) \<longrightarrow>
      (\<forall>k < length t2. t2 ! k =
         (case map_of label_map (logits ! i ! Suc k) of None \<Rightarrow> ''PAD'' | Some name \<Rightarrow> name)))
   \<and> (map length logits' = map length logits \<longrightarrow>
      map_sum id (map_option fst) (decode_row label_map logits' i 0 row [] []) =
      map_sum id (map_option fst) (decode_row label_map logits i 0 row [] []))"
proof (intro conjI impI allI)
  fix k
  assume a: "decode_row label_map logits i 0 row [] [] = Inr (Some (t1, t2))" and k: "k < length t2"
  from a have "decode_row label_map logits i 1 (tl row) [] [] = Inr (Some (t1, t2))"
    by (auto simp: decode_row_0 split: if_splits)
  from decode_row_from[OF _ this] obtain p where
    "t2 = map (\<lambda>k. dict_get label_map (logits ! i ! k) ''PAD'') [1..<p]"
    by auto
  with k show "t2 ! k =
      (case map_of label_map (logits ! i ! Suc k) of None \<Rightarrow> ''PAD'' | Some name \<Rightarrow> name)"
    by (simp add: dict_get_def)
next
  assume "map length logits' = map length logits"
  then show "map_sum id (map_option fst) (decode_row label_map logits' i 0 row [] []) =
      map_sum id (map_option fst) (decode_row label_map logits i 0 row [] [])"
    by (rule decode_row_pred_irrelevant)
qed

text \<open>A predicted id 7 with two labels is decoded to \<open>PAD\<close>.\<close>

theorem predicted_id_decoding_total_witness:
  "decode_row (mk_label_map [''O'', ''PERIOD'']) [[0, 1, 7, 0, 0]] 0 0 [0, 1, 1, 2, 0] [] [] =
      Inr (Some ([''O'', ''O''], [''O'', ''PAD'']))
   \<and> map_of (mk_label_map [''O'', ''PERIOD'']) ([[0, 1, 7, 0, 0]] ! 0 ! Suc 1) = None
   \<and> [''O'', ''PAD''] ! 1 = ''PAD''
   \<and> map length [[5, 5, 5, 5, 5::int]] = map length [[0, 1, 7, 0, 0::int]]
   \<and> map_sum id (map_option fst)
        (decode_row (mk_label_map [''O'', ''PERIOD'']) [[5, 5, 5, 5, 5]] 0 0 [0, 1, 1, 2, 0] [] []) =
      Inr (Some [''O'', ''O''])"
proof -
  have d: "decode_row (mk_label_map [''O'', ''PERIOD'']) [[0, 1, 7, 0, 0]] 0 0 [0, 1, 1, 2, 0] [] [] =
      Inr (Some ([''O'', ''O''], [''O'', ''PAD'']))"
    by (simp add: mk_label_map_def dict_len_def dict_index_def dict_get_def logits_at_def)
  show ?thesis
    using predicted_id_decoding_total[of "mk_label_map [''O'', ''PERIOD'']" "[[0, 1, 7, 0, 0]]" 0
        "[0, 1, 1, 2, 0]" "[''O'', ''O'']" "[''O'', ''PAD'']" "[[5, 5, 5, 5, 5]]"] d
    by (simp add: mk_label_map_def)
qed

text \<open>
  Claim C10. The true label is looked up with no fallback: when a position \<open>j \<ge> 1\<close>
  that lies before the first position holding \<open>len(label_map)\<close> has a label id that is
  not a key of the label map (not in \<open>1 .. len(label_list)\<close>), decoding the row raises,
  and it raises \<open>KeyError\<close> when the predictions cover the positions before \<open>j\<close>.
\<close>

theorem true_label_lookup_has_no_fallback:
  assumes "1 \<le> j" and "j < length row"
    and "\<forall>k. 1 \<le> k \<and> k \<le> j \<longrightarrow> row ! k \<noteq> dict_len (mk_label_map label_list)"
    and "\<not> (1 \<le> row ! j \<and> row ! j \<le> int (length label_list))"
  shows "isl (decode_row (mk_label_map label_list) logits i 0 row [] []) \<and>
         (i < length logits \<and> j \<le> length (logits ! i) \<longrightarrow>
            decode_row (mk_label_map label_list) logits i 0 row [] [] = Inl KeyError)"
proof -
  let ?lm = "mk_label_map label_list"
  from assms(1,2) obtain m ms where row: "row = m # ms" by (cases row) auto
  obtain k where k: "j = Suc k" using assms(1) by (cases j) auto
  have a: "0 < (1::nat)" by simp
  have b: "k < length ms" using assms(2) row k by simp
  have c: "\<forall>k' \<le> k. ms ! k' \<noteq> dict_len ?lm"
  proof (intro allI impI)
    fix k' assume "k' \<le> k"
    then have "1 \<le> Suc k' \<and> Suc k' \<le> j" using k by simp
    with assms(3) have "row ! Suc k' \<noteq> dict_len ?lm" by blast
    then show "ms ! k' \<noteq> dict_len ?lm" using row by simp
  qed
  have d: "map_of ?lm (ms ! k) = None"
    using assms(4) row k by (simp add: map_of_mk_label_map)
  have r0: "decode_row ?lm logits i 0 row [] [] = decode_row ?lm logits i 1 ms [] []"
    using row by simp
  have "isl (decode_row ?lm logits i 1 ms [] [])"
    by (rule decode_row_fails[OF a b c d])
  moreover have "decode_row ?lm logits i 1 ms [] [] = Inl KeyError"
    if "i < length logits \<and> j \<le> length (logits ! i)"
    using that k by (intro decode_row_KeyError[OF a b c d]) simp_all
  ultimately show ?thesis using r0 by simp
qed

text \<open>With two labels the id 3 at position 2 of \<open>[0, 1, 3, 2, 0]\<close> raises \<open>KeyError\<close>.\<close>

theorem true_label_lookup_has_no_fallback_witness:
  "(1::nat) \<le> 2 \<and> (2::nat) < length [0, 1, 3, 2, 0::int]
   \<and> \<not> (1 \<le> [0, 1, 3, 2, 0::int] ! 2 \<and> [0, 1, 3, 2, 0::int] ! 2 \<le> int (length [''O'', ''PERIOD'']))
   \<and> decode_row (mk_label_map [''O'', ''PERIOD'']) [[1, 1, 1, 1, 1]] 0 0 [0, 1, 3, 2, 0] [] [] = Inl KeyError"
proof -
  have h3: "\<forall>k. 1 \<le> k \<and> k \<le> 2 \<longrightarrow> [0, 1, 3, 2, 0] ! k \<noteq> dict_len (mk_label_map [''O'', ''PERIOD''])"
  proof (intro allI impI)
    fix k :: nat assume "1 \<le> k \<and> k \<le> 2"
    then have "k = 1 \<or> k = 2" by auto
    then show "[0, 1, 3, 2, 0] ! k \<noteq> dict_len (mk_label_map [''O'', ''PERIOD''])"
      by (auto simp: dict_len_def mk_label_map_def)
  qed
  have h4: "\<not> (1 \<le> [0, 1, 3, 2, 0::int] ! 2 \<and> [0, 1, 3, 2, 0::int] ! 2 \<le> int (length [''O'', ''PERIOD'']))"
    by simp
  have h1: "(1::nat) \<le> 2" and h2: "(2::nat) < length [0, 1, 3, 2, 0::int]" by simp_all
  show ?thesis
    using true_label_lookup_has_no_fallback[OF h1 h2 h3 h4, of "[[1, 1, 1, 1, 1]]" 0] h3 h4
    by simp
qed

section \<open>Traces of \<open>main\<close>: lemmas\<close>

lemma emit_fields [simp]:
  "trace (emit e s) = trace s @ [e]" "args (emit e s) = args s" "raised (emit e s) = raised s"
  "files (emit e s) = files s" "model (emit e s) = model s" "optimizer (emit e s) = optimizer s"
  "scheduler (emit e s) = scheduler s" "tr_loss (emit e s) = tr_loss s"
  "global_step (emit e s) = global_step s" "nb_tr_steps (emit e s) = nb_tr_steps s"
  "start_epoch (emit e s) = start_epoch s"
  by (simp_all add: emit_def)

lemma raise_error_fields [simp]:
  "trace (raise_error e s) = trace s" "args (raise_error e s) = args s"
  "raised (raise_error e s) = Some e"
  "files (raise_error e s) = files s" "model (raise_error e s) = model s"
  "optimizer (raise_error e s) = optimizer s"
  "scheduler (raise_error e s) = scheduler s" "tr_loss (raise_error e s) = tr_loss s"
  "global_step (raise_error e s) = global_step s" "nb_tr_steps (raise_error e s) = nb_tr_steps s"
  "start_epoch (raise_error e s) = start_epoch s"
  by (simp_all add: raise_error_def)

lemma continues_refl: "continues P s s"
  by (simp add: continues_def)

lemma continues_trans: "continues P s s' \<Longrightarrow> continues P s' s'' \<Longrightarrow> continues P s s''"
  by (auto simp: continues_def)

lemma continues_mono: "continues P s s' \<Longrightarrow> (\<And>e. P e \<Longrightarrow> Q e) \<Longrightarrow> continues Q s s'"
  by (auto simp: continues_def list_all_iff)

lemma continues_emit: "P e \<Longrightarrow> continues P s (emit e s)"
  by (simp add: continues_def emit_def)

lemma continues_raise: "continues P s (raise_error e s)"
  by (simp add: continues_def raise_error_def)

lemma continues_andthen:
  assumes "continues P s s'" and "\<And>t. args t = args s \<Longrightarrow> continues P t (f t)"
  shows "continues P s (andthen s' f)"
proof (cases "raised s' = None")
  case True
  have "args s' = args s" using assms(1) by (simp add: continues_def)
  then have "continues P s' (f s')" by (rule assms(2))
  with assms(1) have "continues P s (f s')" by (rule continues_trans)
  then show ?thesis using True by (simp add: andthen_def)
next
  case False
  then show ?thesis using assms(1) by (auto simp: andthen_def)
qed

lemma continues_write_file: "continues P s (write_file name content s)"
  by (simp add: continues_def write_file_def raise_error_def split: option.splits)


lemma continues_run_eval:
  assumes "\<And>e. is_eval_event e \<Longrightarrow> P e"
  shows "continues P s (run_eval ext name s)"
proof -
  let ?s1 = "emit ConvertEvalFeatures s"
  have 1: "continues P s ?s1"
    by (rule continues_emit) (simp add: assms)
  have 2: "continues P s (raise_error e ?s1)" for e
    by (rule continues_trans[OF 1 continues_raise])
  have 3: "continues P s (write_file name (ReportFile a b) (emit (WriteReport name a b) ?s1))" for a b
  proof -
    have "continues P ?s1 (emit (WriteReport name a b) ?s1)"
      by (rule continues_emit) (simp add: assms)
    from continues_trans[OF 1 this] show ?thesis
      by (rule continues_trans) (rule continues_write_file)
  qed
  show ?thesis
    unfolding run_eval_def Let_def using 2 3
    by (simp split: sum.split prod.split)
qed

lemma continues_evaluate:
  assumes "\<And>e. is_eval_event e \<Longrightarrow> P e"
  shows "continues P s (evaluate ext name s)"
proof -
  have "continues P s (run_eval ext name (emit (GetEvalExamples sp) s))" for sp
  proof -
    have "continues P s (emit (GetEvalExamples sp) s)"
      by (rule continues_emit) (simp add: assms)
    then show ?thesis
      by (rule continues_trans) (rule continues_run_eval[OF assms])
  qed
  then show ?thesis
    unfolding evaluate_def by (simp add: continues_raise)
qed


lemma continues_update:
  "args s' = args s \<Longrightarrow> trace s' = trace s \<Longrightarrow> continues P s s'"
  by (simp add: continues_def)

lemma continues_apply_update:
  assumes "\<And>e. is_loop_event e \<Longrightarrow> P e"
  shows "continues P s (apply_update ext s)"
proof -
  obtain m1 o1 where 1: "optimizer_step ext (model s) (optimizer s) = (m1, o1)"
    by (cases "optimizer_step ext (model s) (optimizer s)")
  obtain o2 sc where 2: "scheduler_step ext o1 (scheduler s) = (o2, sc)"
    by (cases "scheduler_step ext o1 (scheduler s)")
  let ?t = "emit ZeroGrad (emit SchedulerStep (emit OptimizerStep s))"
  have t: "continues P s ?t"
    by (intro continues_trans[OF continues_emit continues_trans[OF continues_emit continues_emit]])
       (simp_all add: assms)
  have u: "apply_update ext s =
      ?t\<lparr>model := zero_grad ext m1, optimizer := o2, scheduler := sc, global_step := global_step s + 1\<rparr>"
    unfolding apply_update_def by (simp add: Let_def 1 2)
  show ?thesis
    unfolding u by (rule continues_trans[OF t]) (simp add: continues_def)
qed

lemma continues_torch_save:
  assumes "\<And>e. is_loop_event e \<Longrightarrow> P e"
  shows "continues P s (torch_save ep s)"
proof -
  have "continues P s (emit (TorchSave (current_checkpoint ep s)) s)"
    by (rule continues_emit) (simp add: assms)
  then show ?thesis
    unfolding torch_save_def by (rule continues_trans) (rule continues_write_file)
qed

lemma train_batch_unfold:
  assumes fb: "forward_backward ext (model s) batch = (m, l)"
  shows "train_batch ext ep step batch s =
     andthen (torch_save ep
        (if (int step + 1) mod gradient_accumulation_steps (args s) = 0
         then apply_update ext ((emit (ForwardBackward ep step) s)\<lparr>
                 model := m, tr_loss := loss_add ext (tr_loss s) l,
                 nb_tr_steps := nb_tr_steps s + 1\<rparr>)
         else (emit (ForwardBackward ep step) s)\<lparr>
                 model := m, tr_loss := loss_add ext (tr_loss s) l,
                 nb_tr_steps := nb_tr_steps s + 1\<rparr>))
       (\<lambda>s3. if do_eval (args s3) \<and> eval_every_epoch (args s3) \<and> is_first_worker ext s3
              then evaluate ext ''eval_results.txt'' s3 else s3)"
  unfolding train_batch_def by (simp add: Let_def fb)

lemma continues_train_batch:
  assumes loop: "\<And>e. is_loop_event e \<Longrightarrow> P e"
    and ev: "\<And>e. do_eval (args s) \<Longrightarrow> eval_every_epoch (args s) \<Longrightarrow> is_first_worker ext s \<Longrightarrow>
               is_eval_event e \<Longrightarrow> P e"
  shows "continues P s (train_batch ext ep step batch s)"
proof -
  obtain m l where fb: "forward_backward ext (model s) batch = (m, l)"
    by (cases "forward_backward ext (model s) batch")
  define s1 where "s1 = (emit (ForwardBackward ep step) s)\<lparr>
                 model := m, tr_loss := loss_add ext (tr_loss s) l,
                 nb_tr_steps := nb_tr_steps s + 1\<rparr>"
  define s2 where "s2 = (if (int step + 1) mod gradient_accumulation_steps (args s) = 0
                then apply_update ext s1 else s1)"
  have c1: "continues P s s1"
    unfolding s1_def by (simp add: continues_def loop)
  have c2: "continues P s1 s2"
    unfolding s2_def by (simp add: continues_refl continues_apply_update loop)
  have c3: "continues P s2 (torch_save ep s2)"
    by (rule continues_torch_save[OF loop])
  have c: "continues P s (torch_save ep s2)"
    by (rule continues_trans[OF continues_trans[OF c1 c2] c3])
  have tb: "train_batch ext ep step batch s = andthen (torch_save ep s2)
           (\<lambda>s3. if do_eval (args s3) \<and> eval_every_epoch (args s3) \<and> is_first_worker ext s3
                  then evaluate ext ''eval_results.txt'' s3 else s3)"
    unfolding train_batch_unfold[OF fb] s1_def s2_def by simp
  show ?thesis
    unfolding tb
  proof (rule continues_andthen[OF c])
    fix t :: "('a, 'b, 'c, 'd) state" assume a: "args t = args s"
    show "continues P t (if do_eval (args t) \<and> eval_every_epoch (args t) \<and> is_first_worker ext t
                  then evaluate ext ''eval_results.txt'' t else t)"
    proof (cases "do_eval (args t) \<and> eval_every_epoch (args t) \<and> is_first_worker ext t")
      case True
      then have "\<And>e. is_eval_event e \<Longrightarrow> P e"
        using a ev by (simp add: is_first_worker_def)
      then show ?thesis using True by (simp add: continues_evaluate)
    next
      case False
      then show ?thesis by (auto simp: continues_refl)
    qed
  qed
qed

lemma continues_batch_loop:
  assumes loop: "\<And>e. is_loop_event e \<Longrightarrow> P e"
    and ev: "\<And>e. do_eval (args s) \<Longrightarrow> eval_every_epoch (args s) \<Longrightarrow> is_first_worker ext s \<Longrightarrow>
               is_eval_event e \<Longrightarrow> P e"
  shows "continues P s (batch_loop ext ep bs s)"
  using ev
proof (induction bs arbitrary: s)
  case Nil
  then show ?case by (simp add: continues_refl)
next
  case (Cons b bs)
  obtain step batch where b: "b = (step, batch)" by (cases b)
  have 1: "continues P s (train_batch ext ep step batch s)"
    by (rule continues_train_batch[OF loop Cons.prems])
  show ?case
    unfolding b batch_loop.simps
  proof (rule continues_andthen[OF 1])
    fix t :: "('a, 'b, 'c, 'd) state" assume a: "args t = args s"
    show "continues P t (batch_loop ext ep bs t)"
    proof (rule Cons.IH)
      fix e :: "('a, 'b, 'c, 'd) event" assume "do_eval (args t)" "eval_every_epoch (args t)" "is_first_worker ext t" "is_eval_event e"
      then show "P e" using a Cons.prems[of e] by (simp add: is_first_worker_def)
    qed
  qed
qed

lemma continues_train_epoch:
  assumes loop: "\<And>e. is_loop_event e \<Longrightarrow> P e"
    and ev: "\<And>e. do_eval (args s) \<Longrightarrow> eval_every_epoch (args s) \<Longrightarrow> is_first_worker ext s \<Longrightarrow>
               is_eval_event e \<Longrightarrow> P e"
  shows "continues P s (train_epoch ext ep s)"
proof -
  let ?s0 = "s\<lparr>tr_loss := loss_zero ext, nb_tr_steps := 0\<rparr>"
  have 1: "continues P s ?s0"
    by (simp add: continues_def)
  have 2: "continues P ?s0 (batch_loop ext ep (enumerate 0 (train_batches ext ep)) ?s0)"
  proof (rule continues_batch_loop[OF loop])
    fix e :: "('a, 'b, 'c, 'd) event" assume "do_eval (args ?s0)" "eval_every_epoch (args ?s0)" "is_first_worker ext ?s0" "is_eval_event e"
    then show "P e" using ev[of e] by (simp add: is_first_worker_def)
  qed
  show ?thesis
    unfolding train_epoch_def by (rule continues_trans[OF 1 2])
qed

lemma continues_epoch_loop:
  assumes loop: "\<And>e. is_loop_event e \<Longrightarrow> P e"
    and ev: "\<And>e. do_eval (args s) \<Longrightarrow> eval_every_epoch (args s) \<Longrightarrow> is_first_worker ext s \<Longrightarrow>
               is_eval_event e \<Longrightarrow> P e"
  shows "continues P s (epoch_loop ext eps s)"
  using ev
proof (induction eps arbitrary: s)
  case Nil
  then show ?case by (simp add: continues_refl)
next
  case (Cons ep eps)
  have 1: "continues P s (train_epoch ext ep s)"
    by (rule continues_train_epoch[OF loop Cons.prems])
  show ?case
    unfolding epoch_loop.simps
  proof (rule continues_andthen[OF 1])
    fix t :: "('a, 'b, 'c, 'd) state" assume a: "args t = args s"
    show "continues P t (epoch_loop ext eps t)"
    proof (rule Cons.IH)
      fix e :: "('a, 'b, 'c, 'd) event" assume "do_eval (args t)" "eval_every_epoch (args t)" "is_first_worker ext t" "is_eval_event e"
      then show "P e" using a Cons.prems[of e] by (simp add: is_first_worker_def)
    qed
  qed
qed

lemma continues_seq:
  "(\<And>f t. f \<in> set fs \<Longrightarrow> args t = args s \<Longrightarrow> continues P t (f t)) \<Longrightarrow>
     continues P s s' \<Longrightarrow> continues P s (seq fs s')"
proof (induction fs arbitrary: s')
  case Nil
  then show ?case by (simp add: seq_def)
next
  case (Cons f fs)
  have 1: "continues P s (andthen s' f)"
    by (rule continues_andthen[OF Cons.prems(2)]) (simp add: Cons.prems(1))
  have "continues P s (seq fs (andthen s' f))"
    by (rule Cons.IH[OF _ 1]) (simp add: Cons.prems(1))
  then show ?case by (simp add: seq_def)
qed

lemma continues_save_pretrained:
  assumes "P SavePretrained"
  shows "continues P s (save_pretrained s)"
  unfolding save_pretrained_def
proof (rule continues_seq)
  show "continues P s (emit SavePretrained s)" by (rule continues_emit) (rule assms)
next
  fix f :: "('a, 'b, 'c, 'd) state \<Rightarrow> ('a, 'b, 'c, 'd) state" and t :: "('a, 'b, 'c, 'd) state"
  assume "f \<in> set [write_file ''pytorch_model.bin'' (ModelFile (model s)),
          write_file ''config.json'' OtherFile,
          write_file ''tokenizer_config.json'' OtherFile,
          write_file ''model_config.json'' OtherFile]"
  then show "continues P t (f t)"
    by (auto simp: continues_write_file)
qed

lemma continues_load_fine_tuned:
  assumes "P LoadFineTuned"
  shows "continues P s (load_fine_tuned s)"
proof -
  have 1: "continues P s (emit LoadFineTuned s)" by (rule continues_emit) (rule assms)
  have 2: "continues P s (raise_error OSError (emit LoadFineTuned s))"
    by (rule continues_trans[OF 1 continues_raise])
  have 3: "continues P s ((emit LoadFineTuned s)\<lparr>model := m\<rparr>)" for m
    by (rule continues_trans[OF 1]) (simp add: continues_def)
  show ?thesis
    unfolding load_fine_tuned_def using 2 3
    by (simp split: option.split file_content.split)
qed

lemma seq_Nil [simp]: "seq [] s = s"
  by (simp add: seq_def)

lemma seq_Cons [simp]: "seq (f # fs) s = seq fs (andthen s f)"
  by (simp add: seq_def)

lemma seq_raised: "raised s \<noteq> None \<Longrightarrow> seq fs s = s"
  by (induction fs) (auto simp: andthen_def)

lemma seq_append: "seq (fs @ gs) s = seq gs (seq fs s)"
  by (simp add: seq_def)

lemma main_from_startup:
  "main parsed ext dir =
     seq [seed_rngs, check_train_or_eval, check_output_dir, make_output_dir, check_task,
          load_pretrained ext, prepare_training, barriers, make_optimizer ext,
          init_fp16 ext, load_checkpoint ext, train_or_load ext, final_eval ext]
       (startup parsed ext dir)"
  unfolding main_def startup_def by (simp del: seq_Cons add: seq_append[symmetric])

lemma startup_cases:
  "startup parsed ext dir =
     (if gradient_accumulation_steps parsed < 1
      then raise_error (ValueError (InvalidAccumulationSteps (gradient_accumulation_steps parsed)))
             (setup_device (initial_state parsed ext dir))
      else scale_batch_size (setup_device (initial_state parsed ext dir)))"
  by (simp add: startup_def andthen_def initial_state_def setup_device_def check_accumulation_def)

lemma setup_device_fields [simp]:
  "args (setup_device s) = args s" "raised (setup_device s) = raised s"
  "files (setup_device s) = files s" "start_epoch (setup_device s) = start_epoch s"
  by (simp_all add: setup_device_def)

lemma setup_device_trace:
  "\<exists>evs. trace (setup_device s) = trace s @ evs \<and> list_all is_device_event evs"
  by (simp add: setup_device_def)

lemma scale_batch_size_fields [simp]:
  "trace (scale_batch_size s) = trace s" "raised (scale_batch_size s) = raised s"
  "files (scale_batch_size s) = files s"
  "args (scale_batch_size s) = (args s)\<lparr>train_batch_size :=
          train_batch_size (args s) div gradient_accumulation_steps (args s)\<rparr>"
  by (simp_all add: scale_batch_size_def)

lemma initial_state_fields [simp]:
  "trace (initial_state parsed ext dir) = []" "raised (initial_state parsed ext dir) = None"
  "files (initial_state parsed ext dir) = dir" "args (initial_state parsed ext dir) = parsed"
  by (simp_all add: initial_state_def)

lemma startup_trace:
  "trace (startup parsed ext dir) = trace (setup_device (initial_state parsed ext dir))"
  by (simp add: startup_cases)

lemma startup_device_events: "list_all is_device_event (trace (startup parsed ext dir))"
  using setup_device_trace[of "initial_state parsed ext dir"]
  by (auto simp: startup_trace)


lemma startup_flags [simp]:
  "do_train (args (startup parsed ext dir)) = do_train parsed"
  "do_eval (args (startup parsed ext dir)) = do_eval parsed"
  "local_rank (args (startup parsed ext dir)) = local_rank parsed"
  "eval_every_epoch (args (startup parsed ext dir)) = eval_every_epoch parsed"
  by (simp_all add: startup_cases)

text \<open>The statements between the batch size and the checkpoint.\<close>

lemma continues_seed_rngs: "P SeedRNG \<Longrightarrow> continues P s (seed_rngs s)"
  unfolding seed_rngs_def by (rule continues_emit)

lemma continues_check_train_or_eval: "continues P s (check_train_or_eval s)"
  by (simp add: check_train_or_eval_def continues_raise continues_refl)

lemma continues_check_output_dir: "continues P s (check_output_dir s)"
  by (simp add: check_output_dir_def continues_raise continues_refl split: option.split)

lemma continues_make_output_dir: "P MakeDirs \<Longrightarrow> continues P s (make_output_dir s)"
  by (simp add: make_output_dir_def continues_def emit_def split: option.split)

lemma continues_check_task: "continues P s (check_task s)"
  by (simp add: check_task_def continues_raise continues_refl)

lemma continues_load_pretrained:
  "P LoadTokenizer \<Longrightarrow> P LoadConfig \<Longrightarrow> P LoadModel \<Longrightarrow> continues P s (load_pretrained ext s)"
  by (simp add: load_pretrained_def continues_def emit_def raise_error_def)

lemma continues_needs_process_group: "continues P s (needs_process_group s)"
  by (simp add: needs_process_group_def continues_raise continues_refl)

lemma continues_prepare_training: "P GetTrainExamples \<Longrightarrow> continues P s (prepare_training s)"
  by (simp add: prepare_training_def needs_process_group_def continues_def emit_def
      raise_error_def)

lemma continues_barrier: "P Barrier \<Longrightarrow> continues P s (barrier s)"
  unfolding barrier_def
  by (rule continues_andthen[OF continues_needs_process_group]) (rule continues_emit)

lemma continues_barriers:
  assumes "P Barrier"
  shows "continues P s (barriers s)"
proof -
  have "continues P s (if local_rank (args s) \<notin> {-1, 0} then barrier s else s)"
    by (simp add: continues_barrier assms continues_refl)
  then show ?thesis
    unfolding barriers_def
    by (rule continues_andthen) (simp add: continues_barrier assms continues_refl)
qed

lemma continues_init_fp16: "P AmpInitialize \<Longrightarrow> continues P s (init_fp16 ext s)"
  by (simp add: init_fp16_def continues_emit continues_raise continues_refl)

lemma continues_make_train_loader:
  "P (MakeTrainLoader (train_batch_size (args s))) \<Longrightarrow> continues P s (make_train_loader s)"
  by (simp add: make_train_loader_def continues_emit continues_raise)

lemma continues_make_optimizer: "continues P s (make_optimizer ext s)"
  by (simp add: make_optimizer_def continues_def)

lemma continues_load_checkpoint: "P TorchLoad \<Longrightarrow> continues P s (load_checkpoint ext s)"
  by (simp add: load_checkpoint_def continues_def emit_def raise_error_def Let_def
      split: option.split file_content.split)

lemma continues_train_or_load:
  assumes "P ConvertTrainFeatures" and "P (MakeTrainLoader (train_batch_size (args s)))"
    and "P SavePretrained" and "P LoadFineTuned"
    and loop: "\<And>e. is_loop_event e \<Longrightarrow> P e"
    and ev: "\<And>e. do_eval (args s) \<Longrightarrow> eval_every_epoch (args s) \<Longrightarrow> is_first_worker ext s \<Longrightarrow>
               is_eval_event e \<Longrightarrow> P e"
  shows "continues P s (train_or_load ext s)"
proof (cases "do_train (args s)")
  case False
  then show ?thesis
    by (simp add: train_or_load_def continues_load_fine_tuned assms(4))
next
  case True
  have "continues P s
     (seq [emit ConvertTrainFeatures,
           make_train_loader,
           (\<lambda>s. epoch_loop ext [start_epoch s..num_train_epochs (args s) - 1] s),
           save_pretrained] s)"
  proof (rule continues_seq[OF _ continues_refl])
    fix f :: "('a, 'b, 'c, 'd) state \<Rightarrow> ('a, 'b, 'c, 'd) state" and t :: "('a, 'b, 'c, 'd) state"
    assume f: "f \<in> set [emit ConvertTrainFeatures,
           make_train_loader,
           (\<lambda>s. epoch_loop ext [start_epoch s..num_train_epochs (args s) - 1] s),
           save_pretrained]" and a: "args t = args s"
    have ev': "P e" if "do_eval (args t)" "eval_every_epoch (args t)" "is_first_worker ext t"
      "is_eval_event e" for e
      using that a ev[of e] by (simp add: is_first_worker_def)
    have 1: "continues P t (emit ConvertTrainFeatures t)"
      by (rule continues_emit) (rule assms(1))
    have 2: "continues P t (make_train_loader t)"
      by (rule continues_make_train_loader) (simp add: a assms(2))
    have 3: "continues P t (epoch_loop ext [start_epoch t..num_train_epochs (args t) - 1] t)"
      by (rule continues_epoch_loop[OF loop ev'])
    have 4: "continues P t (save_pretrained t)"
      by (rule continues_save_pretrained) (rule assms(3))
    from f 1 2 3 4 show "continues P t (f t)" by auto
  qed
  then show ?thesis using True by (simp only: train_or_load_def if_True)
qed

lemma continues_final_eval:
  assumes "\<And>e. do_eval (args s) \<Longrightarrow> is_first_worker ext s \<Longrightarrow> is_eval_event e \<Longrightarrow> P e"
  shows "continues P s (final_eval ext s)"
proof (cases "do_eval (args s) \<and> is_first_worker ext s")
  case True
  then have "\<And>e. is_eval_event e \<Longrightarrow> P e" using assms by simp
  then show ?thesis using True by (simp add: final_eval_def continues_evaluate)
next
  case False
  then show ?thesis by (auto simp: final_eval_def continues_refl)
qed

text \<open>The statements after the checkpoint has been read.\<close>

lemma continues_after_checkpoint:
  assumes "P ConvertTrainFeatures" and "P (MakeTrainLoader (train_batch_size (args s)))"
    and "P SavePretrained" and "P LoadFineTuned"
    and loop: "\<And>e. is_loop_event e \<Longrightarrow> P e"
    and ev: "\<And>e. do_eval (args s) \<Longrightarrow> is_first_worker ext s \<Longrightarrow> is_eval_event e \<Longrightarrow> P e"
  shows "continues P s (seq [train_or_load ext, final_eval ext] s)"
proof (rule continues_seq[OF _ continues_refl])
  fix f :: "('a, 'b, 'c, 'd) state \<Rightarrow> ('a, 'b, 'c, 'd) state" and t :: "('a, 'b, 'c, 'd) state"
  assume f: "f \<in> set [train_or_load ext, final_eval ext]" and a: "args t = args s"
  have ev': "P e" if "do_eval (args t)" "is_first_worker ext t" "is_eval_event e" for e
    using that a ev[of e] by (simp add: is_first_worker_def)
  have 1: "continues P t (train_or_load ext t)"
    by (rule continues_train_or_load) (simp_all add: a assms(1-4) loop ev')
  have 2: "continues P t (final_eval ext t)"
    by (rule continues_final_eval) (rule ev')
  from f 1 2 show "continues P t (f t)" by auto
qed

text \<open>The statements between the batch size and the checkpoint.\<close>

lemma continues_before_checkpoint:
  assumes "\<And>e. is_setup_event e \<Longrightarrow> P e"
  shows "continues P s
     (seq [seed_rngs, check_train_or_eval, check_output_dir, make_output_dir, check_task,
           load_pretrained ext, prepare_training, barriers, make_optimizer ext, init_fp16 ext] s)"
proof (rule continues_seq[OF _ continues_refl])
  fix f :: "('a, 'b, 'c, 'd) state \<Rightarrow> ('a, 'b, 'c, 'd) state" and t :: "('a, 'b, 'c, 'd) state"
  assume f: "f \<in> set [seed_rngs, check_train_or_eval, check_output_dir, make_output_dir,
      check_task, load_pretrained ext, prepare_training, barriers, make_optimizer ext, init_fp16 ext]"
  have "continues P t (seed_rngs t)" "continues P t (check_train_or_eval t)"
    "continues P t (check_output_dir t)" "continues P t (make_output_dir t)"
    "continues P t (check_task t)" "continues P t (load_pretrained ext t)"
    "continues P t (prepare_training t)" "continues P t (barriers t)"
    "continues P t (make_optimizer ext t)" "continues P t (init_fp16 ext t)"
    by (simp_all add: continues_seed_rngs continues_check_train_or_eval
        continues_check_output_dir continues_make_output_dir continues_check_task
        continues_load_pretrained continues_prepare_training continues_barriers
        continues_make_optimizer continues_init_fp16 assms)
  with f show "continues P t (f t)" by auto
qed

lemma main_split:
  "main parsed ext dir =
     seq [train_or_load ext, final_eval ext]
       (andthen
          (seq [seed_rngs, check_train_or_eval, check_output_dir, make_output_dir, check_task,
                load_pretrained ext, prepare_training, barriers, make_optimizer ext, init_fp16 ext]
             (startup parsed ext dir))
          (load_checkpoint ext))"
  unfolding main_from_startup by (simp only: seq_Cons seq_Nil)

lemma main_continues:
  assumes stp: "\<And>e. is_setup_event e \<Longrightarrow> P e" and "P TorchLoad"
    and "P ConvertTrainFeatures"
    and "P (MakeTrainLoader (train_batch_size (args (startup parsed ext dir))))"
    and "P SavePretrained" and "P LoadFineTuned"
    and loop: "\<And>e. is_loop_event e \<Longrightarrow> P e"
    and ev: "\<And>e. do_eval parsed \<Longrightarrow> local_rank parsed = -1 \<or> dist_rank ext = 0 \<Longrightarrow>
               is_eval_event e \<Longrightarrow> P e"
  shows "continues P (startup parsed ext dir) (main parsed ext dir)"
proof -
  define s where "s = startup parsed ext dir"
  define pre where "pre = seq [seed_rngs, check_train_or_eval, check_output_dir, make_output_dir,
                check_task, load_pretrained ext, prepare_training, barriers, make_optimizer ext, init_fp16 ext] s"
  define mid where "mid = andthen pre (load_checkpoint ext)"
  have 1: "continues P s pre"
    unfolding pre_def by (rule continues_before_checkpoint[OF stp])
  have 2: "continues P s mid"
    unfolding mid_def
    by (rule continues_andthen[OF 1]) (rule continues_load_checkpoint, rule assms(2))
  have a: "args mid = args s" using 2 by (simp add: continues_def)
  have 3: "continues P mid (seq [train_or_load ext, final_eval ext] mid)"
  proof (rule continues_after_checkpoint)
    show "P (MakeTrainLoader (train_batch_size (args mid)))" using a assms(4) by (simp add: s_def)
    show "P e" if "do_eval (args mid)" "is_first_worker ext mid" "is_eval_event e" for e
      using that ev[of e] by (simp add: a is_first_worker_def s_def)
  qed (simp_all add: assms(3,5,6) loop)
  have "main parsed ext dir = seq [train_or_load ext, final_eval ext] mid"
    unfolding main_split mid_def pre_def s_def ..
  then show ?thesis
    using continues_trans[OF 2 3] by (simp only: s_def)
qed

section \<open>The run as a whole\<close>

lemmas run_defs =
  main_def andthen_def initial_state_def
  setup_device_def check_accumulation_def scale_batch_size_def seed_rngs_def
  check_train_or_eval_def check_output_dir_def make_output_dir_def check_task_def
  load_pretrained_def prepare_training_def barriers_def barrier_def needs_process_group_def
  process_group_initialised_def make_optimizer_def init_fp16_def
  load_checkpoint_def train_or_load_def make_train_loader_def final_eval_def emit_def
  raise_error_def
  lower_def lower_char_def processors_def MODEL_CLASSES_def PATH_def
  train_epoch_def train_batch_def apply_update_def torch_save_def current_checkpoint_def
  write_file_def save_pretrained_def load_fine_tuned_def evaluate_def run_eval_def
  is_first_worker_def
  mk_label_map_def dict_len_def dict_index_def dict_get_def logits_at_def
  example_args_def example_externals_def example_checkpoint_def

lemma upto_0_0: "[0..(0::int)] = [0]"
  by (simp add: upto.simps)

lemma upto_1_0: "[1..(0::int)] = []"
  by (simp add: upto.simps)

lemma device_not_setup: "is_device_event e \<Longrightarrow> \<not> is_write_report e \<and> e \<noteq> TorchLoad \<and> \<not> is_loop_event e"
  by (cases e) simp_all

lemma main_trace_from_startup:
  assumes "continues P (startup parsed ext dir) (main parsed ext dir)"
    and "\<And>e. is_device_event e \<Longrightarrow> P e"
  shows "list_all P (trace (main parsed ext dir))"
proof -
  from assms(1) obtain evs where
    "trace (main parsed ext dir) = trace (startup parsed ext dir) @ evs" "list_all P evs"
    by (auto simp: continues_def)
  moreover have "list_all P (trace (startup parsed ext dir))"
    using startup_device_events[of parsed ext dir] assms(2) by (auto simp: list_all_iff)
  ultimately show ?thesis by simp
qed

subsection \<open>Reading the checkpoint\<close>

lemma load_checkpoint_trace:
  "trace (load_checkpoint ext s) = trace s \<or> trace (load_checkpoint ext s) = trace s @ [TorchLoad]"
  by (simp add: load_checkpoint_def Let_def split: option.split file_content.split)

lemma load_checkpoint_reads:
  "files s = Some d \<Longrightarrow> map_of d PATH = Some f \<Longrightarrow>
     trace (load_checkpoint ext s) = trace s @ [TorchLoad]"
  by (simp add: load_checkpoint_def Let_def split: option.split file_content.split)

lemma main_trace_shape:
  "\<exists>before l after.
     trace (main parsed ext dir) = before @ l @ after \<and>
     list_all (\<lambda>e. is_device_event e \<or> is_setup_event e) before \<and>
     (l = [] \<or> l = [TorchLoad]) \<and> TorchLoad \<notin> set after"
proof -
  define s where "s = startup parsed ext dir"
  define pre where "pre = seq [seed_rngs, check_train_or_eval, check_output_dir, make_output_dir,
                check_task, load_pretrained ext, prepare_training, barriers, make_optimizer ext, init_fp16 ext] s"
  define mid where "mid = andthen pre (load_checkpoint ext)"
  have m: "main parsed ext dir = seq [train_or_load ext, final_eval ext] mid"
    unfolding main_split mid_def pre_def s_def ..
  have "continues (\<lambda>e. is_device_event e \<or> is_setup_event e) s pre"
    unfolding pre_def by (rule continues_before_checkpoint) simp
  then obtain e1 where e1: "trace pre = trace s @ e1"
    "list_all (\<lambda>e. is_device_event e \<or> is_setup_event e) e1"
    by (auto simp: continues_def)
  have "list_all (\<lambda>e. is_device_event e \<or> is_setup_event e) (trace s)"
    using startup_device_events[of parsed ext dir] by (auto simp: s_def list_all_iff)
  with e1 have b: "list_all (\<lambda>e. is_device_event e \<or> is_setup_event e) (trace pre)" by simp
  have "\<exists>l. trace mid = trace pre @ l \<and> (l = [] \<or> l = [TorchLoad])"
  proof (cases "raised pre = None")
    case True
    then show ?thesis
      using load_checkpoint_trace[of ext pre] by (auto simp: mid_def andthen_def)
  next
    case False
    then show ?thesis by (auto simp: mid_def andthen_def)
  qed
  then obtain l where l: "trace mid = trace pre @ l" "l = [] \<or> l = [TorchLoad]"
    by blast
  have "continues (\<lambda>e. e \<noteq> TorchLoad) mid (main parsed ext dir)"
    unfolding m by (rule continues_after_checkpoint) auto
  then obtain e3 where e3: "trace (main parsed ext dir) = trace mid @ e3" "TorchLoad \<notin> set e3"
    by (auto simp: continues_def list_all_iff)
  show ?thesis
    using b l e3 by (intro exI[of _ "trace pre"] exI[of _ l] exI[of _ e3]) simp
qed

lemma startup_not_load: "is_device_event e \<or> is_setup_event e \<Longrightarrow> e \<noteq> TorchLoad"
  by (cases e) simp_all

text \<open>
  Claim C2, as the code has it. The checkpoint file is read at most once, and only calls
  that set up the device, the output directory, the model and the data come before the
  read. The read does not look at \<open>do_train\<close> (lines 283-289): an evaluation-only run
  reads the checkpoint when the file exists and the statements before line 283 raise
  nothing, that is, when the configuration checks pass, the process group is there for the
  barrier of a distributed run (\<open>local_rank = -1\<close> or not \<open>no_cuda\<close>), and \<open>apex\<close> is
  installed if \<open>fp16\<close> is asked for.
\<close>

theorem checkpoint_read_at_most_once:
  "length (filter (\<lambda>e. e = TorchLoad) (trace (main parsed ext dir))) \<le> 1
   \<and> (\<forall>pre post. trace (main parsed ext dir) = pre @ TorchLoad # post \<longrightarrow>
         list_all (\<lambda>e. is_device_event e \<or> is_setup_event e) pre)
   \<and> (\<not> do_train parsed \<and> do_eval parsed \<and> 1 \<le> gradient_accumulation_steps parsed \<and>
       lower (task_name parsed) \<in> set processors \<and> model_type parsed \<in> set MODEL_CLASSES \<and>
       (local_rank parsed = -1 \<or> \<not> no_cuda parsed) \<and>
       (\<not> fp16 parsed \<or> apex_installed ext) \<and>
       dir = Some d \<and> map_of d PATH = Some f \<longrightarrow>
         TorchLoad \<in> set (trace (main parsed ext dir)))"
proof (intro conjI allI impI)
  obtain before l after where sh:
    "trace (main parsed ext dir) = before @ l @ after"
    "list_all (\<lambda>e. is_device_event e \<or> is_setup_event e) before"
    "l = [] \<or> l = [TorchLoad]" "TorchLoad \<notin> set after"
    using main_trace_shape[of parsed ext dir] by blast
  have nb: "TorchLoad \<notin> set before"
    using sh(2) startup_not_load by (auto simp: list_all_iff)
  have fb: "filter (\<lambda>e. e = TorchLoad) before = []" "filter (\<lambda>e. e = TorchLoad) after = []"
    using nb sh(4) by (auto simp: filter_empty_conv)
  show "length (filter (\<lambda>e. e = TorchLoad) (trace (main parsed ext dir))) \<le> 1"
    using sh(3) by (auto simp: sh(1) fb)
  show "list_all (\<lambda>e. is_device_event e \<or> is_setup_event e) pre"
    if "trace (main parsed ext dir) = pre @ TorchLoad # post" for pre post
  proof -
    have "TorchLoad \<in> set (trace (main parsed ext dir))"
      unfolding that by simp
    then have "TorchLoad \<in> set l"
      using nb sh(4) by (simp add: sh(1))
    with sh(3) have l: "l = [TorchLoad]" by auto
    with that sh(1) have "pre @ TorchLoad # post = before @ TorchLoad # after" by simp
    moreover have "TorchLoad \<notin> set before" "TorchLoad \<notin> set after" by fact+
    ultimately have "pre = before"
      by (metis append_Cons_eq_iff)
    then show ?thesis using sh(2) by simp
  qed
next
  assume a: "\<not> do_train parsed \<and> do_eval parsed \<and> 1 \<le> gradient_accumulation_steps parsed \<and>
       lower (task_name parsed) \<in> set processors \<and> model_type parsed \<in> set MODEL_CLASSES \<and>
       (local_rank parsed = -1 \<or> \<not> no_cuda parsed) \<and>
       (\<not> fp16 parsed \<or> apex_installed ext) \<and>
       dir = Some d \<and> map_of d PATH = Some f"
  define s where "s = startup parsed ext dir"
  define pre where "pre = seq [seed_rngs, check_train_or_eval, check_output_dir, make_output_dir,
                check_task, load_pretrained ext, prepare_training, barriers, make_optimizer ext, init_fp16 ext] s"
  define mid where "mid = andthen pre (load_checkpoint ext)"
  have m: "main parsed ext dir = seq [train_or_load ext, final_eval ext] mid"
    unfolding main_split mid_def pre_def s_def ..
  have p: "raised pre = None \<and> files pre = Some d"
    using a unfolding pre_def s_def
    by (auto simp: startup_cases andthen_def seed_rngs_def check_train_or_eval_def
        check_output_dir_def make_output_dir_def check_task_def load_pretrained_def
        prepare_training_def barriers_def barrier_def needs_process_group_def
        process_group_initialised_def make_optimizer_def init_fp16_def Let_def)
  then have "trace mid = trace pre @ [TorchLoad]"
    using a by (simp add: mid_def andthen_def load_checkpoint_reads)
  moreover have "continues (\<lambda>e. True) mid (main parsed ext dir)"
    unfolding m by (rule continues_after_checkpoint) auto
  ultimately show "TorchLoad \<in> set (trace (main parsed ext dir))"
    by (auto simp: continues_def)
qed

text \<open>An evaluation-only run over an output directory that holds a checkpoint.\<close>

theorem checkpoint_read_at_most_once_witness:
  "length (filter (\<lambda>e. e = TorchLoad)
      (trace (main (example_args\<lparr>do_train := False\<rparr>) example_externals
         (Some [(PATH, CheckpointFile example_checkpoint), (''pytorch_model.bin'', ModelFile 1)]))))
     \<le> 1
   \<and> TorchLoad \<in> set
      (trace (main (example_args\<lparr>do_train := False\<rparr>) example_externals
         (Some [(PATH, CheckpointFile example_checkpoint), (''pytorch_model.bin'', ModelFile 1)])))"
  using checkpoint_read_at_most_once[of "example_args\<lparr>do_train := False\<rparr>" example_externals
      "Some [(PATH, CheckpointFile example_checkpoint), (''pytorch_model.bin'', ModelFile 1)]"
      "[(PATH, CheckpointFile example_checkpoint), (''pytorch_model.bin'', ModelFile 1)]"
      "CheckpointFile example_checkpoint"]
  by (simp add: example_args_def lower_def lower_char_def processors_def MODEL_CLASSES_def)

text \<open>
  Claim C2 as stated, that an evaluation-only run never reads the checkpoint, fails on
  that run: \<open>torch.load\<close> is its sixth call.
\<close>

theorem evaluation_only_run_reads_checkpoint:
  "\<not> do_train (example_args\<lparr>do_train := False\<rparr>)
   \<and> trace (main (example_args\<lparr>do_train := False\<rparr>) example_externals
         (Some [(PATH, CheckpointFile example_checkpoint), (''pytorch_model.bin'', ModelFile 1)]))
     = [SelectDevice, SeedRNG, LoadTokenizer, LoadConfig, LoadModel, TorchLoad, LoadFineTuned,
        GetEvalExamples ''test'', ConvertEvalFeatures,
        WriteReport ''test_results.txt'' [''O'', ''O''] [''O'', ''PERIOD'']]"
  by (simp add: run_defs)

subsection \<open>Resuming from the checkpoint\<close>

lemma training_with_checkpoint_raises:
  assumes "do_train parsed" and "1 \<le> gradient_accumulation_steps parsed"
    and "dir = Some d" and "map_of d PATH = Some f"
  shows "main parsed ext dir =
     raise_error (ValueError OutputDirNotEmpty)
       (seed_rngs (scale_batch_size (setup_device (initial_state parsed ext dir))))"
proof -
  from assms(4) have "d \<noteq> []" by auto
  then show ?thesis
    using assms(1-3)
    by (simp add: main_from_startup startup_cases andthen_def seq_raised seed_rngs_def
        check_train_or_eval_def check_output_dir_def)
qed

text \<open>
  Claim C3 says that a checkpoint found at process start makes training resume at
  \<open>checkpoint.epoch + 1\<close>. The code reads a checkpoint to that end (lines 283-289), but
  a training run never gets there: a checkpoint in the output directory makes the
  directory non-empty, and line 176 raises before the checkpoint is read or a batch is
  trained.
\<close>

theorem training_never_resumes_from_checkpoint:
  assumes "do_train parsed" and "1 \<le> gradient_accumulation_steps parsed"
    and "dir = Some d" and "map_of d PATH = Some f"
  shows "raised (main parsed ext dir) = Some (ValueError OutputDirNotEmpty)
     \<and> TorchLoad \<notin> set (trace (main parsed ext dir))
     \<and> \<not> list_ex is_forward_backward (trace (main parsed ext dir))"
proof -
  obtain evs where "trace (setup_device (initial_state parsed ext dir)) = evs"
    "list_all is_device_event evs"
    using setup_device_trace[of "initial_state parsed ext dir"] by auto
  moreover have "\<not> is_forward_backward e \<and> e \<noteq> TorchLoad" if "is_device_event e"
    for e :: "('a, 'b, 'c, 'd) event"
    using that by (cases e) simp_all
  ultimately show ?thesis
    unfolding training_with_checkpoint_raises[OF assms]
    by (auto simp: seed_rngs_def list_all_iff list_ex_iff)
qed

text \<open>The concrete training run over an output directory that holds a checkpoint.\<close>

theorem training_never_resumes_from_checkpoint_witness:
  "main example_args example_externals (Some [(PATH, CheckpointFile example_checkpoint)])
     = (initial_state example_args example_externals (Some [(PATH, CheckpointFile example_checkpoint)]))
         \<lparr>trace := [SelectDevice, SeedRNG],
          raised := Some (ValueError OutputDirNotEmpty),
          args := example_args\<lparr>train_batch_size := 16\<rparr>\<rparr>
   \<and> raised (main example_args example_externals (Some [(PATH, CheckpointFile example_checkpoint)]))
       = Some (ValueError OutputDirNotEmpty)"
proof -
  have 1: "main example_args example_externals (Some [(PATH, CheckpointFile example_checkpoint)])
     = (initial_state example_args example_externals (Some [(PATH, CheckpointFile example_checkpoint)]))
         \<lparr>trace := [SelectDevice, SeedRNG],
          raised := Some (ValueError OutputDirNotEmpty),
          args := example_args\<lparr>train_batch_size := 16\<rparr>\<rparr>"
    by (simp add: run_defs)
  have 2: "do_train example_args" "1 \<le> gradient_accumulation_steps example_args"
    "map_of [(PATH, CheckpointFile example_checkpoint)] PATH = Some (CheckpointFile example_checkpoint)"
    by (simp_all add: example_args_def)
  show ?thesis
    using 1 training_never_resumes_from_checkpoint[OF 2(1,2) refl 2(3), of example_externals]
    by simp
qed

subsection \<open>Workers and their files\<close>

lemma train_batch_saves:
  "\<exists>c. TorchSave c \<in> set (trace (train_batch ext ep step batch s))"
proof -
  obtain m l where fb: "forward_backward ext (model s) batch = (m, l)"
    by (cases "forward_backward ext (model s) batch")
  define s2 where "s2 = (if (int step + 1) mod gradient_accumulation_steps (args s) = 0
         then apply_update ext ((emit (ForwardBackward ep step) s)\<lparr>
                 model := m, tr_loss := loss_add ext (tr_loss s) l,
                 nb_tr_steps := nb_tr_steps s + 1\<rparr>)
         else (emit (ForwardBackward ep step) s)\<lparr>
                 model := m, tr_loss := loss_add ext (tr_loss s) l,
                 nb_tr_steps := nb_tr_steps s + 1\<rparr>)"
  define f where "f = (\<lambda>s3. if do_eval (args s3) \<and> eval_every_epoch (args s3) \<and> is_first_worker ext s3
              then evaluate ext ''eval_results.txt'' s3 else s3)"
  have tb: "train_batch ext ep step batch s = andthen (torch_save ep s2) f"
    unfolding train_batch_unfold[OF fb] s2_def f_def ..
  have "continues (\<lambda>e. True) t (f t)" for t
    unfolding f_def by (simp add: continues_refl continues_evaluate)
  then have "continues (\<lambda>e. True) (torch_save ep s2) (andthen (torch_save ep s2) f)"
    by (intro continues_andthen continues_refl)
  then obtain evs where "trace (train_batch ext ep step batch s) = trace (torch_save ep s2) @ evs"
    unfolding tb by (auto simp: continues_def)
  moreover have "TorchSave (current_checkpoint ep s2) \<in> set (trace (torch_save ep s2))"
    by (simp add: torch_save_def write_file_def split: option.split)
  ultimately show ?thesis by auto
qed

text \<open>
  Claim C6, as the code has it. In distributed mode a worker whose rank is not 0 never
  writes an evaluation or test report: the guard of lines 352 and 438 keeps it from every
  evaluation. The checkpoint is not guarded by the rank: the body of the loop over the
  batches (lines 343-350) calls \<open>torch.save\<close> for every worker.
\<close>

theorem only_reports_are_rank_gated:
  "(local_rank parsed \<noteq> -1 \<and> dist_rank ext \<noteq> 0 \<longrightarrow>
      list_all (\<lambda>e. \<not> is_write_report e) (trace (main parsed ext dir)))
   \<and> (\<exists>c. TorchSave c \<in> set (trace (train_batch ext ep step batch s)))"
proof (intro conjI impI)
  assume a: "local_rank parsed \<noteq> -1 \<and> dist_rank ext \<noteq> 0"
  have "continues (\<lambda>e. \<not> is_write_report e) (startup parsed ext dir) (main parsed ext dir)"
  proof (rule main_continues)
    fix e :: "('a, 'b, 'c, 'd) event"
    show "is_setup_event e \<Longrightarrow> \<not> is_write_report e" by (cases e) simp_all
    show "is_loop_event e \<Longrightarrow> \<not> is_write_report e" by (cases e) simp_all
    show "do_eval parsed \<Longrightarrow> local_rank parsed = -1 \<or> dist_rank ext = 0 \<Longrightarrow>
               is_eval_event e \<Longrightarrow> \<not> is_write_report e"
      using a by simp
  qed simp_all
  then show "list_all (\<lambda>e. \<not> is_write_report e) (trace (main parsed ext dir))"
    by (rule main_trace_from_startup) (simp add: device_not_setup)
next
  show "\<exists>c. TorchSave c \<in> set (trace (train_batch ext ep step batch s))"
    by (rule train_batch_saves)
qed

text \<open>
  The worker of rank 1 writes no report in the concrete run, where the single process
  writes one.
\<close>

theorem only_reports_are_rank_gated_witness:
  "list_all (\<lambda>e. \<not> is_write_report e)
     (trace (main (example_args\<lparr>local_rank := 1\<rparr>) (example_externals\<lparr>dist_rank := 1\<rparr>) None))
   \<and> list_ex is_write_report (trace (main example_args example_externals None))"
proof -
  have "list_ex is_write_report (trace (main example_args example_externals None))"
    by (simp add: run_defs upto_0_0)
  then show ?thesis
    using only_reports_are_rank_gated[of "example_args\<lparr>local_rank := 1\<rparr>"
        "example_externals\<lparr>dist_rank := 1\<rparr>" None]
    by (simp add: example_args_def example_externals_def)
qed

text \<open>
  Claim C6 as stated fails: in the concrete run the worker of rank 1 writes the
  checkpoint.
\<close>

theorem rank_one_writes_checkpoint:
  "local_rank (example_args\<lparr>local_rank := 1\<rparr>) \<noteq> -1
   \<and> dist_rank (example_externals\<lparr>dist_rank := 1\<rparr>) \<noteq> 0
   \<and> list_ex is_torch_save
        (trace (main (example_args\<lparr>local_rank := 1\<rparr>) (example_externals\<lparr>dist_rank := 1\<rparr>) None))"
  by (simp add: run_defs upto_0_0)

subsection \<open>The batch size\<close>



text \<open>
  A quotient of 0 does not get as far as the \<open>DataLoader\<close>: line 238 divides by it
  first. A negative one is refused by the \<open>DataLoader\<close>, and no batch is trained.
\<close>

lemma zero_batch_size_raises:
  "raised (main (example_args\<lparr>train_batch_size := 1\<rparr>) example_externals None)
     = Some ZeroDivisionError
   \<and> trace (main (example_args\<lparr>train_batch_size := 1\<rparr>) example_externals None)
     = [SelectDevice, SeedRNG, MakeDirs, LoadTokenizer, LoadConfig, LoadModel, GetTrainExamples]"
  by (simp add: run_defs)

lemma negative_batch_size_raises:
  "raised (main (example_args\<lparr>train_batch_size := -1, gradient_accumulation_steps := 1\<rparr>)
             example_externals None)
     = Some (ValueError (BatchSizeNotPositive (-1)))
   \<and> trace (main (example_args\<lparr>train_batch_size := -1, gradient_accumulation_steps := 1\<rparr>)
             example_externals None)
     = [SelectDevice, SeedRNG, MakeDirs, LoadTokenizer, LoadConfig, LoadModel, GetTrainExamples,
        ConvertTrainFeatures]"
  by (simp add: run_defs)

section \<open>Configuration errors\<close>

lemma seq_step: "raised s = None \<Longrightarrow> seq (f # fs) s = seq fs (f s)"
  by (simp add: andthen_def)

lemma seq_raise_here: "raised s = None \<Longrightarrow> raised (f s) \<noteq> None \<Longrightarrow> seq (f # fs) s = f s"
  by (simp add: andthen_def seq_raised del: seq_Cons) (simp add: seq_raised andthen_def)

lemma main_after_seed:
  assumes "1 \<le> gradient_accumulation_steps parsed"
  shows "main parsed ext dir =
     seq [check_train_or_eval, check_output_dir, make_output_dir, check_task,
          load_pretrained ext, prepare_training, barriers, make_optimizer ext,
          init_fp16 ext, load_checkpoint ext, train_or_load ext, final_eval ext]
       (seed_rngs (scale_batch_size (setup_device (initial_state parsed ext dir))))"
proof -
  have s0: "startup parsed ext dir = scale_batch_size (setup_device (initial_state parsed ext dir))"
    using assms by (simp add: startup_cases)
  have r0: "raised (scale_batch_size (setup_device (initial_state parsed ext dir))) = None"
    by simp
  show ?thesis
    unfolding main_from_startup s0 by (rule seq_step[OF r0])
qed

lemma seeded_fields [simp]:
  "raised (seed_rngs s) = raised s" "args (seed_rngs s) = args s" "files (seed_rngs s) = files s"
  by (simp_all add: seed_rngs_def)

lemma main_no_train_no_eval:
  assumes "1 \<le> gradient_accumulation_steps parsed" "\<not> do_train parsed" "\<not> do_eval parsed"
  shows "main parsed ext dir =
        raise_error (ValueError TrainOrEvalRequired)
          (seed_rngs (scale_batch_size (setup_device (initial_state parsed ext dir))))"
proof -
  let ?s = "seed_rngs (scale_batch_size (setup_device (initial_state parsed ext dir)))"
  have c: "check_train_or_eval ?s = raise_error (ValueError TrainOrEvalRequired) ?s"
    using assms by (simp add: check_train_or_eval_def)
  show ?thesis
    unfolding main_after_seed[OF assms(1)] c[symmetric]
    by (rule seq_raise_here) (simp_all add: c)
qed

lemma main_output_dir_not_empty:
  assumes "1 \<le> gradient_accumulation_steps parsed" "do_train parsed" "dir = Some (entry # entries)"
  shows "main parsed ext dir =
        raise_error (ValueError OutputDirNotEmpty)
          (seed_rngs (scale_batch_size (setup_device (initial_state parsed ext dir))))"
proof -
  let ?s = "seed_rngs (scale_batch_size (setup_device (initial_state parsed ext dir)))"
  let ?rest = "[make_output_dir, check_task,
          load_pretrained ext, prepare_training, barriers, make_optimizer ext,
          init_fp16 ext, load_checkpoint ext, train_or_load ext, final_eval ext]"
  have 1: "check_train_or_eval ?s = ?s"
    using assms by (simp add: check_train_or_eval_def)
  have c: "check_output_dir ?s = raise_error (ValueError OutputDirNotEmpty) ?s"
    using assms by (simp add: check_output_dir_def)
  have "main parsed ext dir = seq (check_output_dir # ?rest) (check_train_or_eval ?s)"
    unfolding main_after_seed[OF assms(1)] by (rule seq_step) simp
  also have "\<dots> = check_output_dir ?s"
    unfolding 1 by (rule seq_raise_here) (simp_all add: c)
  finally show ?thesis by (simp only: c)
qed

lemma main_task_not_found:
  assumes "1 \<le> gradient_accumulation_steps parsed" "do_train parsed \<or> do_eval parsed"
    and "\<not> do_train parsed \<or> dir = None \<or> dir = Some []"
    and "lower (task_name parsed) \<notin> set processors"
  shows "main parsed ext dir =
        raise_error (ValueError (TaskNotFound (lower (task_name parsed))))
          (make_output_dir
             (seed_rngs (scale_batch_size (setup_device (initial_state parsed ext dir)))))"
proof -
  let ?s = "seed_rngs (scale_batch_size (setup_device (initial_state parsed ext dir)))"
  let ?rest = "[load_pretrained ext, prepare_training, barriers, make_optimizer ext,
          init_fp16 ext, load_checkpoint ext, train_or_load ext, final_eval ext]"
  have 1: "check_train_or_eval ?s = ?s"
    using assms by (simp add: check_train_or_eval_def)
  have 2: "check_output_dir ?s = ?s"
    using assms(3) by (auto simp: check_output_dir_def split: option.split)
  have r: "raised (make_output_dir ?s) = None" "args (make_output_dir ?s) = args ?s"
    by (simp_all add: make_output_dir_def split: option.split)
  have c: "check_task (make_output_dir ?s) =
      raise_error (ValueError (TaskNotFound (lower (task_name parsed)))) (make_output_dir ?s)"
    using assms(4) by (simp add: check_task_def r)
  have "main parsed ext dir =
      seq (check_output_dir # make_output_dir # check_task # ?rest) (check_train_or_eval ?s)"
    unfolding main_after_seed[OF assms(1)] by (rule seq_step) simp
  also have "\<dots> = seq (make_output_dir # check_task # ?rest) (check_output_dir ?s)"
    unfolding 1 by (rule seq_step) simp
  also have "\<dots> = seq (check_task # ?rest) (make_output_dir ?s)"
    unfolding 2 by (rule seq_step) simp
  also have "\<dots> = check_task (make_output_dir ?s)"
    by (rule seq_raise_here) (simp_all add: c r)
  finally show ?thesis by (simp only: c)
qed

lemma main_invalid_accumulation:
  assumes a: "gradient_accumulation_steps parsed < 1"
  shows "main parsed ext dir =
        raise_error (ValueError (InvalidAccumulationSteps (gradient_accumulation_steps parsed)))
          (setup_device (initial_state parsed ext dir))"
proof -
  have r: "raised (startup parsed ext dir) \<noteq> None"
    using a by (simp add: startup_cases)
  have "main parsed ext dir = startup parsed ext dir"
    unfolding main_from_startup by (rule seq_raised[OF r])
  then show ?thesis using a by (simp add: startup_cases)
qed

subsection \<open>Where the error for an unknown evaluation split can come from\<close>

lemma seq_invariant:
  assumes step: "\<And>f t. f \<in> set fs \<Longrightarrow> raised t = None \<Longrightarrow> Q t \<Longrightarrow> Q (f t)"
    and init: "Q s"
  shows "Q (seq fs s)"
  using assms
proof (induction fs arbitrary: s)
  case Nil
  then show ?case by simp
next
  case (Cons f fs)
  have 1: "Q (andthen s f)"
    using Cons.prems(1)[of f s] Cons.prems(2) by (simp add: andthen_def)
  have 2: "Q (seq fs (andthen s f))"
  proof (rule Cons.IH[OF _ 1])
    fix g :: "('a, 'b, 'c, 'd) state \<Rightarrow> ('a, 'b, 'c, 'd) state" and t :: "('a, 'b, 'c, 'd) state"
    assume "g \<in> set fs" "raised t = None" "Q t"
    then show "Q (g t)" using Cons.prems(1)[of g t] by simp
  qed
  then show ?case by (simp only: seq_Cons)
qed

lemma continues_trace_subset: "continues P s s' \<Longrightarrow> set (trace s) \<subseteq> set (trace s')"
  by (auto simp: continues_def)

lemma continues_list_ex: "continues P s s' \<Longrightarrow> list_ex R (trace s) \<Longrightarrow> list_ex R (trace s')"
  by (auto simp: continues_def)

lemma setup_phase_not_eval_split:
  assumes f: "f \<in> set [seed_rngs, check_train_or_eval, check_output_dir, make_output_dir,
          check_task, load_pretrained ext, prepare_training, barriers, make_optimizer ext,
          init_fp16 ext, load_checkpoint ext]"
    and t: "raised t = None"
  shows "raised (f t) \<noteq> Some (ValueError EvalSplitUnknown)"
proof -
  have "raised (seed_rngs t) \<noteq> Some (ValueError EvalSplitUnknown)"
    "raised (check_train_or_eval t) \<noteq> Some (ValueError EvalSplitUnknown)"
    "raised (check_output_dir t) \<noteq> Some (ValueError EvalSplitUnknown)"
    "raised (make_output_dir t) \<noteq> Some (ValueError EvalSplitUnknown)"
    "raised (check_task t) \<noteq> Some (ValueError EvalSplitUnknown)"
    "raised (load_pretrained ext t) \<noteq> Some (ValueError EvalSplitUnknown)"
    "raised (prepare_training t) \<noteq> Some (ValueError EvalSplitUnknown)"
    "raised (barriers t) \<noteq> Some (ValueError EvalSplitUnknown)"
    "raised (make_optimizer ext t) \<noteq> Some (ValueError EvalSplitUnknown)"
    "raised (init_fp16 ext t) \<noteq> Some (ValueError EvalSplitUnknown)"
    "raised (load_checkpoint ext t) \<noteq> Some (ValueError EvalSplitUnknown)"
    using t
    by (simp_all add: check_train_or_eval_def check_output_dir_def make_output_dir_def
        check_task_def load_pretrained_def prepare_training_def barriers_def barrier_def
        needs_process_group_def andthen_def make_optimizer_def init_fp16_def
        load_checkpoint_def Let_def split: option.split file_content.split)
  with f show ?thesis by auto
qed

lemma before_training_not_eval_split:
  "raised (seq [seed_rngs, check_train_or_eval, check_output_dir, make_output_dir,
          check_task, load_pretrained ext, prepare_training, barriers, make_optimizer ext,
          init_fp16 ext, load_checkpoint ext] (startup parsed ext dir))
     \<noteq> Some (ValueError EvalSplitUnknown)"
proof (rule seq_invariant[where Q = "\<lambda>t. raised t \<noteq> Some (ValueError EvalSplitUnknown)"])
  show "raised (startup parsed ext dir) \<noteq> Some (ValueError EvalSplitUnknown)"
    by (simp add: startup_cases)
next
  fix f :: "('a, 'b, 'c, 'd) state \<Rightarrow> ('a, 'b, 'c, 'd) state" and t :: "('a, 'b, 'c, 'd) state"
  assume "f \<in> set [seed_rngs, check_train_or_eval, check_output_dir, make_output_dir,
          check_task, load_pretrained ext, prepare_training, barriers, make_optimizer ext,
          init_fp16 ext, load_checkpoint ext]" "raised t = None"
  then show "raised (f t) \<noteq> Some (ValueError EvalSplitUnknown)"
    by (rule setup_phase_not_eval_split)
qed

lemma model_loaded_before_training:
  assumes r: "raised (seq [seed_rngs, check_train_or_eval, check_output_dir, make_output_dir,
          check_task, load_pretrained ext, prepare_training, barriers, make_optimizer ext,
          init_fp16 ext, load_checkpoint ext] s) = None"
  shows "LoadModel \<in> set (trace (seq [seed_rngs, check_train_or_eval, check_output_dir,
          make_output_dir, check_task, load_pretrained ext, prepare_training, barriers,
          make_optimizer ext, init_fp16 ext, load_checkpoint ext] s))"
proof -
  define x0 where "x0 = seq [seed_rngs, check_train_or_eval, check_output_dir, make_output_dir,
          check_task] s"
  define x where "x = andthen x0 (load_pretrained ext)"
  have split: "seq [seed_rngs, check_train_or_eval, check_output_dir, make_output_dir,
          check_task, load_pretrained ext, prepare_training, barriers, make_optimizer ext,
          init_fp16 ext, load_checkpoint ext] s
      = seq [prepare_training, barriers, make_optimizer ext, init_fp16 ext, load_checkpoint ext] x"
    unfolding x_def x0_def by (simp only: seq_Cons seq_Nil)
  have x: "raised x = None \<longrightarrow> LoadModel \<in> set (trace x)"
    unfolding x_def by (auto simp: andthen_def load_pretrained_def)
  have "raised (seq [prepare_training, barriers, make_optimizer ext, init_fp16 ext,
                     load_checkpoint ext] x) = None \<longrightarrow>
        LoadModel \<in> set (trace (seq [prepare_training, barriers, make_optimizer ext,
                     init_fp16 ext, load_checkpoint ext] x))"
  proof (rule seq_invariant[where Q = "\<lambda>t. raised t = None \<longrightarrow> LoadModel \<in> set (trace t)"])
    show "raised x = None \<longrightarrow> LoadModel \<in> set (trace x)" by (rule x)
  next
    fix f :: "('a, 'b, 'c, 'd) state \<Rightarrow> ('a, 'b, 'c, 'd) state" and t :: "('a, 'b, 'c, 'd) state"
    assume f: "f \<in> set [prepare_training, barriers, make_optimizer ext, init_fp16 ext,
                     load_checkpoint ext]"
      and t: "raised t = None" "raised t = None \<longrightarrow> LoadModel \<in> set (trace t)"
    have "continues (\<lambda>e. True) t (prepare_training t)" "continues (\<lambda>e. True) t (barriers t)"
      "continues (\<lambda>e. True) t (make_optimizer ext t)" "continues (\<lambda>e. True) t (init_fp16 ext t)"
      "continues (\<lambda>e. True) t (load_checkpoint ext t)"
      by (simp_all add: continues_prepare_training continues_barriers continues_make_optimizer
          continues_init_fp16 continues_load_checkpoint)
    with f have "continues (\<lambda>e. True) t (f t)" by auto
    then have "set (trace t) \<subseteq> set (trace (f t))" by (rule continues_trace_subset)
    with t show "raised (f t) = None \<longrightarrow> LoadModel \<in> set (trace (f t))" by auto
  qed
  with r show ?thesis unfolding split by simp
qed


lemma train_batch_torch_save: "list_ex is_torch_save (trace (train_batch ext ep step batch s))"
proof -
  obtain c where "TorchSave c \<in> set (trace (train_batch ext ep step batch s))"
    using train_batch_saves[of ext ep step batch s] by blast
  moreover have "is_torch_save (TorchSave c)" by simp
  ultimately show ?thesis unfolding list_ex_iff by blast
qed

lemma batch_loop_torch_save:
  assumes "raised s = None" and "raised (batch_loop ext ep bs s) \<noteq> None"
  shows "list_ex is_torch_save (trace (batch_loop ext ep bs s))"
proof (cases bs)
  case Nil
  then show ?thesis using assms by simp
next
  case (Cons b rest)
  obtain step batch where b: "b = (step, batch)" by (cases b)
  have 1: "continues (\<lambda>e. True) (train_batch ext ep step batch s)
             (andthen (train_batch ext ep step batch s) (batch_loop ext ep rest))"
    by (rule continues_andthen[OF continues_refl]) (simp add: continues_batch_loop)
  show ?thesis
    unfolding Cons b batch_loop.simps
    by (rule continues_list_ex[OF 1]) (rule train_batch_torch_save)
qed

lemma train_epoch_torch_save:
  assumes "raised s = None" and "raised (train_epoch ext ep s) \<noteq> None"
  shows "list_ex is_torch_save (trace (train_epoch ext ep s))"
  unfolding train_epoch_def
  by (rule batch_loop_torch_save) (use assms in \<open>simp_all add: train_epoch_def\<close>)

lemma epoch_loop_torch_save:
  assumes "raised s = None" and "raised (epoch_loop ext eps s) \<noteq> None"
  shows "list_ex is_torch_save (trace (epoch_loop ext eps s))"
  using assms
proof (induction eps arbitrary: s)
  case Nil
  then show ?case by simp
next
  case (Cons ep eps)
  show ?case
  proof (cases "raised (train_epoch ext ep s) = None")
    case True
    then have e: "epoch_loop ext (ep # eps) s = epoch_loop ext eps (train_epoch ext ep s)"
      by (simp add: andthen_def)
    show ?thesis
      unfolding e by (rule Cons.IH[OF True]) (use Cons.prems(2) e in simp)
  next
    case False
    then have e: "epoch_loop ext (ep # eps) s = train_epoch ext ep s"
      by (auto simp: andthen_def)
    show ?thesis
      unfolding e by (rule train_epoch_torch_save[OF Cons.prems(1) False])
  qed
qed

lemma save_pretrained_trace:
  "SavePretrained \<in> set (trace (save_pretrained s))"
proof -
  have "continues (\<lambda>e. True) (emit SavePretrained s) (save_pretrained s)"
    unfolding save_pretrained_def
    by (rule continues_seq[OF _ continues_refl]) (auto simp: continues_write_file)
  then have "set (trace (emit SavePretrained s)) \<subseteq> set (trace (save_pretrained s))"
    by (rule continues_trace_subset)
  then show ?thesis by (auto simp: emit_def)
qed

lemma load_fine_tuned_trace:
  "LoadFineTuned \<in> set (trace (load_fine_tuned s))"
  by (simp add: load_fine_tuned_def emit_def raise_error_def
      split: option.split file_content.split)

lemma train_or_load_eval_split:
  assumes s: "raised s = None"
    and r: "raised (train_or_load ext s) = None
            \<or> raised (train_or_load ext s) = Some (ValueError EvalSplitUnknown)"
  shows "list_ex (\<lambda>e. is_torch_save e \<or> e = SavePretrained \<or> e = LoadFineTuned)
           (trace (train_or_load ext s))"
proof (cases "do_train (args s)")
  case False
  then have "train_or_load ext s = load_fine_tuned s" by (simp add: train_or_load_def)
  then show ?thesis using load_fine_tuned_trace[of s] unfolding list_ex_iff by auto
next
  case True
  define sa where "sa = emit ConvertTrainFeatures s"
  define sb where "sb = make_train_loader sa"
  define sc where "sc = epoch_loop ext [start_epoch sb..num_train_epochs (args sb) - 1] sb"
  have t: "train_or_load ext s =
     seq [make_train_loader,
          (\<lambda>s. epoch_loop ext [start_epoch s..num_train_epochs (args s) - 1] s),
          save_pretrained] sa"
    unfolding sa_def using True s by (simp add: train_or_load_def andthen_def del: seq_Cons)
       (simp add: andthen_def)
  have ra: "raised sa = None" using s by (simp add: sa_def)
  show ?thesis
  proof (cases "raised sb = None")
    case False
    then have "train_or_load ext s = sb"
      unfolding t sb_def by (intro seq_raise_here ra)
    moreover have "raised sb \<noteq> Some (ValueError EvalSplitUnknown)"
      using ra by (simp add: sb_def make_train_loader_def)
    ultimately show ?thesis using r False by simp
  next
    case rb: True
    have t2: "train_or_load ext s =
       seq [(\<lambda>s. epoch_loop ext [start_epoch s..num_train_epochs (args s) - 1] s),
            save_pretrained] sb"
      unfolding t sb_def by (rule seq_step[OF ra])
    show ?thesis
    proof (cases "raised sc = None")
      case True
      have "train_or_load ext s = seq [save_pretrained] sc"
        unfolding t2 sc_def by (rule seq_step[OF rb])
      also have "\<dots> = save_pretrained sc"
        using True by (simp add: andthen_def)
      finally show ?thesis using save_pretrained_trace[of sc] unfolding list_ex_iff by auto
    next
      case False
      have e: "train_or_load ext s = sc"
        unfolding t2
        using seq_raise_here[OF rb, of "\<lambda>s. epoch_loop ext [start_epoch s..num_train_epochs (args s) - 1] s" "[save_pretrained]"] False
        by (simp add: sc_def del: seq_Cons)
      have "list_ex is_torch_save (trace sc)"
        unfolding sc_def by (rule epoch_loop_torch_save[OF rb]) (use False in \<open>simp add: sc_def\<close>)
      then show ?thesis unfolding e list_ex_iff by auto
    qed
  qed
qed

lemma eval_split_error_late:
  assumes r: "raised (main parsed ext dir) = Some (ValueError EvalSplitUnknown)"
  shows "LoadModel \<in> set (trace (main parsed ext dir))
     \<and> list_ex (\<lambda>e. is_torch_save e \<or> e = SavePretrained \<or> e = LoadFineTuned)
         (trace (main parsed ext dir))"
proof -
  define mid where "mid = seq [seed_rngs, check_train_or_eval, check_output_dir, make_output_dir,
          check_task, load_pretrained ext, prepare_training, barriers, make_optimizer ext,
          init_fp16 ext, load_checkpoint ext] (startup parsed ext dir)"
  define r1 where "r1 = train_or_load ext mid"
  have m: "main parsed ext dir = seq [train_or_load ext, final_eval ext] mid"
    unfolding main_from_startup mid_def by (simp only: seq_Cons seq_Nil)
  have not_mid: "raised mid \<noteq> Some (ValueError EvalSplitUnknown)"
    unfolding mid_def by (rule before_training_not_eval_split)
  have rm: "raised mid = None"
  proof (rule ccontr)
    assume "raised mid \<noteq> None"
    then have "main parsed ext dir = mid" unfolding m by (rule seq_raised)
    with r not_mid show False by simp
  qed
  have lm: "LoadModel \<in> set (trace mid)"
    using rm unfolding mid_def by (rule model_loaded_before_training)
  have "continues (\<lambda>e. True) mid (seq [train_or_load ext, final_eval ext] mid)"
    by (rule continues_after_checkpoint) simp_all
  then have "set (trace mid) \<subseteq> set (trace (main parsed ext dir))"
    unfolding m by (rule continues_trace_subset)
  with lm have 1: "LoadModel \<in> set (trace (main parsed ext dir))" by auto
  have m2: "main parsed ext dir = andthen r1 (final_eval ext)"
    unfolding m r1_def using rm by (simp add: andthen_def)
  have 2: "list_ex (\<lambda>e. is_torch_save e \<or> e = SavePretrained \<or> e = LoadFineTuned)
         (trace (main parsed ext dir))"
  proof (cases "raised r1 = None")
    case True
    have w: "list_ex (\<lambda>e. is_torch_save e \<or> e = SavePretrained \<or> e = LoadFineTuned) (trace r1)"
      unfolding r1_def by (rule train_or_load_eval_split[OF rm]) (use True in \<open>simp add: r1_def\<close>)
    have "continues (\<lambda>e. True) r1 (andthen r1 (final_eval ext))"
      by (rule continues_andthen[OF continues_refl]) (simp add: continues_final_eval)
    then show ?thesis unfolding m2 using w by (rule continues_list_ex)
  next
    case False
    then have e: "main parsed ext dir = r1" unfolding m2 by (auto simp: andthen_def)
    show ?thesis
      unfolding e r1_def
      by (rule train_or_load_eval_split[OF rm]) (use r e in \<open>simp add: r1_def\<close>)
  qed
  from 1 2 show ?thesis ..
qed



lemma continues_args: "continues P s s' \<Longrightarrow> args s' = args s"
  by (simp add: continues_def)

lemma decode_row_errors:
  "decode_row label_map logits i j row temp_1 temp_2 = Inl e \<Longrightarrow> e = KeyError \<or> e = IndexError"
  by (induction label_map logits i j row temp_1 temp_2 rule: decode_row.induct)
     (auto simp: dict_index_def logits_at_def split: if_splits option.splits sum.splits)

lemma decode_batch_errors:
  "decode_batch label_map logits i labels acc = Inl e \<Longrightarrow> e = KeyError \<or> e = IndexError"
  by (induction label_map logits i labels acc rule: decode_batch.induct)
     (auto dest: decode_row_errors split: sum.splits option.splits prod.splits)

lemma eval_loop_errors:
  "eval_loop label_map pred batches acc = Inl e \<Longrightarrow> e = KeyError \<or> e = IndexError"
  by (induction label_map pred batches acc rule: eval_loop.induct)
     (auto dest: decode_batch_errors split: sum.splits)

lemma run_eval_not_eval_split:
  assumes "raised s = None"
  shows "raised (run_eval ext name s) \<noteq> Some (ValueError EvalSplitUnknown)"
  using assms
  by (auto simp: run_eval_def Let_def write_file_def dest: eval_loop_errors
      split: sum.splits prod.splits option.splits)

lemma evaluate_eval_split:
  assumes "raised s = None"
    and "raised (evaluate ext name s) = Some (ValueError EvalSplitUnknown)"
  shows "eval_on (args s) \<noteq> ''dev'' \<and> eval_on (args s) \<noteq> ''test''"
  using assms run_eval_not_eval_split[of "emit (GetEvalExamples ''dev'') s" ext name]
    run_eval_not_eval_split[of "emit (GetEvalExamples ''test'') s" ext name]
  by (auto simp: evaluate_def split: if_splits)

lemma train_batch_eval_split:
  assumes s: "raised s = None"
    and r: "raised (train_batch ext ep step batch s) = Some (ValueError EvalSplitUnknown)"
  shows "do_eval (args s) \<and> eval_on (args s) \<noteq> ''dev'' \<and> eval_on (args s) \<noteq> ''test''"
proof -
  obtain m l where fb: "forward_backward ext (model s) batch = (m, l)"
    by (cases "forward_backward ext (model s) batch")
  define s2 where "s2 = (if (int step + 1) mod gradient_accumulation_steps (args s) = 0
         then apply_update ext ((emit (ForwardBackward ep step) s)\<lparr>
                 model := m, tr_loss := loss_add ext (tr_loss s) l,
                 nb_tr_steps := nb_tr_steps s + 1\<rparr>)
         else (emit (ForwardBackward ep step) s)\<lparr>
                 model := m, tr_loss := loss_add ext (tr_loss s) l,
                 nb_tr_steps := nb_tr_steps s + 1\<rparr>)"
  define s3 where "s3 = torch_save ep s2"
  have tb: "train_batch ext ep step batch s = andthen s3
       (\<lambda>s3. if do_eval (args s3) \<and> eval_every_epoch (args s3) \<and> is_first_worker ext s3
              then evaluate ext ''eval_results.txt'' s3 else s3)"
    unfolding train_batch_unfold[OF fb] s2_def s3_def ..
  have 2: "raised s2 = None" "args s2 = args s"
    using s by (simp_all add: s2_def apply_update_def Let_def split: prod.split)
  have 3: "raised s3 = None \<or> raised s3 = Some OSError" "args s3 = args s"
    using 2 by (simp_all add: s3_def torch_save_def write_file_def split: option.split)
  show ?thesis
  proof (cases "raised s3 = None")
    case True
    then have e: "train_batch ext ep step batch s =
        (if do_eval (args s3) \<and> eval_every_epoch (args s3) \<and> is_first_worker ext s3
         then evaluate ext ''eval_results.txt'' s3 else s3)"
      unfolding tb by (simp add: andthen_def)
    show ?thesis
    proof (cases "do_eval (args s3) \<and> eval_every_epoch (args s3) \<and> is_first_worker ext s3")
      case g: True
      then have "raised (evaluate ext ''eval_results.txt'' s3) = Some (ValueError EvalSplitUnknown)"
        using r e by simp
      from evaluate_eval_split[OF True this] g show ?thesis by (simp add: 3)
    next
      case False
      then have "train_batch ext ep step batch s = s3" using e by auto
      then show ?thesis using r True by simp
    qed
  next
    case False
    then have "train_batch ext ep step batch s = s3" unfolding tb by (auto simp: andthen_def)
    then show ?thesis using r 3(1) False by simp
  qed
qed

lemma batch_loop_eval_split:
  assumes "raised s = None"
    and "raised (batch_loop ext ep bs s) = Some (ValueError EvalSplitUnknown)"
  shows "do_eval (args s) \<and> eval_on (args s) \<noteq> ''dev'' \<and> eval_on (args s) \<noteq> ''test''"
  using assms
proof (induction bs arbitrary: s)
  case Nil
  then show ?case by simp
next
  case (Cons b bs)
  obtain step batch where b: "b = (step, batch)" by (cases b)
  define r where "r = train_batch ext ep step batch s"
  have a: "args r = args s"
    unfolding r_def by (rule continues_args[of "\<lambda>e. True"]) (simp add: continues_train_batch)
  show ?case
  proof (cases "raised r = None")
    case True
    then have "batch_loop ext ep (b # bs) s = batch_loop ext ep bs r"
      by (simp add: b r_def andthen_def)
    with Cons.prems(2) have "raised (batch_loop ext ep bs r) = Some (ValueError EvalSplitUnknown)"
      by simp
    from Cons.IH[OF True this] show ?thesis by (simp add: a)
  next
    case False
    then have "batch_loop ext ep (b # bs) s = r"
      by (auto simp: b r_def andthen_def)
    with Cons.prems(2) have "raised r = Some (ValueError EvalSplitUnknown)" by simp
    then show ?thesis unfolding r_def by (rule train_batch_eval_split[OF Cons.prems(1)])
  qed
qed

lemma train_epoch_eval_split:
  assumes "raised s = None"
    and "raised (train_epoch ext ep s) = Some (ValueError EvalSplitUnknown)"
  shows "do_eval (args s) \<and> eval_on (args s) \<noteq> ''dev'' \<and> eval_on (args s) \<noteq> ''test''"
  using batch_loop_eval_split[of "s\<lparr>tr_loss := loss_zero ext, nb_tr_steps := 0\<rparr>" ext ep
      "enumerate 0 (train_batches ext ep)"] assms
  by (simp add: train_epoch_def)

lemma epoch_loop_eval_split:
  assumes "raised s = None"
    and "raised (epoch_loop ext eps s) = Some (ValueError EvalSplitUnknown)"
  shows "do_eval (args s) \<and> eval_on (args s) \<noteq> ''dev'' \<and> eval_on (args s) \<noteq> ''test''"
  using assms
proof (induction eps arbitrary: s)
  case Nil
  then show ?case by simp
next
  case (Cons ep eps)
  define r where "r = train_epoch ext ep s"
  have a: "args r = args s"
    unfolding r_def by (rule continues_args[of "\<lambda>e. True"]) (simp add: continues_train_epoch)
  show ?case
  proof (cases "raised r = None")
    case True
    then have "epoch_loop ext (ep # eps) s = epoch_loop ext eps r"
      by (simp add: r_def andthen_def)
    with Cons.prems(2) have "raised (epoch_loop ext eps r) = Some (ValueError EvalSplitUnknown)"
      by simp
    from Cons.IH[OF True this] show ?thesis by (simp add: a)
  next
    case False
    then have "epoch_loop ext (ep # eps) s = r"
      by (auto simp: r_def andthen_def)
    with Cons.prems(2) have "raised r = Some (ValueError EvalSplitUnknown)" by simp
    then show ?thesis unfolding r_def by (rule train_epoch_eval_split[OF Cons.prems(1)])
  qed
qed

lemma write_file_not_eval_split:
  "raised t = None \<Longrightarrow> raised (write_file name content t) \<noteq> Some (ValueError EvalSplitUnknown)"
  by (simp add: write_file_def split: option.split)

lemma save_pretrained_not_eval_split:
  assumes "raised s = None"
  shows "raised (save_pretrained s) \<noteq> Some (ValueError EvalSplitUnknown)"
  unfolding save_pretrained_def
proof (rule seq_invariant[where Q = "\<lambda>t. raised t \<noteq> Some (ValueError EvalSplitUnknown)"])
  show "raised (emit SavePretrained s) \<noteq> Some (ValueError EvalSplitUnknown)"
    using assms by simp
next
  fix f :: "('a, 'b, 'c, 'd) state \<Rightarrow> ('a, 'b, 'c, 'd) state" and t :: "('a, 'b, 'c, 'd) state"
  assume "f \<in> set [write_file ''pytorch_model.bin'' (ModelFile (model s)),
          write_file ''config.json'' OtherFile,
          write_file ''tokenizer_config.json'' OtherFile,
          write_file ''model_config.json'' OtherFile]" "raised t = None"
  then show "raised (f t) \<noteq> Some (ValueError EvalSplitUnknown)"
    by (auto simp: write_file_not_eval_split)
qed

lemma train_or_load_eval_split_args:
  assumes s: "raised s = None"
    and r: "raised (train_or_load ext s) = Some (ValueError EvalSplitUnknown)"
  shows "do_eval (args s) \<and> eval_on (args s) \<noteq> ''dev'' \<and> eval_on (args s) \<noteq> ''test''"
proof (cases "do_train (args s)")
  case False
  then have "train_or_load ext s = load_fine_tuned s" by (simp add: train_or_load_def)
  moreover have "raised (load_fine_tuned s) \<noteq> Some (ValueError EvalSplitUnknown)"
    using s by (simp add: load_fine_tuned_def split: option.split file_content.split)
  ultimately show ?thesis using r by simp
next
  case True
  define sa where "sa = emit ConvertTrainFeatures s"
  define sb where "sb = make_train_loader sa"
  define sc where "sc = epoch_loop ext [start_epoch sb..num_train_epochs (args sb) - 1] sb"
  have t: "train_or_load ext s =
     seq [make_train_loader,
          (\<lambda>s. epoch_loop ext [start_epoch s..num_train_epochs (args s) - 1] s),
          save_pretrained] sa"
    unfolding sa_def using True s by (simp add: train_or_load_def andthen_def del: seq_Cons)
       (simp add: andthen_def)
  have ra: "raised sa = None" "args sa = args s" using s by (simp_all add: sa_def)
  have ab: "args sb = args s" using ra by (simp add: sb_def make_train_loader_def)
  show ?thesis
  proof (cases "raised sb = None")
    case False
    then have "train_or_load ext s = sb"
      unfolding t sb_def by (intro seq_raise_here ra)
    moreover have "raised sb \<noteq> Some (ValueError EvalSplitUnknown)"
      using ra by (simp add: sb_def make_train_loader_def)
    ultimately show ?thesis using r by simp
  next
    case rb: True
    have t2: "train_or_load ext s =
       seq [(\<lambda>s. epoch_loop ext [start_epoch s..num_train_epochs (args s) - 1] s),
            save_pretrained] sb"
      unfolding t sb_def by (rule seq_step[OF ra(1)])
    show ?thesis
    proof (cases "raised sc = None")
      case True
      have "train_or_load ext s = seq [save_pretrained] sc"
        unfolding t2 sc_def by (rule seq_step[OF rb])
      also have "\<dots> = save_pretrained sc"
        using True by (simp add: andthen_def)
      finally show ?thesis using save_pretrained_not_eval_split[OF True] r by simp
    next
      case False
      have e: "train_or_load ext s = sc"
        unfolding t2
        using seq_raise_here[OF rb, of "\<lambda>s. epoch_loop ext [start_epoch s..num_train_epochs (args s) - 1] s" "[save_pretrained]"] False
        by (simp add: sc_def del: seq_Cons)
      have "raised (epoch_loop ext [start_epoch sb..num_train_epochs (args sb) - 1] sb)
          = Some (ValueError EvalSplitUnknown)"
        using r e by (simp add: sc_def)
      from epoch_loop_eval_split[OF rb this] show ?thesis by (simp add: ab)
    qed
  qed
qed

lemma final_eval_eval_split:
  assumes "raised s = None"
    and "raised (final_eval ext s) = Some (ValueError EvalSplitUnknown)"
  shows "do_eval (args s) \<and> eval_on (args s) \<noteq> ''dev'' \<and> eval_on (args s) \<noteq> ''test''"
  using assms evaluate_eval_split[of s ext "''test_results.txt''"]
  by (auto simp: final_eval_def split: if_splits)

lemma startup_eval_on: "eval_on (args (startup parsed ext dir)) = eval_on parsed"
  by (simp add: startup_cases)

lemma eval_split_error_needs_eval:
  assumes r: "raised (main parsed ext dir) = Some (ValueError EvalSplitUnknown)"
  shows "do_eval parsed \<and> eval_on parsed \<noteq> ''dev'' \<and> eval_on parsed \<noteq> ''test''"
proof -
  define mid where "mid = seq [seed_rngs, check_train_or_eval, check_output_dir, make_output_dir,
          check_task, load_pretrained ext, prepare_training, barriers, make_optimizer ext,
          init_fp16 ext, load_checkpoint ext] (startup parsed ext dir)"
  define r1 where "r1 = train_or_load ext mid"
  have m: "main parsed ext dir = seq [train_or_load ext, final_eval ext] mid"
    unfolding main_from_startup mid_def by (simp only: seq_Cons seq_Nil)
  have "mid = andthen (seq [seed_rngs, check_train_or_eval, check_output_dir, make_output_dir,
          check_task, load_pretrained ext, prepare_training, barriers, make_optimizer ext,
          init_fp16 ext] (startup parsed ext dir)) (load_checkpoint ext)"
    unfolding mid_def by (simp only: seq_Cons seq_Nil)
  moreover have "continues (\<lambda>e. True) (startup parsed ext dir) \<dots>"
    by (rule continues_andthen[OF continues_before_checkpoint])
       (simp_all add: continues_load_checkpoint)
  ultimately have am: "args mid = args (startup parsed ext dir)"
    by (simp add: continues_args)
  have a1: "args r1 = args mid"
    unfolding r1_def by (rule continues_args[of "\<lambda>e. True"]) (simp add: continues_train_or_load)
  have flags: "do_eval (args mid) = do_eval parsed" "eval_on (args mid) = eval_on parsed"
    by (simp_all add: am startup_eval_on)
  show ?thesis
  proof (cases "raised mid = None")
    case False
    then have "main parsed ext dir = mid" unfolding m by (rule seq_raised)
    moreover have "raised mid \<noteq> Some (ValueError EvalSplitUnknown)"
      unfolding mid_def by (rule before_training_not_eval_split)
    ultimately show ?thesis using r by simp
  next
    case rm: True
    have m2: "main parsed ext dir = andthen r1 (final_eval ext)"
      unfolding m r1_def using rm by (simp add: andthen_def)
    show ?thesis
    proof (cases "raised r1 = None")
      case True
      then have "main parsed ext dir = final_eval ext r1" unfolding m2 by (simp add: andthen_def)
      with r have "raised (final_eval ext r1) = Some (ValueError EvalSplitUnknown)" by simp
      from final_eval_eval_split[OF True this] show ?thesis by (simp add: a1 flags)
    next
      case False
      then have "main parsed ext dir = r1" unfolding m2 by (auto simp: andthen_def)
      with r have "raised (train_or_load ext mid) = Some (ValueError EvalSplitUnknown)"
        by (simp add: r1_def)
      from train_or_load_eval_split_args[OF rm this] show ?thesis by (simp add: flags)
    qed
  qed
qed

text \<open>
  Claim C7, as the code has it. The errors for an invalid \<open>gradient_accumulation_steps\<close>,
  for neither training nor evaluation, for a non-empty output directory on training and
  for an unknown task are raised after the compute device has been chosen (and, in
  distributed mode, the process group initialised), and before any model or data is loaded
  and any checkpoint or report file is written; the unknown-task error comes after the
  output directory has been created when it was missing. In each case \<open>main\<close> ends in
  the state named here. The error for an unknown evaluation split is raised where an
  evaluation starts (lines 353-358 and 439-444), not among the checks at the start:
  whenever \<open>main\<close> ends with it, evaluation was asked for with a split that is neither
  \<open>dev\<close> nor \<open>test\<close>, the model has been loaded, and a batch has written the checkpoint,
  or the trained model has been saved to the output directory, or, without training, the
  fine-tuned model has been read from it.
\<close>

theorem early_configuration_errors:
  "(gradient_accumulation_steps parsed < 1 \<longrightarrow>
      main parsed ext dir =
        raise_error (ValueError (InvalidAccumulationSteps (gradient_accumulation_steps parsed)))
          (setup_device (initial_state parsed ext dir)))
   \<and> (1 \<le> gradient_accumulation_steps parsed \<and> \<not> do_train parsed \<and> \<not> do_eval parsed \<longrightarrow>
      main parsed ext dir =
        raise_error (ValueError TrainOrEvalRequired)
          (seed_rngs (scale_batch_size (setup_device (initial_state parsed ext dir)))))
   \<and> (1 \<le> gradient_accumulation_steps parsed \<and> do_train parsed \<and> dir = Some (entry # entries) \<longrightarrow>
      main parsed ext dir =
        raise_error (ValueError OutputDirNotEmpty)
          (seed_rngs (scale_batch_size (setup_device (initial_state parsed ext dir)))))
   \<and> (1 \<le> gradient_accumulation_steps parsed \<and> (do_train parsed \<or> do_eval parsed) \<and>
       (\<not> do_train parsed \<or> dir = None \<or> dir = Some []) \<and>
       lower (task_name parsed) \<notin> set processors \<longrightarrow>
      main parsed ext dir =
        raise_error (ValueError (TaskNotFound (lower (task_name parsed))))
          (make_output_dir
             (seed_rngs (scale_batch_size (setup_device (initial_state parsed ext dir))))))
   \<and> (eval_on (args s) \<noteq> ''dev'' \<and> eval_on (args s) \<noteq> ''test'' \<longrightarrow>
      evaluate ext report_name s = raise_error (ValueError EvalSplitUnknown) s)
   \<and> (raised (main parsed ext dir) = Some (ValueError EvalSplitUnknown) \<longrightarrow>
      do_eval parsed \<and> eval_on parsed \<noteq> ''dev'' \<and> eval_on parsed \<noteq> ''test''
      \<and> LoadModel \<in> set (trace (main parsed ext dir))
      \<and> list_ex (\<lambda>e. is_torch_save e \<or> e = SavePretrained \<or> e = LoadFineTuned)
           (trace (main parsed ext dir)))"
proof -
  have 1: "gradient_accumulation_steps parsed < 1 \<longrightarrow>
      main parsed ext dir =
        raise_error (ValueError (InvalidAccumulationSteps (gradient_accumulation_steps parsed)))
          (setup_device (initial_state parsed ext dir))"
    by (simp add: main_invalid_accumulation)
  have 2: "1 \<le> gradient_accumulation_steps parsed \<and> \<not> do_train parsed \<and> \<not> do_eval parsed \<longrightarrow>
      main parsed ext dir =
        raise_error (ValueError TrainOrEvalRequired)
          (seed_rngs (scale_batch_size (setup_device (initial_state parsed ext dir))))"
    by (simp add: main_no_train_no_eval)
  have 3: "1 \<le> gradient_accumulation_steps parsed \<and> do_train parsed \<and> dir = Some (entry # entries) \<longrightarrow>
      main parsed ext dir =
        raise_error (ValueError OutputDirNotEmpty)
          (seed_rngs (scale_batch_size (setup_device (initial_state parsed ext dir))))"
    by (simp add: main_output_dir_not_empty)
  have 4: "1 \<le> gradient_accumulation_steps parsed \<and> (do_train parsed \<or> do_eval parsed) \<and>
       (\<not> do_train parsed \<or> dir = None \<or> dir = Some []) \<and>
       lower (task_name parsed) \<notin> set processors \<longrightarrow>
      main parsed ext dir =
        raise_error (ValueError (TaskNotFound (lower (task_name parsed))))
          (make_output_dir
             (seed_rngs (scale_batch_size (setup_device (initial_state parsed ext dir)))))"
    by (simp add: main_task_not_found del: seq_Cons)
  have 5: "eval_on (args s) \<noteq> ''dev'' \<and> eval_on (args s) \<noteq> ''test'' \<longrightarrow>
      evaluate ext report_name s = raise_error (ValueError EvalSplitUnknown) s"
    by (simp add: evaluate_def)
  have 6: "raised (main parsed ext dir) = Some (ValueError EvalSplitUnknown) \<longrightarrow>
      do_eval parsed \<and> eval_on parsed \<noteq> ''dev'' \<and> eval_on parsed \<noteq> ''test''
      \<and> LoadModel \<in> set (trace (main parsed ext dir))
      \<and> list_ex (\<lambda>e. is_torch_save e \<or> e = SavePretrained \<or> e = LoadFineTuned)
           (trace (main parsed ext dir))"
  proof
    assume r: "raised (main parsed ext dir) = Some (ValueError EvalSplitUnknown)"
    from eval_split_error_needs_eval[OF r] eval_split_error_late[OF r]
    show "do_eval parsed \<and> eval_on parsed \<noteq> ''dev'' \<and> eval_on parsed \<noteq> ''test''
      \<and> LoadModel \<in> set (trace (main parsed ext dir))
      \<and> list_ex (\<lambda>e. is_torch_save e \<or> e = SavePretrained \<or> e = LoadFineTuned)
           (trace (main parsed ext dir))"
      by simp
  qed
  show ?thesis
    by (intro conjI 1 2 3 4 5 6)
qed

text \<open>
  The four early errors on the concrete command line, and a run with
  \<open>--eval_on validation --num_train_epochs 0\<close>: no batch is trained and no checkpoint
  written, the model is saved, and the evaluation at the end raises.
\<close>

theorem early_configuration_errors_witness:
  "main (example_args\<lparr>gradient_accumulation_steps := 0\<rparr>) example_externals None
     = (initial_state (example_args\<lparr>gradient_accumulation_steps := 0\<rparr>) example_externals None)
         \<lparr>trace := [SelectDevice], raised := Some (ValueError (InvalidAccumulationSteps 0))\<rparr>
   \<and> main (example_args\<lparr>do_train := False, do_eval := False\<rparr>) example_externals None
     = (initial_state (example_args\<lparr>do_train := False, do_eval := False, train_batch_size := 16\<rparr>)
          example_externals None)
         \<lparr>trace := [SelectDevice, SeedRNG], raised := Some (ValueError TrainOrEvalRequired)\<rparr>
   \<and> main example_args example_externals (Some [(''notes.txt'', OtherFile)])
     = (initial_state (example_args\<lparr>train_batch_size := 16\<rparr>) example_externals
          (Some [(''notes.txt'', OtherFile)]))
         \<lparr>trace := [SelectDevice, SeedRNG], raised := Some (ValueError OutputDirNotEmpty)\<rparr>
   \<and> main (example_args\<lparr>task_name := ''NER''\<rparr>) example_externals None
     = (initial_state (example_args\<lparr>task_name := ''NER'', train_batch_size := 16\<rparr>)
          example_externals (Some []))
         \<lparr>trace := [SelectDevice, SeedRNG, MakeDirs],
          raised := Some (ValueError (TaskNotFound ''ner''))\<rparr>
   \<and> raised (main (example_args\<lparr>eval_on := ''validation'', num_train_epochs := 0\<rparr>)
               example_externals None) = Some (ValueError EvalSplitUnknown)
   \<and> LoadModel \<in> set (trace (main (example_args\<lparr>eval_on := ''validation'', num_train_epochs := 0\<rparr>)
               example_externals None))
   \<and> list_ex (\<lambda>e. is_torch_save e \<or> e = SavePretrained \<or> e = LoadFineTuned)
        (trace (main (example_args\<lparr>eval_on := ''validation'', num_train_epochs := 0\<rparr>)
               example_externals None))
   \<and> \<not> list_ex is_torch_save
        (trace (main (example_args\<lparr>eval_on := ''validation'', num_train_epochs := 0\<rparr>)
               example_externals None))"
proof -
  note w1 = early_configuration_errors[of "example_args\<lparr>gradient_accumulation_steps := 0\<rparr>"
      example_externals None, THEN conjunct1]
  note w2 = early_configuration_errors[of "example_args\<lparr>do_train := False, do_eval := False\<rparr>"
      example_externals None, THEN conjunct2, THEN conjunct1]
  note w3 = early_configuration_errors[of example_args example_externals
      "Some [(''notes.txt'', OtherFile)]" "(''notes.txt'', OtherFile)" "[]",
      THEN conjunct2, THEN conjunct2, THEN conjunct1]
  note w4 = early_configuration_errors[of "example_args\<lparr>task_name := ''NER''\<rparr>"
      example_externals None, THEN conjunct2, THEN conjunct2, THEN conjunct2, THEN conjunct1]
  note w6 = early_configuration_errors[of
      "example_args\<lparr>eval_on := ''validation'', num_train_epochs := 0\<rparr>" example_externals None,
      THEN conjunct2, THEN conjunct2, THEN conjunct2, THEN conjunct2, THEN conjunct2]
  have 1: "main (example_args\<lparr>gradient_accumulation_steps := 0\<rparr>) example_externals None =
      raise_error (ValueError (InvalidAccumulationSteps
          (gradient_accumulation_steps (example_args\<lparr>gradient_accumulation_steps := 0\<rparr>))))
        (setup_device (initial_state (example_args\<lparr>gradient_accumulation_steps := 0\<rparr>)
           example_externals None))"
    using w1 by (simp add: example_args_def)
  have 2: "main (example_args\<lparr>do_train := False, do_eval := False\<rparr>) example_externals None =
      raise_error (ValueError TrainOrEvalRequired)
        (seed_rngs (scale_batch_size (setup_device
           (initial_state (example_args\<lparr>do_train := False, do_eval := False\<rparr>)
              example_externals None))))"
    using w2 by (simp add: example_args_def)
  have 3: "main example_args example_externals (Some [(''notes.txt'', OtherFile)]) =
      raise_error (ValueError OutputDirNotEmpty)
        (seed_rngs (scale_batch_size (setup_device
           (initial_state example_args example_externals (Some [(''notes.txt'', OtherFile)])))))"
    using w3 by (simp add: example_args_def)
  have 4: "main (example_args\<lparr>task_name := ''NER''\<rparr>) example_externals None =
      raise_error (ValueError (TaskNotFound (lower (task_name (example_args\<lparr>task_name := ''NER''\<rparr>)))))
        (make_output_dir (seed_rngs (scale_batch_size (setup_device
           (initial_state (example_args\<lparr>task_name := ''NER''\<rparr>) example_externals None)))))"
    using w4 by (simp add: example_args_def lower_def lower_char_def processors_def)
  have t: "trace (main (example_args\<lparr>eval_on := ''validation'', num_train_epochs := 0\<rparr>)
               example_externals None)
      = [SelectDevice, SeedRNG, MakeDirs, LoadTokenizer, LoadConfig, LoadModel, GetTrainExamples,
         ConvertTrainFeatures, MakeTrainLoader 16, SavePretrained]"
    and r: "raised (main (example_args\<lparr>eval_on := ''validation'', num_train_epochs := 0\<rparr>)
               example_externals None) = Some (ValueError EvalSplitUnknown)"
    by (simp_all add: run_defs)
  have 5: "LoadModel \<in> set (trace (main (example_args\<lparr>eval_on := ''validation'', num_train_epochs := 0\<rparr>)
               example_externals None))"
    "list_ex (\<lambda>e. is_torch_save e \<or> e = SavePretrained \<or> e = LoadFineTuned)
        (trace (main (example_args\<lparr>eval_on := ''validation'', num_train_epochs := 0\<rparr>)
               example_externals None))"
    using w6 r by blast+
  have 7: "\<not> list_ex is_torch_save
        (trace (main (example_args\<lparr>eval_on := ''validation'', num_train_epochs := 0\<rparr>)
               example_externals None))"
    unfolding t by simp
  have 8: "raise_error (ValueError (InvalidAccumulationSteps
          (gradient_accumulation_steps (example_args\<lparr>gradient_accumulation_steps := 0\<rparr>))))
        (setup_device (initial_state (example_args\<lparr>gradient_accumulation_steps := 0\<rparr>)
           example_externals None))
     = (initial_state (example_args\<lparr>gradient_accumulation_steps := 0\<rparr>) example_externals None)
         \<lparr>trace := [SelectDevice], raised := Some (ValueError (InvalidAccumulationSteps 0))\<rparr>"
    "raise_error (ValueError TrainOrEvalRequired)
        (seed_rngs (scale_batch_size (setup_device
           (initial_state (example_args\<lparr>do_train := False, do_eval := False\<rparr>)
              example_externals None))))
     = (initial_state (example_args\<lparr>do_train := False, do_eval := False, train_batch_size := 16\<rparr>)
          example_externals None)
         \<lparr>trace := [SelectDevice, SeedRNG], raised := Some (ValueError TrainOrEvalRequired)\<rparr>"
    "raise_error (ValueError OutputDirNotEmpty)
        (seed_rngs (scale_batch_size (setup_device
           (initial_state example_args example_externals (Some [(''notes.txt'', OtherFile)])))))
     = (initial_state (example_args\<lparr>train_batch_size := 16\<rparr>) example_externals
          (Some [(''notes.txt'', OtherFile)]))
         \<lparr>trace := [SelectDevice, SeedRNG], raised := Some (ValueError OutputDirNotEmpty)\<rparr>"
    "raise_error (ValueError (TaskNotFound (lower (task_name (example_args\<lparr>task_name := ''NER''\<rparr>)))))
        (make_output_dir (seed_rngs (scale_batch_size (setup_device
           (initial_state (example_args\<lparr>task_name := ''NER''\<rparr>) example_externals None)))))
     = (initial_state (example_args\<lparr>task_name := ''NER'', train_batch_size := 16\<rparr>)
          example_externals (Some []))
         \<lparr>trace := [SelectDevice, SeedRNG, MakeDirs],
          raised := Some (ValueError (TaskNotFound ''ner''))\<rparr>"
    by (simp_all add: example_args_def example_externals_def initial_state_def setup_device_def
        scale_batch_size_def seed_rngs_def make_output_dir_def emit_def raise_error_def
        lower_def lower_char_def)
  show ?thesis
    by (intro conjI) (simp_all only: 1 2 3 4 8 r 5 7 not_False_eq_True)
qed

text \<open>
  Claim C7 as stated fails for the unknown evaluation split: with
  \<open>--eval_on validation --eval_every_epoch\<close> the error is raised after the device, the
  model and the training data have been set up, a batch has been trained and the
  checkpoint has been written.
\<close>

theorem eval_split_error_after_training:
  "raised (main (example_args\<lparr>eval_on := ''validation'', eval_every_epoch := True\<rparr>)
             example_externals None) = Some (ValueError EvalSplitUnknown)
   \<and> trace (main (example_args\<lparr>eval_on := ''validation'', eval_every_epoch := True\<rparr>)
             example_externals None)
     = [SelectDevice, SeedRNG, MakeDirs, LoadTokenizer, LoadConfig, LoadModel, GetTrainExamples,
        ConvertTrainFeatures, MakeTrainLoader 16, ForwardBackward 0 0,
        TorchSave \<lparr>ckpt_epoch = 0, ckpt_model_state_dict = 0, ckpt_optimizer_state_dict = 0,
                   ckpt_loss = 1, ckpt_scheduler = 0\<rparr>]
   \<and> files (main (example_args\<lparr>eval_on := ''validation'', eval_every_epoch := True\<rparr>)
             example_externals None)
     = Some [(PATH, CheckpointFile \<lparr>ckpt_epoch = 0, ckpt_model_state_dict = 0,
                ckpt_optimizer_state_dict = 0, ckpt_loss = 1, ckpt_scheduler = 0\<rparr>)]"
  by (simp add: run_defs upto_0_0)

section \<open>The training loop\<close>


lemma apply_update_fields:
  "trace (apply_update ext s) = trace s @ [OptimizerStep, SchedulerStep, ZeroGrad]"
  "global_step (apply_update ext s) = global_step s + 1"
  "args (apply_update ext s) = args s" "files (apply_update ext s) = files s"
  "raised (apply_update ext s) = raised s" "tr_loss (apply_update ext s) = tr_loss s"
  by (simp_all add: apply_update_def Let_def split: prod.split)

lemma write_file_fields:
  "trace (write_file name content s) = trace s" "args (write_file name content s) = args s"
  "model (write_file name content s) = model s" "optimizer (write_file name content s) = optimizer s"
  "scheduler (write_file name content s) = scheduler s" "tr_loss (write_file name content s) = tr_loss s"
  "global_step (write_file name content s) = global_step s"
  by (simp_all add: write_file_def split: option.split)

lemma write_file_files:
  "files s = Some d \<Longrightarrow>
     files (write_file name content s) = Some ((name, content) # filter (\<lambda>e. fst e \<noteq> name) d)
     \<and> raised (write_file name content s) = raised s"
  by (simp add: write_file_def)

lemma run_eval_frame:
  "args (run_eval ext name s) = args s" "model (run_eval ext name s) = model s"
  "optimizer (run_eval ext name s) = optimizer s" "scheduler (run_eval ext name s) = scheduler s"
  "tr_loss (run_eval ext name s) = tr_loss s" "global_step (run_eval ext name s) = global_step s"
  by (simp_all add: run_eval_def Let_def write_file_fields split: sum.split prod.split)

lemma evaluate_frame:
  "args (evaluate ext name s) = args s" "model (evaluate ext name s) = model s"
  "optimizer (evaluate ext name s) = optimizer s" "scheduler (evaluate ext name s) = scheduler s"
  "tr_loss (evaluate ext name s) = tr_loss s" "global_step (evaluate ext name s) = global_step s"
  by (simp_all add: evaluate_def run_eval_frame)

lemma run_eval_files:
  assumes "files s = Some d"
  shows "files (run_eval ext name s) = Some d \<or>
     (\<exists>c. files (run_eval ext name s) = Some ((name, c) # filter (\<lambda>e. fst e \<noteq> name) d))"
  using assms
  by (simp add: run_eval_def Let_def write_file_def split: sum.split prod.split)

lemma evaluate_files:
  assumes "files s = Some d"
  shows "files (evaluate ext name s) = Some d \<or>
     (\<exists>c. files (evaluate ext name s) = Some ((name, c) # filter (\<lambda>e. fst e \<noteq> name) d))"
  using assms run_eval_files[of "emit (GetEvalExamples ''dev'') s" d ext name]
    run_eval_files[of "emit (GetEvalExamples ''test'') s" d ext name]
  by (simp add: evaluate_def)

lemma evaluate_trace:
  "\<exists>evs. trace (evaluate ext name s) = trace s @ evs \<and> list_all is_eval_event evs"
  using continues_evaluate[of is_eval_event s ext name] by (simp add: continues_def)

text \<open>The state of one batch before the evaluation.\<close>

lemma train_batch_effect:
  "\<exists>evs. trace (train_batch ext ep step batch s) =
       trace s @ ForwardBackward ep step #
         (if (int step + 1) mod gradient_accumulation_steps (args s) = 0
          then [OptimizerStep, SchedulerStep, ZeroGrad] else []) @
         TorchSave (current_checkpoint ep (train_batch ext ep step batch s)) # evs
     \<and> list_all is_eval_event evs
     \<and> global_step (train_batch ext ep step batch s) =
         global_step s + (if (int step + 1) mod gradient_accumulation_steps (args s) = 0 then 1 else 0)
     \<and> args (train_batch ext ep step batch s) = args s
     \<and> (\<forall>d. files s = Some d \<longrightarrow>
           (\<exists>d'. files (train_batch ext ep step batch s) = Some d' \<and>
              map_of d' PATH = Some (CheckpointFile (current_checkpoint ep (train_batch ext ep step batch s))) \<and>
              length (filter (\<lambda>e. fst e = PATH) d') = 1))"
proof -
  obtain m l where fb: "forward_backward ext (model s) batch = (m, l)"
    by (cases "forward_backward ext (model s) batch")
  define b where "b = ((int step + 1) mod gradient_accumulation_steps (args s) = 0)"
  define s1 where "s1 = (emit (ForwardBackward ep step) s)\<lparr>
                 model := m, tr_loss := loss_add ext (tr_loss s) l,
                 nb_tr_steps := nb_tr_steps s + 1\<rparr>"
  define s2 where "s2 = (if b then apply_update ext s1 else s1)"
  define s3 where "s3 = torch_save ep s2"
  define f where "f = (\<lambda>s3. if do_eval (args s3) \<and> eval_every_epoch (args s3) \<and> is_first_worker ext s3
              then evaluate ext ''eval_results.txt'' s3 else s3)"
  define r where "r = train_batch ext ep step batch s"
  have tb: "r = andthen s3 f"
    unfolding r_def train_batch_unfold[OF fb] s3_def s2_def s1_def f_def b_def by simp
  have t1: "trace s1 = trace s @ [ForwardBackward ep step]" "args s1 = args s"
    "global_step s1 = global_step s" "files s1 = files s"
    by (simp_all add: s1_def)
  have t2: "trace s2 = trace s @ ForwardBackward ep step #
       (if b then [OptimizerStep, SchedulerStep, ZeroGrad] else [])"
    "args s2 = args s" "global_step s2 = global_step s + (if b then 1 else 0)"
    "files s2 = files s"
    by (simp_all add: s2_def t1 apply_update_fields)
  have t3: "trace s3 = trace s2 @ [TorchSave (current_checkpoint ep s2)]"
    "args s3 = args s" "global_step s3 = global_step s2"
    "current_checkpoint ep s3 = current_checkpoint ep s2"
    by (simp_all add: s3_def torch_save_def write_file_fields t2 current_checkpoint_def)
  have f3: "files s3 = Some ((PATH, CheckpointFile (current_checkpoint ep s2)) #
        filter (\<lambda>e. fst e \<noteq> PATH) d)" if "files s = Some d" for d
    using that write_file_files[of "emit (TorchSave (current_checkpoint ep s2)) s2" d PATH]
    by (simp add: s3_def torch_save_def t2)
  have fr: "args (f t) = args t" "global_step (f t) = global_step t"
    "current_checkpoint ep (f t) = current_checkpoint ep t" for t
    by (simp_all add: f_def evaluate_frame current_checkpoint_def)
  have ft: "\<exists>evs. trace (f t) = trace t @ evs \<and> list_all is_eval_event evs" for t
    using evaluate_trace[of ext "''eval_results.txt''" t] by (simp add: f_def)
  have ff: "\<exists>d'. files (f t) = Some d' \<and> map_of d' PATH = Some c \<and>
      length (filter (\<lambda>e. fst e = PATH) d') = 1"
    if "files t = Some ((PATH, c) # filter (\<lambda>e. fst e \<noteq> PATH) d)" for t c d
  proof -
    have ne: "PATH \<noteq> ''eval_results.txt''" by (simp add: PATH_def)
    have flt: "filter (\<lambda>e. fst e = PATH) (filter (\<lambda>e. fst e \<noteq> PATH) d) = []"
      by (induction d) auto
    have flt2: "filter (\<lambda>e. fst e = PATH) (filter (\<lambda>e. fst e \<noteq> ''eval_results.txt'') xs)
        = filter (\<lambda>e. fst e = PATH) xs" for xs :: "(string \<times> ('a, 'b, 'c, 'd) file_content) list"
      using ne by (induction xs) auto
    have mo: "map_of (filter (\<lambda>e. fst e \<noteq> ''eval_results.txt'') xs) PATH = map_of xs PATH"
      for xs :: "(string \<times> ('a, 'b, 'c, 'd) file_content) list"
      using ne by (induction xs) auto
    from evaluate_files[OF that, of ext "''eval_results.txt''"] that
    show ?thesis
      using ne by (auto simp: f_def flt flt2 mo filter_empty_conv)
  qed
  have tr: "\<exists>evs. trace r = trace s3 @ evs \<and> list_all is_eval_event evs"
    using ft[of s3] by (auto simp: tb andthen_def)
  have ar: "args r = args s" "global_step r = global_step s2"
    "current_checkpoint ep r = current_checkpoint ep s2"
    using fr[of s3] t3 by (auto simp: tb andthen_def)
  have fl: "\<exists>d'. files r = Some d' \<and> map_of d' PATH = Some (CheckpointFile (current_checkpoint ep s2)) \<and>
      length (filter (\<lambda>e. fst e = PATH) d') = 1" if "files s = Some d" for d
  proof (cases "raised s3 = None")
    case True
    then show ?thesis using ff[OF f3[OF that]] by (simp add: tb andthen_def)
  next
    case False
    have "filter (\<lambda>e. fst e = PATH) (filter (\<lambda>e. fst e \<noteq> PATH) d) = []"
      by (induction d) auto
    then show ?thesis using False f3[OF that] by (auto simp: tb andthen_def)
  qed
  from tr obtain evs where evs: "trace r = trace s3 @ evs" "list_all is_eval_event evs" by blast
  show ?thesis
    unfolding r_def[symmetric] b_def[symmetric]
    using evs t3 t2 ar fl by (intro exI[of _ evs]) auto
qed


lemma eval_event_kinds:
  "is_eval_event e \<Longrightarrow>
     \<not> is_forward_backward e \<and> \<not> is_torch_save e \<and> e \<noteq> OptimizerStep \<and> e \<noteq> SchedulerStep
     \<and> e \<noteq> ZeroGrad"
  by (cases e) simp_all

lemma eval_events_counts:
  assumes "list_all is_eval_event evs"
  shows "filter is_forward_backward evs = []" "filter is_torch_save evs = []"
    "count_list evs OptimizerStep = 0" "count_list evs SchedulerStep = 0"
    "count_list evs ZeroGrad = 0"
  using assms eval_event_kinds
  by (auto simp: list_all_iff filter_empty_conv count_list_0_iff)

lemma boundary_step:
  assumes "1 \<le> k"
  shows "((int step + 1) mod k = 0) = (Suc step mod nat k = 0)"
proof -
  have "int (Suc step mod nat k) = (int step + 1) mod k"
    using assms by (simp add: zmod_int add.commute)
  then show ?thesis by (metis of_nat_eq_0_iff)
qed

lemma train_batch_counts:
  assumes "1 \<le> gradient_accumulation_steps (args s)"
  shows "\<exists>evs. trace (train_batch ext ep step batch s) = trace s @ evs
     \<and> length (filter is_forward_backward evs) = 1
     \<and> length (filter is_torch_save evs) = 1
     \<and> count_list evs OptimizerStep =
         (if Suc step mod nat (gradient_accumulation_steps (args s)) = 0 then 1 else 0)
     \<and> count_list evs SchedulerStep =
         (if Suc step mod nat (gradient_accumulation_steps (args s)) = 0 then 1 else 0)
     \<and> count_list evs ZeroGrad =
         (if Suc step mod nat (gradient_accumulation_steps (args s)) = 0 then 1 else 0)
     \<and> global_step (train_batch ext ep step batch s) =
         global_step s + (if Suc step mod nat (gradient_accumulation_steps (args s)) = 0 then 1 else 0)
     \<and> args (train_batch ext ep step batch s) = args s"
proof -
  define r where "r = train_batch ext ep step batch s"
  define b where "b = (Suc step mod nat (gradient_accumulation_steps (args s)) = 0)"
  have bb: "((int step + 1) mod gradient_accumulation_steps (args s) = 0) = b"
    unfolding b_def by (rule boundary_step[OF assms])
  from train_batch_effect[of ext ep step batch s] obtain evs where
    e: "trace r = trace s @ ForwardBackward ep step #
         (if b then [OptimizerStep, SchedulerStep, ZeroGrad] else []) @
         TorchSave (current_checkpoint ep r) # evs"
      "list_all is_eval_event evs"
      "global_step r = global_step s + (if b then 1 else 0)" "args r = args s"
    unfolding r_def[symmetric] bb by blast
  let ?evs = "ForwardBackward ep step #
         (if b then [OptimizerStep, SchedulerStep, ZeroGrad] else []) @
         TorchSave (current_checkpoint ep r) # evs"
  have "trace r = trace s @ ?evs" using e(1) by simp
  moreover have "length (filter is_forward_backward ?evs) = 1"
    "length (filter is_torch_save ?evs) = 1"
    "count_list ?evs OptimizerStep = (if b then 1 else 0)"
    "count_list ?evs SchedulerStep = (if b then 1 else 0)"
    "count_list ?evs ZeroGrad = (if b then 1 else 0)"
    using eval_events_counts[OF e(2)] by simp_all
  ultimately show ?thesis
    unfolding r_def[symmetric] b_def[symmetric] using e(3,4) by blast
qed

lemma div_step:
  assumes "0 < (k::nat)"
  shows "Suc n div k = n div k + (if Suc n mod k = 0 then 1 else 0)"
  by (simp add: div_Suc)

lemma batch_loop_counts:
  assumes "1 \<le> gradient_accumulation_steps (args s)"
  shows "\<exists>evs. trace (batch_loop ext ep (enumerate n bs) s) = trace s @ evs
     \<and> length (filter is_forward_backward evs) \<le> length bs
     \<and> (raised (batch_loop ext ep (enumerate n bs) s) = None \<longrightarrow>
           length (filter is_forward_backward evs) = length bs)
     \<and> length (filter is_torch_save evs) = length (filter is_forward_backward evs)
     \<and> count_list evs OptimizerStep + n div nat (gradient_accumulation_steps (args s)) =
         (n + length (filter is_forward_backward evs)) div nat (gradient_accumulation_steps (args s))
     \<and> count_list evs SchedulerStep = count_list evs OptimizerStep
     \<and> count_list evs ZeroGrad = count_list evs OptimizerStep
     \<and> global_step (batch_loop ext ep (enumerate n bs) s) =
         global_step s + int (count_list evs OptimizerStep)
     \<and> args (batch_loop ext ep (enumerate n bs) s) = args s"
  using assms
proof (induction bs arbitrary: n s)
  case Nil
  then show ?case by simp
next
  case (Cons b bs)
  define k where "k = nat (gradient_accumulation_steps (args s))"
  have k: "0 < k" using Cons.prems by (simp add: k_def)
  define s1 where "s1 = train_batch ext ep n b s"
  from train_batch_counts[OF Cons.prems, of ext ep n b] obtain e1 where
    e1: "trace s1 = trace s @ e1" "length (filter is_forward_backward e1) = 1"
      "length (filter is_torch_save e1) = 1"
      "count_list e1 OptimizerStep = (if Suc n mod k = 0 then 1 else 0)"
      "count_list e1 SchedulerStep = (if Suc n mod k = 0 then 1 else 0)"
      "count_list e1 ZeroGrad = (if Suc n mod k = 0 then 1 else 0)"
      "global_step s1 = global_step s + (if Suc n mod k = 0 then 1 else 0)"
      "args s1 = args s"
    unfolding s1_def[symmetric] k_def[symmetric] by blast
  have loop: "batch_loop ext ep (enumerate n (b # bs)) s =
      andthen s1 (batch_loop ext ep (enumerate (Suc n) bs))"
    by (simp add: s1_def)
  have d: "count_list e1 OptimizerStep + n div k = (n + 1) div k"
    using div_step[OF k, of n] e1(4) by simp
  show ?case
  proof (cases "raised s1 = None")
    case False
    then have r: "batch_loop ext ep (enumerate n (b # bs)) s = s1"
      unfolding loop by (auto simp: andthen_def)
    show ?thesis
      unfolding r k_def[symmetric]
    proof (intro exI[of _ e1] conjI impI)
      show "trace s1 = trace s @ e1" by fact
      show "length (filter is_forward_backward e1) \<le> length (b # bs)" by (simp add: e1(2))
      show "length (filter is_forward_backward e1) = length (b # bs)" if "raised s1 = None"
        using that False by simp
      show "length (filter is_torch_save e1) = length (filter is_forward_backward e1)"
        by (simp add: e1(2,3))
      show "count_list e1 OptimizerStep + n div k =
          (n + length (filter is_forward_backward e1)) div k"
        using d by (simp add: e1(2))
      show "count_list e1 SchedulerStep = count_list e1 OptimizerStep" by (simp add: e1(4,5))
      show "count_list e1 ZeroGrad = count_list e1 OptimizerStep" by (simp add: e1(4,6))
      show "global_step s1 = global_step s + int (count_list e1 OptimizerStep)"
        by (simp add: e1(4,7))
      show "args s1 = args s" by fact
    qed
  next
    case True
    then have r: "batch_loop ext ep (enumerate n (b # bs)) s =
        batch_loop ext ep (enumerate (Suc n) bs) s1"
      unfolding loop by (simp add: andthen_def)
    define s2 where "s2 = batch_loop ext ep (enumerate (Suc n) bs) s1"
    have "1 \<le> gradient_accumulation_steps (args s1)" using Cons.prems e1(8) by simp
    from Cons.IH[OF this, of "Suc n"] have "\<exists>e2. trace s2 = trace s1 @ e2
        \<and> length (filter is_forward_backward e2) \<le> length bs
        \<and> (raised s2 = None \<longrightarrow> length (filter is_forward_backward e2) = length bs)
        \<and> length (filter is_torch_save e2) = length (filter is_forward_backward e2)
        \<and> count_list e2 OptimizerStep + Suc n div k =
           (Suc n + length (filter is_forward_backward e2)) div k
        \<and> count_list e2 SchedulerStep = count_list e2 OptimizerStep
        \<and> count_list e2 ZeroGrad = count_list e2 OptimizerStep
        \<and> global_step s2 = global_step s1 + int (count_list e2 OptimizerStep)
        \<and> args s2 = args s1"
      unfolding s2_def[symmetric] e1(8) k_def[symmetric] .
    then obtain e2 where q: "trace s2 = trace s1 @ e2
        \<and> length (filter is_forward_backward e2) \<le> length bs
        \<and> (raised s2 = None \<longrightarrow> length (filter is_forward_backward e2) = length bs)
        \<and> length (filter is_torch_save e2) = length (filter is_forward_backward e2)
        \<and> count_list e2 OptimizerStep + Suc n div k =
           (Suc n + length (filter is_forward_backward e2)) div k
        \<and> count_list e2 SchedulerStep = count_list e2 OptimizerStep
        \<and> count_list e2 ZeroGrad = count_list e2 OptimizerStep
        \<and> global_step s2 = global_step s1 + int (count_list e2 OptimizerStep)
        \<and> args s2 = args s1" ..
    note e2 = q[THEN conjunct1]
      q[THEN conjunct2, THEN conjunct1]
      q[THEN conjunct2, THEN conjunct2, THEN conjunct1]
      q[THEN conjunct2, THEN conjunct2, THEN conjunct2, THEN conjunct1]
      q[THEN conjunct2, THEN conjunct2, THEN conjunct2, THEN conjunct2, THEN conjunct1]
      q[THEN conjunct2, THEN conjunct2, THEN conjunct2, THEN conjunct2, THEN conjunct2,
        THEN conjunct1]
      q[THEN conjunct2, THEN conjunct2, THEN conjunct2, THEN conjunct2, THEN conjunct2,
        THEN conjunct2, THEN conjunct1]
      q[THEN conjunct2, THEN conjunct2, THEN conjunct2, THEN conjunct2, THEN conjunct2,
        THEN conjunct2, THEN conjunct2, THEN conjunct1]
      q[THEN conjunct2, THEN conjunct2, THEN conjunct2, THEN conjunct2, THEN conjunct2,
        THEN conjunct2, THEN conjunct2, THEN conjunct2]
    have c: "count_list (e1 @ e2) OptimizerStep + n div k =
        (n + length (filter is_forward_backward (e1 @ e2))) div k"
    proof -
      have "count_list (e1 @ e2) OptimizerStep + n div k =
          count_list e2 OptimizerStep + (count_list e1 OptimizerStep + n div k)"
        by simp
      also have "\<dots> = count_list e2 OptimizerStep + Suc n div k"
        by (simp only: d Suc_eq_plus1)
      also have "\<dots> = (Suc n + length (filter is_forward_backward e2)) div k"
        by (rule e2(5))
      finally show ?thesis by (simp add: e1(2))
    qed
    show ?thesis
      unfolding r s2_def[symmetric] k_def[symmetric]
    proof (intro exI[of _ "e1 @ e2"] conjI impI)
      show "trace s2 = trace s @ e1 @ e2" by (simp add: e2(1) e1(1))
      show "length (filter is_forward_backward (e1 @ e2)) \<le> length (b # bs)"
        using e2(2) by (simp add: e1(2))
      show "length (filter is_forward_backward (e1 @ e2)) = length (b # bs)" if "raised s2 = None"
        using that e2(3) by (simp add: e1(2))
      show "length (filter is_torch_save (e1 @ e2)) = length (filter is_forward_backward (e1 @ e2))"
        by (simp add: e1(2,3) e2(4))
      show "count_list (e1 @ e2) OptimizerStep + n div k =
          (n + length (filter is_forward_backward (e1 @ e2))) div k"
        by (rule c)
      show "count_list (e1 @ e2) SchedulerStep = count_list (e1 @ e2) OptimizerStep"
        by (simp add: e1(4,5) e2(6))
      show "count_list (e1 @ e2) ZeroGrad = count_list (e1 @ e2) OptimizerStep"
        by (simp add: e1(4,6) e2(7))
      show "global_step s2 = global_step s + int (count_list (e1 @ e2) OptimizerStep)"
        by (simp add: e1(4,7) e2(8))
      show "args s2 = args s" by (simp add: e2(9) e1(8))
    qed
  qed
qed


lemma train_epoch_counts:
  assumes "1 \<le> gradient_accumulation_steps (args s)"
  shows "length (filter is_torch_save (new_events s (train_epoch ext ep s))) =
           length (filter is_forward_backward (new_events s (train_epoch ext ep s)))"
    and "count_list (new_events s (train_epoch ext ep s)) OptimizerStep =
           length (filter is_forward_backward (new_events s (train_epoch ext ep s)))
             div nat (gradient_accumulation_steps (args s))"
    and "count_list (new_events s (train_epoch ext ep s)) SchedulerStep =
           count_list (new_events s (train_epoch ext ep s)) OptimizerStep"
    and "count_list (new_events s (train_epoch ext ep s)) ZeroGrad =
           count_list (new_events s (train_epoch ext ep s)) OptimizerStep"
    and "global_step (train_epoch ext ep s) =
           global_step s + int (count_list (new_events s (train_epoch ext ep s)) OptimizerStep)"
    and "raised (train_epoch ext ep s) = None \<Longrightarrow>
           length (filter is_forward_backward (new_events s (train_epoch ext ep s))) =
             length (train_batches ext ep)"
proof -
  define s0 where "s0 = s\<lparr>tr_loss := loss_zero ext, nb_tr_steps := 0\<rparr>"
  define r where "r = train_epoch ext ep s"
  define k where "k = nat (gradient_accumulation_steps (args s))"
  have r: "r = batch_loop ext ep (enumerate 0 (train_batches ext ep)) s0"
    by (simp add: r_def train_epoch_def s0_def)
  have a: "args s0 = args s" "trace s0 = trace s" "global_step s0 = global_step s"
    by (simp_all add: s0_def)
  have "1 \<le> gradient_accumulation_steps (args s0)" using assms a by simp
  from batch_loop_counts[OF this, of ext ep 0 "train_batches ext ep"]
  have "\<exists>evs. trace r = trace s @ evs
     \<and> length (filter is_forward_backward evs) \<le> length (train_batches ext ep)
     \<and> (raised r = None \<longrightarrow>
           length (filter is_forward_backward evs) = length (train_batches ext ep))
     \<and> length (filter is_torch_save evs) = length (filter is_forward_backward evs)
     \<and> count_list evs OptimizerStep + 0 div k = (0 + length (filter is_forward_backward evs)) div k
     \<and> count_list evs SchedulerStep = count_list evs OptimizerStep
     \<and> count_list evs ZeroGrad = count_list evs OptimizerStep
     \<and> global_step r = global_step s + int (count_list evs OptimizerStep)
     \<and> args r = args s"
    unfolding r[symmetric] a k_def[symmetric] .
  then obtain evs where q: "trace r = trace s @ evs
     \<and> length (filter is_forward_backward evs) \<le> length (train_batches ext ep)
     \<and> (raised r = None \<longrightarrow>
           length (filter is_forward_backward evs) = length (train_batches ext ep))
     \<and> length (filter is_torch_save evs) = length (filter is_forward_backward evs)
     \<and> count_list evs OptimizerStep + 0 div k = (0 + length (filter is_forward_backward evs)) div k
     \<and> count_list evs SchedulerStep = count_list evs OptimizerStep
     \<and> count_list evs ZeroGrad = count_list evs OptimizerStep
     \<and> global_step r = global_step s + int (count_list evs OptimizerStep)
     \<and> args r = args s" ..
  have n: "new_events s r = evs"
    using q[THEN conjunct1] by (simp add: new_events_def)
  note e = q[THEN conjunct2, THEN conjunct2, THEN conjunct1]
      q[THEN conjunct2, THEN conjunct2, THEN conjunct2, THEN conjunct1]
      q[THEN conjunct2, THEN conjunct2, THEN conjunct2, THEN conjunct2, THEN conjunct1]
      q[THEN conjunct2, THEN conjunct2, THEN conjunct2, THEN conjunct2, THEN conjunct2,
        THEN conjunct1]
      q[THEN conjunct2, THEN conjunct2, THEN conjunct2, THEN conjunct2, THEN conjunct2,
        THEN conjunct2, THEN conjunct1]
      q[THEN conjunct2, THEN conjunct2, THEN conjunct2, THEN conjunct2, THEN conjunct2,
        THEN conjunct2, THEN conjunct2, THEN conjunct1]
  show "length (filter is_torch_save (new_events s (train_epoch ext ep s))) =
           length (filter is_forward_backward (new_events s (train_epoch ext ep s)))"
    unfolding r_def[symmetric] n by (rule e(2))
  show "count_list (new_events s (train_epoch ext ep s)) OptimizerStep =
           length (filter is_forward_backward (new_events s (train_epoch ext ep s)))
             div nat (gradient_accumulation_steps (args s))"
    unfolding r_def[symmetric] n k_def[symmetric] using e(3) by simp
  show "count_list (new_events s (train_epoch ext ep s)) SchedulerStep =
           count_list (new_events s (train_epoch ext ep s)) OptimizerStep"
    unfolding r_def[symmetric] n by (rule e(4))
  show "count_list (new_events s (train_epoch ext ep s)) ZeroGrad =
           count_list (new_events s (train_epoch ext ep s)) OptimizerStep"
    unfolding r_def[symmetric] n by (rule e(5))
  show "global_step (train_epoch ext ep s) =
           global_step s + int (count_list (new_events s (train_epoch ext ep s)) OptimizerStep)"
    unfolding r_def[symmetric] n by (rule e(6))
  show "length (filter is_forward_backward (new_events s (train_epoch ext ep s))) =
             length (train_batches ext ep)" if "raised (train_epoch ext ep s) = None"
    using that e(1) unfolding r_def[symmetric] n by simp
qed

text \<open>
  Claim C4. In a training epoch that processes \<open>N\<close> batches with
  \<open>gradient_accumulation_steps = k \<ge> 1\<close>, the optimizer step, the scheduler step, the
  clearing of the gradients and the increment of \<open>global_step\<close> happen \<open>N div k\<close>
  times each, and \<open>N\<close> is the number of batches of the loader when the epoch ends without
  an exception; within a batch they happen, between the backward pass and the checkpoint,
  exactly when \<open>(step + 1) % k = 0\<close>.
\<close>

theorem optimizer_step_every_kth_batch:
  assumes "1 \<le> gradient_accumulation_steps (args s)"
  shows "(let s' = train_epoch ext ep s;
              evs = new_events s s';
              N = length (filter is_forward_backward evs);
              k = nat (gradient_accumulation_steps (args s))
          in count_list evs OptimizerStep = N div k
             \<and> count_list evs SchedulerStep = N div k
             \<and> count_list evs ZeroGrad = N div k
             \<and> global_step s' = global_step s + int (N div k)
             \<and> (raised s' = None \<longrightarrow> N = length (train_batches ext ep)))
     \<and> (\<exists>c evs. trace (train_batch ext ep step batch s) =
            trace s @ ForwardBackward ep step #
              (if (int step + 1) mod gradient_accumulation_steps (args s) = 0
               then [OptimizerStep, SchedulerStep, ZeroGrad] else []) @
              TorchSave c # evs
          \<and> list_all is_eval_event evs)"
proof
  note c = train_epoch_counts[OF assms, of ext ep]
  show "let s' = train_epoch ext ep s;
              evs = new_events s s';
              N = length (filter is_forward_backward evs);
              k = nat (gradient_accumulation_steps (args s))
          in count_list evs OptimizerStep = N div k
             \<and> count_list evs SchedulerStep = N div k
             \<and> count_list evs ZeroGrad = N div k
             \<and> global_step s' = global_step s + int (N div k)
             \<and> (raised s' = None \<longrightarrow> N = length (train_batches ext ep))"
    unfolding Let_def
    using c(6) by (simp add: c(3) c(4) c(5) c(2)[symmetric])
  show "\<exists>c evs. trace (train_batch ext ep step batch s) =
            trace s @ ForwardBackward ep step #
              (if (int step + 1) mod gradient_accumulation_steps (args s) = 0
               then [OptimizerStep, SchedulerStep, ZeroGrad] else []) @
              TorchSave c # evs
          \<and> list_all is_eval_event evs"
    using train_batch_effect[of ext ep step batch s] by blast
qed

text \<open>
  Claim C5. Every processed batch, whether or not it is an accumulation boundary, is
  followed by one \<open>torch.save\<close> of the five fields epoch, model state, optimizer state,
  running loss and scheduler state, as they are after the batch; the file at the one
  checkpoint path then holds that checkpoint and replaces what was there. Over an epoch
  there are as many checkpoint writes as processed batches.
\<close>

theorem checkpoint_after_every_batch:
  "(files s = Some d \<longrightarrow>
      (let s' = train_batch ext ep step batch s;
           c = \<lparr>ckpt_epoch = ep, ckpt_model_state_dict = model s',
                ckpt_optimizer_state_dict = optimizer s', ckpt_loss = tr_loss s',
                ckpt_scheduler = scheduler s'\<rparr>
       in (\<exists>upd evs. trace s' = trace s @ ForwardBackward ep step # upd @ TorchSave c # evs
             \<and> list_all is_eval_event evs
             \<and> (upd = [] \<or> upd = [OptimizerStep, SchedulerStep, ZeroGrad]))
          \<and> (\<exists>d'. files s' = Some d' \<and> map_of d' PATH = Some (CheckpointFile c)
                \<and> length (filter (\<lambda>e. fst e = PATH) d') = 1)))
   \<and> (1 \<le> gradient_accumulation_steps (args s) \<longrightarrow>
        length (filter is_torch_save (new_events s (train_epoch ext ep s))) =
          length (filter is_forward_backward (new_events s (train_epoch ext ep s))))"
proof (intro conjI impI)
  assume d: "files s = Some d"
  define r where "r = train_batch ext ep step batch s"
  have cc: "\<lparr>ckpt_epoch = ep, ckpt_model_state_dict = model r,
                ckpt_optimizer_state_dict = optimizer r, ckpt_loss = tr_loss r,
                ckpt_scheduler = scheduler r\<rparr> = current_checkpoint ep r"
    by (simp add: current_checkpoint_def)
  from train_batch_effect[of ext ep step batch s] obtain evs where
    e: "trace r = trace s @ ForwardBackward ep step #
         (if (int step + 1) mod gradient_accumulation_steps (args s) = 0
          then [OptimizerStep, SchedulerStep, ZeroGrad] else []) @
         TorchSave (current_checkpoint ep r) # evs"
      "list_all is_eval_event evs"
      "\<forall>d. files s = Some d \<longrightarrow>
           (\<exists>d'. files r = Some d' \<and>
              map_of d' PATH = Some (CheckpointFile (current_checkpoint ep r)) \<and>
              length (filter (\<lambda>e. fst e = PATH) d') = 1)"
    unfolding r_def[symmetric] by blast
  have 1: "\<exists>upd evs. trace r = trace s @ ForwardBackward ep step # upd @
              TorchSave (current_checkpoint ep r) # evs
             \<and> list_all is_eval_event evs
             \<and> (upd = [] \<or> upd = [OptimizerStep, SchedulerStep, ZeroGrad])"
    using e(1,2)
    by (intro exI[of _ "if (int step + 1) mod gradient_accumulation_steps (args s) = 0
          then [OptimizerStep, SchedulerStep, ZeroGrad] else []"] exI[of _ evs]) simp
  have 2: "\<exists>d'. files r = Some d' \<and> map_of d' PATH = Some (CheckpointFile (current_checkpoint ep r))
                \<and> length (filter (\<lambda>e. fst e = PATH) d') = 1"
    using e(3) d by blast
  show "let s' = train_batch ext ep step batch s;
           c = \<lparr>ckpt_epoch = ep, ckpt_model_state_dict = model s',
                ckpt_optimizer_state_dict = optimizer s', ckpt_loss = tr_loss s',
                ckpt_scheduler = scheduler s'\<rparr>
       in (\<exists>upd evs. trace s' = trace s @ ForwardBackward ep step # upd @ TorchSave c # evs
             \<and> list_all is_eval_event evs
             \<and> (upd = [] \<or> upd = [OptimizerStep, SchedulerStep, ZeroGrad]))
          \<and> (\<exists>d'. files s' = Some d' \<and> map_of d' PATH = Some (CheckpointFile c)
                \<and> length (filter (\<lambda>e. fst e = PATH) d') = 1)"
    unfolding Let_def r_def[symmetric] cc using 1 2 by (rule conjI)
next
  assume "1 \<le> gradient_accumulation_steps (args s)"
  then show "length (filter is_torch_save (new_events s (train_epoch ext ep s))) =
          length (filter is_forward_backward (new_events s (train_epoch ext ep s)))"
    by (rule train_epoch_counts(1))
qed


text \<open>
  Three batches with \<open>k = 2\<close> give one optimizer step; ten batches with \<open>k = 3\<close>
  give three.
\<close>

theorem optimizer_step_every_kth_batch_witness:
  "length (filter is_forward_backward
      (new_events (initial_state example_args example_externals (Some []))
         (train_epoch example_externals 0 (initial_state example_args example_externals (Some [])))))
     = 3
   \<and> count_list
      (new_events (initial_state example_args example_externals (Some []))
         (train_epoch example_externals 0 (initial_state example_args example_externals (Some []))))
      OptimizerStep = 1
   \<and> global_step
        (train_epoch example_externals 0 (initial_state example_args example_externals (Some [])))
     = 1
   \<and> count_list
      (new_events (initial_state (example_args\<lparr>gradient_accumulation_steps := 3\<rparr>) example_externals (Some []))
         (train_epoch (example_externals\<lparr>train_batches := \<lambda>ep. [(), (), (), (), (), (), (), (), (), ()]\<rparr>) 0
            (initial_state (example_args\<lparr>gradient_accumulation_steps := 3\<rparr>) example_externals (Some []))))
      OptimizerStep = 3"
proof -
  let ?s = "initial_state example_args example_externals (Some [])"
  let ?t = "initial_state (example_args\<lparr>gradient_accumulation_steps := 3\<rparr>) example_externals (Some [])"
  let ?x = "example_externals\<lparr>train_batches := \<lambda>ep. [(), (), (), (), (), (), (), (), (), ()]\<rparr>"
  have g: "1 \<le> gradient_accumulation_steps (args ?s)" "nat (gradient_accumulation_steps (args ?s)) = 2"
    "1 \<le> gradient_accumulation_steps (args ?t)" "nat (gradient_accumulation_steps (args ?t)) = 3"
    "global_step ?s = 0"
    by (simp_all add: example_args_def initial_state_def)
  have n: "length (filter is_forward_backward (new_events ?s (train_epoch example_externals 0 ?s))) = 3"
    by (simp add: new_events_def run_defs enumerate_eq_zip)
  have m: "length (filter is_forward_backward (new_events ?t (train_epoch ?x 0 ?t))) = 10"
    by (simp add: new_events_def run_defs enumerate_eq_zip)
  note a = optimizer_step_every_kth_batch[OF g(1), of example_externals 0, unfolded Let_def g(2) n,
      THEN conjunct1]
  note b = optimizer_step_every_kth_batch[OF g(3), of ?x 0, unfolded Let_def g(4) m, THEN conjunct1]
  show ?thesis
    using n a b g(5) by simp
qed

text \<open>
  The first two batches of the concrete run: the first is no accumulation boundary, the
  second is one, and each writes its checkpoint.
\<close>

theorem checkpoint_after_every_batch_witness:
  "files (train_batch example_externals 0 0 () (initial_state example_args example_externals (Some [])))
     = Some [(PATH, CheckpointFile \<lparr>ckpt_epoch = 0, ckpt_model_state_dict = 0,
               ckpt_optimizer_state_dict = 0, ckpt_loss = 1, ckpt_scheduler = 0\<rparr>)]
   \<and> trace (train_batch example_externals 0 1 ()
         (train_batch example_externals 0 0 () (initial_state example_args example_externals (Some []))))
     = [ForwardBackward 0 0,
        TorchSave \<lparr>ckpt_epoch = 0, ckpt_model_state_dict = 0, ckpt_optimizer_state_dict = 0,
                   ckpt_loss = 1, ckpt_scheduler = 0\<rparr>,
        ForwardBackward 0 1, OptimizerStep, SchedulerStep, ZeroGrad,
        TorchSave \<lparr>ckpt_epoch = 0, ckpt_model_state_dict = 1, ckpt_optimizer_state_dict = 1,
                   ckpt_loss = 2, ckpt_scheduler = 1\<rparr>]
   \<and> length (filter is_torch_save
        (new_events (initial_state example_args example_externals (Some []))
           (train_epoch example_externals 0 (initial_state example_args example_externals (Some [])))))
     = 3"
proof -
  let ?s = "initial_state example_args example_externals (Some [])"
  have f: "files ?s = Some []" and g: "1 \<le> gradient_accumulation_steps (args ?s)"
    by (simp_all add: initial_state_def example_args_def)
  have n: "length (filter is_forward_backward (new_events ?s (train_epoch example_externals 0 ?s))) = 3"
    by (simp add: new_events_def run_defs enumerate_eq_zip)
  have 1: "files (train_batch example_externals 0 0 () ?s)
     = Some [(PATH, CheckpointFile \<lparr>ckpt_epoch = 0, ckpt_model_state_dict = 0,
               ckpt_optimizer_state_dict = 0, ckpt_loss = 1, ckpt_scheduler = 0\<rparr>)]"
    by (simp add: run_defs)
  have 2: "trace (train_batch example_externals 0 1 () (train_batch example_externals 0 0 () ?s))
     = [ForwardBackward 0 0,
        TorchSave \<lparr>ckpt_epoch = 0, ckpt_model_state_dict = 0, ckpt_optimizer_state_dict = 0,
                   ckpt_loss = 1, ckpt_scheduler = 0\<rparr>,
        ForwardBackward 0 1, OptimizerStep, SchedulerStep, ZeroGrad,
        TorchSave \<lparr>ckpt_epoch = 0, ckpt_model_state_dict = 1, ckpt_optimizer_state_dict = 1,
                   ckpt_loss = 2, ckpt_scheduler = 1\<rparr>]"
    by (simp add: run_defs)
  note c = checkpoint_after_every_batch[of ?s "[]" example_externals 0 0 "()", THEN conjunct2]
  show ?thesis
    using 1 2 c g n by simp
qed

end
